(* ===== verification/Prelude.thy ===== *)
theory Prelude
  imports Main "HOL-Library.Word"
begin

text \<open>
  Shared vocabulary of the development: the machine integers of the C code, bytes and C
  strings, the byte order of the target (AArch64, little endian), the decimal and
  hexadecimal conversions of \<open>sprintf\<close> and \<open>atol\<close> that the sources use, and the lemma
  collections the component theories extend.  On the target ABI \<open>char\<close> is unsigned and
  \<open>long\<close> has 64 bits, so \<open>char\<close> and \<open>uint8_t\<close> are both \<open>u8\<close>.
\<close>

unbundle bit_operations_syntax

type_synonym u8 = "8 word"
type_synonym u32 = "32 word"
type_synonym u64 = "64 word"
type_synonym bytes = "u8 list"

named_theorems run_simps \<open>unfolding rules of the sequencing operators\<close>
named_theorems ops \<open>characteristic equations of the operations\<close>
named_theorems hist_simps \<open>what a call contributes to the abstractions of a history\<close>

section \<open>Bytes and C strings\<close>

definition byte_char :: "u8 \<Rightarrow> char" where
  "byte_char b = char_of (unat b)"

definition char_byte :: "char \<Rightarrow> u8" where
  "char_byte c = of_nat (of_char c)"

definition str_bytes :: "string \<Rightarrow> bytes" where
  "str_bytes = map char_byte"

text \<open>The string a \<open>char\<close> array holds: the bytes before the first NUL.\<close>

definition cstr :: "bytes \<Rightarrow> string" where
  "cstr bs = map byte_char (takeWhile (\<lambda>b. b \<noteq> 0) bs)"

lemma byte_char_inverse [simp]: "char_byte (byte_char b) = b"
  by (simp add: byte_char_def char_byte_def unsigned_less [of b, simplified])

lemma unat_char_byte [simp]: "unat (char_byte c) = of_char c"
proof -
  have "(of_char c :: nat) < 256" by simp
  then show ?thesis by (simp add: char_byte_def unat_of_nat)
qed

lemma char_byte_inverse [simp]: "byte_char (char_byte c) = c"
  by (simp add: byte_char_def)

lemma char_byte_eq_0 [simp]: "char_byte c = 0 \<longleftrightarrow> c = CHR 0x00"
proof
  assume "char_byte c = 0"
  then have "unat (char_byte c) = 0" by simp
  then have "of_char c = (of_char (CHR 0x00) :: nat)" by simp
  then show "c = CHR 0x00" by (simp only: of_char_eq_iff)
next
  assume "c = CHR 0x00"
  then show "char_byte c = 0" by (simp add: char_byte_def)
qed

lemma length_str_bytes [simp]: "length (str_bytes s) = length s"
  by (simp add: str_bytes_def)

lemma length_cstr_le: "length (cstr bs) \<le> length bs"
  by (simp add: cstr_def length_takeWhile_le)

lemma cstr_append_nul:
  assumes "CHR 0x00 \<notin> set s"
  shows "cstr (str_bytes s @ 0 # bs) = s"
proof -
  have "takeWhile (\<lambda>b. b \<noteq> 0) (str_bytes s @ 0 # bs) = str_bytes s"
    using assms by (subst takeWhile_append2) (auto simp: str_bytes_def)
  then show ?thesis by (simp add: cstr_def str_bytes_def o_def)
qed

text \<open>Overwriting a \<open>char\<close> array from position \<open>i\<close> on.\<close>

definition overwrite :: "nat \<Rightarrow> bytes \<Rightarrow> bytes \<Rightarrow> bytes" where
  "overwrite i d buf = take i buf @ d @ drop (i + length d) buf"

lemma length_overwrite: "i + length d \<le> length buf \<Longrightarrow> length (overwrite i d buf) = length buf"
  by (simp add: overwrite_def)

lemma nth_overwrite:
  "i + length d \<le> length buf \<Longrightarrow> k < length buf \<Longrightarrow> overwrite i d buf ! k =
     (if i \<le> k \<and> k < i + length d then d ! (k - i) else buf ! k)"
  by (auto simp: overwrite_def nth_append)

text \<open>A sequence of assignments to the elements of an array.\<close>

definition poke :: "(nat \<times> u8) list \<Rightarrow> bytes \<Rightarrow> bytes" where
  "poke ws buf = foldl (\<lambda>b (i, v). b[i := v]) buf ws"

lemma poke_simps [simp]:
  "poke [] buf = buf" "poke ((i, v) # ws) buf = poke ws (buf[i := v])"
  by (simp_all add: poke_def)

lemma length_poke [simp]: "length (poke ws buf) = length buf"
  by (induction ws arbitrary: buf) auto

lemma poke_append [simp]: "poke (ws @ vs) buf = poke vs (poke ws buf)"
  by (simp add: poke_def)

text \<open>Assigning consecutive elements from position \<open>i\<close> on overwrites a segment.\<close>

definition segment :: "nat \<Rightarrow> bytes \<Rightarrow> (nat \<times> u8) list" where
  "segment i vs = zip [i..<i + length vs] vs"

lemma poke_segment:
  "i + length vs \<le> length buf \<Longrightarrow> poke (segment i vs) buf = overwrite i vs buf"
proof (induction vs arbitrary: i buf)
  case Nil
  then show ?case by (simp add: overwrite_def segment_def)
next
  case (Cons v vs)
  have "[i..<i + length (v # vs)] = i # [Suc i..<Suc i + length vs]"
    by (subst upt_conv_Cons) simp_all
  then have "poke (segment i (v # vs)) buf = poke (segment (Suc i) vs) (buf[i := v])"
    by (simp add: segment_def del: upt_Suc)
  also have "\<dots> = overwrite (Suc i) vs (buf[i := v])"
    by (rule Cons.IH) (use Cons.prems in simp_all)
  also have "\<dots> = overwrite i (v # vs) buf"
    using Cons.prems by (simp add: overwrite_def take_Suc_conv_app_nth)
  finally show ?case .
qed

section \<open>Byte order\<close>

text \<open>Byte \<open>k\<close> of a 64-bit value, counted from the least significant one.\<close>

definition byte_at :: "u64 \<Rightarrow> nat \<Rightarrow> u8" where
  "byte_at w k = ucast (drop_bit (8 * k) w)"

definition le_bytes :: "u64 \<Rightarrow> bytes" where
  "le_bytes w = map (byte_at w) [0..<8]"

definition be_bytes :: "u64 \<Rightarrow> bytes" where
  "be_bytes w = map (byte_at w) [7, 6, 5, 4, 3, 2, 1, 0]"

fun le_val :: "bytes \<Rightarrow> u64" where
  "le_val [] = 0"
| "le_val (b # bs) = ucast b OR push_bit 8 (le_val bs)"

definition be_val :: "bytes \<Rightarrow> u64" where
  "be_val bs = le_val (rev bs)"

lemma length_le_bytes [simp]: "length (le_bytes w) = 8"
  by (simp add: le_bytes_def)

lemma length_be_bytes [simp]: "length (be_bytes w) = 8"
  by (simp add: be_bytes_def)

lemma bit_byte_at: "bit (byte_at w k) n \<longleftrightarrow> n < 8 \<and> bit w (8 * k + n)"
  by (simp add: byte_at_def bit_simps)

lemma be_bytes_rev: "be_bytes w = rev (le_bytes w)"
  by (simp add: be_bytes_def le_bytes_def upt_rec numeral_eq_Suc)

lemma bit_le_val:
  "bit (le_val bs) n \<longleftrightarrow> n < 64 \<and> n div 8 < length bs \<and> bit (bs ! (n div 8)) (n mod 8)"
proof (induction bs arbitrary: n)
  case Nil
  then show ?case by simp
next
  case (Cons b bs)
  have high: "\<not> bit b n" if "8 \<le> n"
    using that bit_imp_le_length [of b n] by auto
  show ?case
  proof (cases "n < 8")
    case True
    then show ?thesis by (auto simp: bit_simps)
  next
    case False
    then have "n div 8 = Suc ((n - 8) div 8)" "n mod 8 = (n - 8) mod 8"
      by (auto simp: le_div_geq le_mod_geq)
    with False high Cons.IH [of "n - 8"] show ?thesis
      by (auto simp: bit_simps)
  qed
qed

lemma le_val_le_bytes [simp]: "le_val (le_bytes w) = w"
proof (rule bit_eqI)
  fix n assume "possible_bit TYPE(u64) n"
  then have n: "n < 64" by (simp add: possible_bit_word)
  then have "n div 8 < 8" by simp
  then have "le_bytes w ! (n div 8) = byte_at w (n div 8)"
    by (simp add: le_bytes_def)
  with n \<open>n div 8 < 8\<close> show "bit (le_val (le_bytes w)) n = bit w n"
    by (simp add: bit_le_val bit_byte_at)
qed

lemma be_val_be_bytes [simp]: "be_val (be_bytes w) = w"
  by (simp add: be_val_def be_bytes_rev)

lemma byte_at_0 [simp]: "byte_at 0 k = 0"
  by (simp add: byte_at_def)

section \<open>Number formats: \<open>%d\<close>, \<open>%02x\<close> and \<open>atol\<close>\<close>

definition digit_char :: "nat \<Rightarrow> char" where
  "digit_char d = char_of (48 + d)"

function dec :: "nat \<Rightarrow> string" where
  "dec n = (if n < 10 then [digit_char n] else dec (n div 10) @ [digit_char (n mod 10)])"
  by pat_completeness auto
termination
  by (relation "measure id") auto

declare dec.simps [simp del]

text \<open>\<open>sprintf("%d", i)\<close>.\<close>

definition sdec :: "int \<Rightarrow> string" where
  "sdec i = (if i < 0 then CHR ''-'' # dec (nat (- i)) else dec (nat i))"

definition hex_char :: "nat \<Rightarrow> char" where
  "hex_char d = (if d < 10 then char_of (48 + d) else char_of (87 + d))"

function hex :: "nat \<Rightarrow> string" where
  "hex n = (if n < 16 then [hex_char n] else hex (n div 16) @ [hex_char (n mod 16)])"
  by pat_completeness auto
termination
  by (relation "measure id") auto

declare hex.simps [simp del]

text \<open>\<open>sprintf("%02x", w)\<close>: at least two lower-case digits.\<close>

definition hex02 :: "u32 \<Rightarrow> string" where
  "hex02 w = (if unat w < 16 then CHR ''0'' # hex (unat w) else hex (unat w))"

definition is_digit :: "char \<Rightarrow> bool" where
  "is_digit c \<longleftrightarrow> 48 \<le> (of_char c :: nat) \<and> (of_char c :: nat) \<le> 57"

definition is_space :: "char \<Rightarrow> bool" where
  "is_space c \<longleftrightarrow> of_char c = (32::nat) \<or> 9 \<le> (of_char c :: nat) \<and> (of_char c :: nat) \<le> 13"

fun digits_val :: "int \<Rightarrow> string \<Rightarrow> int" where
  "digits_val acc [] = acc"
| "digits_val acc (c # cs) =
     (if is_digit c then digits_val (10 * acc + (of_char c - 48)) cs else acc)"

definition atol :: "string \<Rightarrow> int" where
  "atol s = (case dropWhile is_space s of [] \<Rightarrow> 0
     | c # cs \<Rightarrow> if c = CHR ''-'' then - digits_val 0 cs
                else if c = CHR ''+'' then digits_val 0 cs
                else digits_val 0 (c # cs))"

lemma of_char_digit [simp]: "d < 10 \<Longrightarrow> of_char (digit_char d) = 48 + d"
  by (simp add: digit_char_def)

lemma of_char_digit_int [simp]: "d < 10 \<Longrightarrow> of_char (digit_char d) = 48 + int d"
  using of_nat_of_char [of "digit_char d", where ?'a = int] by simp

lemma is_digit_digit_char [simp]: "d < 10 \<Longrightarrow> is_digit (digit_char d)"
  by (simp add: is_digit_def)

lemma dec_digits: "\<forall>c \<in> set (dec n). is_digit c"
proof (induction n rule: dec.induct)
  case (1 n)
  then show ?case by (subst dec.simps) auto
qed

lemma digits_val_append:
  "\<forall>c \<in> set cs. is_digit c \<Longrightarrow> digits_val acc (cs @ ds) = digits_val (digits_val acc cs) ds"
  by (induction cs arbitrary: acc) auto

lemma digits_val_dec: "digits_val 0 (dec n) = int n"
proof (induction n rule: dec.induct)
  case (1 n)
  show ?case
  proof (cases "n < 10")
    case True
    then show ?thesis by (subst dec.simps) simp
  next
    case False
    have "10 * int (n div 10) + int (n mod 10) = int (10 * (n div 10) + n mod 10)"
      by (simp only: of_nat_add of_nat_mult of_nat_numeral)
    then have "10 * int (n div 10) + int (n mod 10) = int n" by simp
    with False 1 dec_digits [of "n div 10"] show ?thesis
      by (subst dec.simps) (simp add: digits_val_append)
  qed
qed

lemma dec_nonempty [simp]: "dec n \<noteq> []"
  by (subst dec.simps) simp

lemma dec_inject [simp]: "dec m = dec n \<longleftrightarrow> m = n"
  by (metis digits_val_dec of_nat_eq_iff)

lemma sdec_inject [simp]: "sdec i = sdec j \<longleftrightarrow> i = j"
proof -
  have "\<not> is_digit (CHR ''-'')" by (simp add: is_digit_def)
  then have "dec n \<noteq> CHR ''-'' # s" for n s
    using dec_digits [of n] by auto
  then show ?thesis
    by (auto simp: sdec_def eq_commute [of "_ # _" "dec _"])
qed

lemma atol_dec:
  assumes "s = [] \<or> \<not> is_digit (hd s)"
  shows "atol (dec n @ s) = int n"
proof -
  obtain c cs where c: "dec n = c # cs" by (cases "dec n") auto
  with dec_digits [of n] have d: "is_digit c" by simp
  then have "\<not> is_space c" "c \<noteq> CHR ''-''" "c \<noteq> CHR ''+''"
    by (auto simp: is_digit_def is_space_def)
  moreover have "digits_val 0 (dec n @ s) = int n"
    using assms by (cases s) (auto simp: digits_val_append dec_digits digits_val_dec)
  ultimately show ?thesis using c d by (simp add: atol_def)
qed

lemma length_hex_byte: "n < 256 \<Longrightarrow> length (hex n) = (if n < 16 then 1 else 2)"
proof -
  assume n: "n < 256"
  show ?thesis
  proof (cases "n < 16")
    case True
    then show ?thesis by (subst hex.simps) simp
  next
    case False
    moreover have "hex (n div 16) = [hex_char (n div 16)]"
    proof -
      have "n div 16 < 16" using n by (simp add: div_less_iff_less_mult)
      then show ?thesis by (subst hex.simps) simp
    qed
    ultimately show ?thesis by (subst hex.simps) simp
  qed
qed

lemma length_hex02: "unat w < 256 \<Longrightarrow> length (hex02 w) = 2"
  by (simp add: hex02_def length_hex_byte)

end
