(* ===== verification/Machine.thy ===== *)
theory Machine
  imports Prelude
begin

text \<open>
  The machine the C code runs on.  Everything the code does that another party can see is
  an \<open>event\<close>: a system call, or an access to one of the two memory-mapped BRAM windows that
  the processing system (PS, this program) shares with the programmable logic (PL, the
  FPGA).  A \<open>history\<close> is the list of events so far, oldest first, each with the value it
  returned and the bytes it delivered.  The kernel and the PL are not under \<open>src/\<close>: they are
  the parameter \<open>env\<close>, functions from the history to the answer of the next event, so they
  may answer in any way and may depend on all that happened before.

  C functions are \<open>prog\<close>s: functions from a state to an \<open>Ok\<close> result with the new state, or a
  \<open>Fail\<close> with the reason: \<open>exit\<close>, undefined behaviour of C, or a busy wait that did not end.
  Diagnostic output (\<open>printf\<close>, \<open>perror\<close>) is left out of the histories.
\<close>

section \<open>Events\<close>

datatype oflag = O_RDONLY | O_WRONLY | O_RDWR | O_CREAT | O_TRUNC | O_DIRECT | O_SYNC
  | O_NOCTTY | O_NDELAY

text \<open>The request numbers of the DMA driver, \<open>IOCTL_DMA_*\<close> of udma.c.\<close>

datatype dma_req = DMA_RD | DMA_WR | DMA_SA | DMA_DA

datatype whence = SEEK_SET | SEEK_END

datatype mflag = MAP_SHARED | MAP_PRIVATE | MAP_ANONYMOUS | MAP_HUGETLB

record termios =
  c_iflag :: u32
  c_oflag :: u32
  c_cflag :: u32
  c_lflag :: u32
  c_vtime :: u8
  c_vmin :: u8
  c_ispeed :: nat
  c_ospeed :: nat

record tm =
  tm_sec :: int
  tm_min :: int
  tm_hour :: int
  tm_mday :: int
  tm_mon :: int
  tm_year :: int

datatype mem_call =
    Mmap "mflag list" nat int u64
  | Munmap u64 nat
  | Madvise u64 nat
  | Mlock u64 nat
  | Memalign nat nat
  | Free u64

datatype dir_call =
    Opendir string
  | Readdir int
  | Closedir int
  | Fopen string
  | Fseek int u64
  | Fread int nat
  | Fclose int

datatype tty_call =
    Tcgetattr int
  | Tcsetattr int termios
  | Tcflush int
  | Select int int

datatype net_call =
    Socket
  | Bind int string nat
  | Listen int nat
  | Accept int
  | Fork
  | Pthread_create string

datatype time_call =
    Sleep nat
  | Gettimeofday
  | Mktime tm
  | Stime int

datatype event =
    Open string "oflag list" nat
  | Close int
  | Read int nat
  | Write int bytes
  | Lseek int int whence
  | Ftruncate int int
  | Ioctl int dma_req u64
  | Remove string
  | Access string int
  | Mkdir string nat
  | Chmod string nat
  | Statfs string
  | Usleep nat
  | BramLd nat nat
  | BramSt nat nat u64
  | BramCp nat nat
  | Mem mem_call
  | Dir dir_call
  | Tty tty_call
  | Net net_call
  | Time time_call

type_synonym entry = "event \<times> int \<times> bytes"
type_synonym history = "entry list"

section \<open>The environment\<close>

record statfs_t =
  f_type :: int
  f_blocks :: u64
  f_bfree :: u64
  f_bsize :: u64

datatype dtype = DT_REG | DT_DIR | DT_OTHER

text \<open>
  \<open>k_ret\<close>, \<open>k_data\<close>: value and bytes a call returns.  \<open>k_statfs\<close>, \<open>k_time\<close>, \<open>k_termios\<close>,
  \<open>k_dir\<close>: the structures filled by \<open>statfs\<close>, \<open>gettimeofday\<close>, \<open>tcgetattr\<close> and the entries
  \<open>readdir\<close> returns.  \<open>pl_word w i\<close>: the word the PL presents at index \<open>i\<close> of BRAM window \<open>w\<close>.
  \<open>indet\<close>: the value of an object the C standard leaves indeterminate.  \<open>fpu i\<close>: the
  result of the floating-point throughput computation stored to BRAM word \<open>i\<close>.  \<open>page_size\<close>: \<open>getpagesize()\<close>.  \<open>polls\<close>: how
  often a busy wait may poll before the model gives it up as hanging.
\<close>

record env =
  k_ret :: "history \<Rightarrow> event \<Rightarrow> int"
  k_data :: "history \<Rightarrow> event \<Rightarrow> bytes"
  k_statfs :: "history \<Rightarrow> statfs_t"
  k_time :: "history \<Rightarrow> int \<times> int"
  k_termios :: "history \<Rightarrow> termios"
  k_dir :: "history \<Rightarrow> string \<Rightarrow> (string \<times> dtype) list"
  pl_word :: "history \<Rightarrow> nat \<Rightarrow> nat \<Rightarrow> u64"
  indet :: "history \<Rightarrow> u8"
  fpu :: "nat \<Rightarrow> u64 \<Rightarrow> int \<times> int \<Rightarrow> u64"
  page_size :: nat
  polls :: nat

section \<open>States and programs\<close>

text \<open>
  The state every component shares: the history, and the half of BRAM window 1 that the PS
  writes (\<open>0x82000000\<close> to \<open>0x82000fff\<close>, words 0 to 511).  The components extend it with
  their C globals.
\<close>

record machine =
  hist :: history
  bram_ps :: "nat \<Rightarrow> u64"

datatype abort = Exited int | Undefined | Hang

datatype ('s, 'a) result = Ok 'a 's | Fail abort 's

type_synonym ('s, 'a) prog = "'s \<Rightarrow> ('s, 'a) result"

definition ret :: "'a \<Rightarrow> ('s, 'a) prog" where
  "ret v s = Ok v s"

definition abort_with :: "abort \<Rightarrow> ('s, 'a) prog" where
  "abort_with a s = Fail a s"

text \<open>The range of \<open>int\<close>; an addition that leaves it is undefined.\<close>

definition int_fits :: "int \<Rightarrow> bool" where
  "int_fits i \<longleftrightarrow> - (2 ^ 31) \<le> i \<and> i < 2 ^ 31"

definition int_add :: "int \<Rightarrow> int \<Rightarrow> ('s, int) prog" where
  "int_add i j = (if int_fits (i + j) then ret (i + j) else abort_with Undefined)"

definition bindR :: "('s, 'a) prog \<Rightarrow> ('a \<Rightarrow> ('s, 'b) prog) \<Rightarrow> ('s, 'b) prog" where
  "bindR m f s = (case m s of Ok v s' \<Rightarrow> f v s' | Fail a s' \<Rightarrow> Fail a s')"

definition modify :: "('s \<Rightarrow> 's) \<Rightarrow> ('s, unit) prog" where
  "modify f s = Ok () (f s)"

definition gets :: "('s \<Rightarrow> 'a) \<Rightarrow> ('s, 'a) prog" where
  "gets f s = Ok (f s) s"

definition drop_val :: "('s, 'a) prog \<Rightarrow> ('s, unit) prog" where
  "drop_val m = bindR m (\<lambda>_. ret ())"

text \<open>Statements in sequence; a statement whose condition is read from the state.\<close>

fun seqR :: "('s, unit) prog list \<Rightarrow> ('s, unit) prog" where
  "seqR [] s = Ok () s"
| "seqR (m # ms) s = (case m s of Ok _ s' \<Rightarrow> seqR ms s' | Fail a s' \<Rightarrow> Fail a s')"

definition whenR :: "('s \<Rightarrow> bool) \<Rightarrow> ('s, unit) prog \<Rightarrow> ('s, unit) prog" where
  "whenR c m s = (if c s then m s else Ok () s)"

definition ifR :: "('s \<Rightarrow> bool) \<Rightarrow> ('s, 'a) prog \<Rightarrow> ('s, 'a) prog \<Rightarrow> ('s, 'a) prog" where
  "ifR c m m' s = (if c s then m s else m' s)"

text \<open>The first \<open>n\<close> iterations of an endless loop.\<close>

fun iterR :: "nat \<Rightarrow> ('s, unit) prog \<Rightarrow> ('s, unit) prog" where
  "iterR 0 m s = Ok () s"
| "iterR (Suc n) m s = (case m s of Ok _ s' \<Rightarrow> iterR n m s' | Fail a s' \<Rightarrow> Fail a s')"

text \<open>\<open>while (p()) ;\<close> with a bound on the number of polls.\<close>

fun poll_while :: "nat \<Rightarrow> ('s, u8) prog \<Rightarrow> ('s, unit) prog" where
  "poll_while 0 p s = Fail Hang s"
| "poll_while (Suc n) p s =
     (case p s of Ok v s' \<Rightarrow> if v \<noteq> 0 then poll_while n p s' else Ok () s'
      | Fail a s' \<Rightarrow> Fail a s')"

lemmas [run_simps] = ret_def abort_with_def bindR_def modify_def gets_def drop_val_def
  whenR_def ifR_def

lemma iterR_add:
  "iterR (m + n) b s = (case iterR m b s of Ok _ s' \<Rightarrow> iterR n b s' | Fail a s' \<Rightarrow> Fail a s')"
  by (induction m arbitrary: s) (auto split: result.splits)

section \<open>Weakest preconditions\<close>

text \<open>
  \<open>wp m Q A s\<close>: from \<open>s\<close>, \<open>m\<close> either returns with \<open>Q\<close> or stops for a reason allowed by \<open>A\<close>.
  With \<open>A\<close> true this is partial correctness, with \<open>A\<close> false \<open>m\<close> must return.
\<close>

definition wp :: "('s, 'a) prog \<Rightarrow> ('a \<Rightarrow> 's \<Rightarrow> bool) \<Rightarrow> (abort \<Rightarrow> bool) \<Rightarrow> 's \<Rightarrow> bool" where
  "wp m Q A s = (case m s of Ok v t \<Rightarrow> Q v t | Fail a t \<Rightarrow> A a)"

lemma wp_Ok: "wp m Q A s \<Longrightarrow> m s = Ok v t \<Longrightarrow> Q v t"
  by (simp add: wp_def)

lemma wp_total: "wp m Q (\<lambda>_. False) s \<Longrightarrow> \<exists>v t. m s = Ok v t \<and> Q v t"
  by (simp add: wp_def split: result.splits)

lemma wp_returns: "wp m R (\<lambda>_. False) s \<Longrightarrow> \<exists>t. m s = Ok () t \<and> R () t"
  by (simp add: wp_def split: result.splits)

lemma wpI: "(\<And>v t. m s = Ok v t \<Longrightarrow> Q v t) \<Longrightarrow> wp m Q (\<lambda>_. True) s"
  by (simp add: wp_def split: result.splits)

lemma wp_mono: "wp m Q A s \<Longrightarrow> (\<And>v t. Q v t \<Longrightarrow> Q' v t) \<Longrightarrow> (\<And>a. A a \<Longrightarrow> A' a) \<Longrightarrow> wp m Q' A' s"
  by (simp add: wp_def split: result.splits)

lemma wp_conj: "wp m Q A s \<Longrightarrow> wp m Q' A s \<Longrightarrow> wp m (\<lambda>v t. Q v t \<and> Q' v t) A s"
  by (simp add: wp_def split: result.splits)

lemma wp_total_conj:
  "wp m Q (\<lambda>_. False) s \<Longrightarrow> wp m Q' A s \<Longrightarrow> wp m (\<lambda>v t. Q v t \<and> Q' v t) (\<lambda>_. False) s"
  by (simp add: wp_def split: result.splits)

lemma wp_value [simp]:
  "wp (ret v) Q A s = Q v s" "wp (abort_with a) Q A s = A a" "wp (gets g) Q A s = Q (g s) s"
  by (simp_all add: wp_def ret_def abort_with_def gets_def)

lemma wp_bindR [simp]: "wp (bindR m f) Q A s = wp m (\<lambda>v. wp (f v) Q A) A s"
  by (simp add: wp_def bindR_def split: result.split)

lemma wp_ifR [simp]: "wp (ifR c m m') Q A s = (if c s then wp m Q A s else wp m' Q A s)"
  by (simp add: wp_def ifR_def)

lemma wp_statement [simp]:
  "wp (modify f) R A s = R () (f s)"
  "wp (whenR c p) R A s = (if c s then wp p R A s else R () s)"
  "wp (seqR []) R A = R ()"
  "wp (seqR (p # ps)) R A = wp p (\<lambda>_. wp (seqR ps) R A) A"
  by (simp_all add: wp_def fun_eq_iff modify_def whenR_def split: result.split)

lemma wp_drop_val [simp]: "wp (drop_val m) R A s = wp m (\<lambda>_. R ()) A s"
  by (simp add: wp_def drop_val_def bindR_def ret_def split: result.split)

lemma wp_if [simp]: "wp (if b then m else m') Q A s = (if b then wp m Q A s else wp m' Q A s)"
  by simp

section \<open>Issuing events\<close>

definition emit :: "event \<Rightarrow> int \<Rightarrow> bytes \<Rightarrow> 'm machine_scheme \<Rightarrow> 'm machine_scheme" where
  "emit c r d s = s\<lparr>hist := hist s @ [(c, r, d)]\<rparr>"

text \<open>A system call: its value, with the bytes it delivers recorded in the history.\<close>

definition syscall :: "env \<Rightarrow> event \<Rightarrow> ('m machine_scheme, int) prog" where
  "syscall e c s = Ok (k_ret e (hist s) c) (emit c (k_ret e (hist s) c) (k_data e (hist s) c) s)"

text \<open>A system call used for its effect only.\<close>

definition sysdo :: "env \<Rightarrow> event \<Rightarrow> ('m machine_scheme, unit) prog" where
  "sysdo e c s = Ok () (emit c (k_ret e (hist s) c) (k_data e (hist s) c) s)"

text \<open>A system call that fills a buffer: its value and the bytes.\<close>

definition syscall_data :: "env \<Rightarrow> event \<Rightarrow> ('m machine_scheme, int \<times> bytes) prog" where
  "syscall_data e c s = Ok (k_ret e (hist s) c, k_data e (hist s) c)
     (emit c (k_ret e (hist s) c) (k_data e (hist s) c) s)"

lemmas [ops] = syscall_def sysdo_def syscall_data_def

lemma hist_emit [simp]: "hist (emit c r d s) = hist s @ [(c, r, d)]"
  by (simp add: emit_def)

lemma bram_ps_emit [simp]: "bram_ps (emit c r d s) = bram_ps s"
  by (simp add: emit_def)

lemma more_emit [simp]: "machine.more (emit c r d s) = machine.more s"
  by (simp add: emit_def)

lemma wp_syscall [simp]:
  "wp (syscall e c) Q A s =
     Q (k_ret e (hist s) c) (emit c (k_ret e (hist s) c) (k_data e (hist s) c) s)"
  by (simp add: wp_def syscall_def)

lemma wp_sysdo [simp]:
  "wp (sysdo e c) Q A s = Q () (emit c (k_ret e (hist s) c) (k_data e (hist s) c) s)"
  by (simp add: wp_def sysdo_def)

lemma wp_syscall_data [simp]:
  "wp (syscall_data e c) Q A s = Q (k_ret e (hist s) c, k_data e (hist s) c)
     (emit c (k_ret e (hist s) c) (k_data e (hist s) c) s)"
  by (simp add: wp_def syscall_data_def)

section \<open>Threads\<close>

text \<open>
  A thread is the body of its endless loop, run one iteration at a time; between two
  iterations the other threads, the kernel and the PL may change the state in any way that
  satisfies the thread's rely relation.
\<close>

inductive interleave :: "('s, unit) prog \<Rightarrow> ('s \<Rightarrow> 's \<Rightarrow> bool) \<Rightarrow> 's \<Rightarrow> 's \<Rightarrow> bool"
  for body rely s where
  start: "interleave body rely s s"
| own: "interleave body rely s t \<Longrightarrow> body t = Ok () u \<Longrightarrow> interleave body rely s u"
| others: "interleave body rely s t \<Longrightarrow> rely t u \<Longrightarrow> interleave body rely s u"

lemma interleave_once: "body s = Ok () t \<Longrightarrow> interleave body rely s t"
  by (rule interleave.own [OF interleave.start])

locale rely_loop =
  fixes body :: "('s, unit) prog" and rely :: "'s \<Rightarrow> 's \<Rightarrow> bool" and inv :: "'s \<Rightarrow> bool"
  assumes body_inv: "inv s \<Longrightarrow> body s = Ok () t \<Longrightarrow> inv t"
    and rely_inv: "inv s \<Longrightarrow> rely s t \<Longrightarrow> inv t"
begin

lemma interleave_inv: "interleave body rely s t \<Longrightarrow> inv s \<Longrightarrow> inv t"
  by (induction rule: interleave.induct) (blast intro: body_inv rely_inv)+

lemma iter_inv: "iterR n body s = Ok () t \<Longrightarrow> inv s \<Longrightarrow> inv t"
  by (induction n arbitrary: s) (auto split: result.splits intro: body_inv)

end

text \<open>
  A flag the PL raises and lowers, polled by a function of the code: reading it returns
  \<open>val\<close> of the state and only lets time pass (\<open>tick\<close>).
\<close>

locale polled_flag =
  fixes flag :: "('s, u8) prog" and val :: "'s \<Rightarrow> u8" and tick :: "'s \<Rightarrow> 's"
  assumes flag_eq: "flag s = Ok (val s) (tick s)"
begin

lemma poll_Suc:
  "poll_while (Suc n) flag s = (if val s \<noteq> 0 then poll_while n flag (tick s) else Ok () (tick s))"
  by (simp only: poll_while.simps flag_eq result.case)

lemma poll_returns:
  "k < n \<Longrightarrow> val ((tick ^^ k) s) = 0 \<Longrightarrow> \<forall>j<k. val ((tick ^^ j) s) \<noteq> 0 \<Longrightarrow>
   poll_while n flag s = Ok () ((tick ^^ Suc k) s)"
proof (induction n arbitrary: k s)
  case 0
  then show ?case by simp
next
  case (Suc n)
  show ?case
  proof (cases k)
    case 0
    with Suc.prems show ?thesis by (simp add: poll_Suc del: poll_while.simps)
  next
    case (Suc k')
    have "val s \<noteq> 0" using Suc.prems(3) Suc by force
    moreover have "poll_while n flag (tick s) = Ok () ((tick ^^ Suc k') (tick s))"
    proof (rule Suc.IH)
      show "k' < n" using Suc.prems(1) Suc by simp
      show "val ((tick ^^ k') (tick s)) = 0"
        using Suc.prems(2) Suc by (simp add: funpow_swap1)
      show "\<forall>j<k'. val ((tick ^^ j) (tick s)) \<noteq> 0"
      proof (intro allI impI)
        fix j assume "j < k'"
        then have "Suc j < k" using Suc by simp
        then have "val ((tick ^^ Suc j) s) \<noteq> 0" using Suc.prems(3) by blast
        then show "val ((tick ^^ j) (tick s)) \<noteq> 0" by (simp add: funpow_swap1)
      qed
    qed
    ultimately show ?thesis using Suc
      by (simp add: poll_Suc funpow_swap1 del: poll_while.simps)
  qed
qed

lemma poll_hangs:
  "\<forall>j<n. val ((tick ^^ j) s) \<noteq> 0 \<Longrightarrow> poll_while n flag s = Fail Hang ((tick ^^ n) s)"
proof (induction n arbitrary: s)
  case 0
  then show ?case by simp
next
  case (Suc n)
  have "val s \<noteq> 0" using Suc.prems by force
  moreover have "val ((tick ^^ j) (tick s)) \<noteq> 0" if "j < n" for j
    using Suc.prems [rule_format, of "Suc j"] that by (simp add: funpow_swap1)
  ultimately show ?case using Suc.IH [of "tick s"]
    by (simp add: poll_Suc funpow_swap1 del: poll_while.simps)
qed

lemma poll_returns_ex:
  assumes "\<exists>k<n. val ((tick ^^ k) s) = 0"
  shows "\<exists>k. poll_while n flag s = Ok () ((tick ^^ Suc k) s)"
proof -
  define k where "k = (LEAST k. val ((tick ^^ k) s) = 0)"
  from assms obtain m where m: "m < n" "val ((tick ^^ m) s) = 0" by blast
  then have "val ((tick ^^ k) s) = 0" and "k \<le> m"
    unfolding k_def by (auto intro: LeastI Least_le)
  moreover have "\<forall>j<k. val ((tick ^^ j) s) \<noteq> 0"
    unfolding k_def by (blast dest: not_less_Least)
  ultimately have "poll_while n flag s = Ok () ((tick ^^ Suc k) s)"
    using m(1) by (intro poll_returns) auto
  then show ?thesis ..
qed

end

text \<open>
  The handshake the code uses to acknowledge a PL request: raise a line, wait until the PL
  has lowered its flag, lower the line.  Polling must not disturb what the client observes.
\<close>

locale pl_handshake = polled_flag flag val tick
  for flag :: "('s, u8) prog" and val :: "'s \<Rightarrow> u8" and tick :: "'s \<Rightarrow> 's" +
  fixes up down :: "'s \<Rightarrow> 's" and obs :: "'s \<Rightarrow> 'o"
  assumes obs_tick: "obs (tick s) = obs s"
begin

lemma obs_ticks: "obs ((tick ^^ n) s) = obs s"
  by (induction n) (simp_all add: obs_tick)

lemma handshake_returns:
  assumes "\<exists>k<n. val ((tick ^^ k) (up s)) = 0"
  shows "\<exists>t. seqR [modify up, poll_while n flag, modify down] s = Ok () (down t) \<and>
    obs t = obs (up s)"
proof -
  from poll_returns_ex [OF assms] obtain k
    where "poll_while n flag (up s) = Ok () ((tick ^^ Suc k) (up s))" ..
  then show ?thesis using obs_ticks [of "Suc k" "up s"]
    by (auto simp: modify_def simp del: funpow.simps)
qed

lemma handshake_hangs:
  assumes "\<forall>k<n. val ((tick ^^ k) (up s)) \<noteq> 0"
  shows "\<exists>t. seqR [modify up, poll_while n flag, modify down] s = Fail Hang t \<and>
    obs t = obs (up s)"
  using poll_hangs [OF assms] obs_ticks [of n "up s"] by (auto simp: modify_def)

end

end
