(* ===== verification/Concurrent.thy ===== *)
theory Concurrent
  imports Machine
begin

text \<open>
  Several threads on one state.  Each has a rely relation under which its loop keeps an
  invariant; when every step of every actor satisfies the rely relations of all other threads, a run
  of the whole system is an interleaving for each thread, so what holds of the thread on its own
  holds in the system.
\<close>

text \<open>
  Runs of the actors \<open>i\<close>, each step one iteration of an actor, through states that satisfy
  \<open>ok\<close>.
\<close>

inductive schedule :: "('i \<Rightarrow> 's \<Rightarrow> 's \<Rightarrow> bool) \<Rightarrow> ('s \<Rightarrow> bool) \<Rightarrow> 's \<Rightarrow> 's \<Rightarrow> bool"
  for step ok s where
  idle: "ok s \<Longrightarrow> schedule step ok s s"
| act: "schedule step ok s t \<Longrightarrow> step i t u \<Longrightarrow> ok u \<Longrightarrow> schedule step ok s u"

lemma schedule_ok: "schedule step ok s t \<Longrightarrow> ok t"
  by (induction rule: schedule.induct)

locale parallel =
  fixes step :: "'i \<Rightarrow> 's \<Rightarrow> 's \<Rightarrow> bool" and ok :: "'s \<Rightarrow> bool" and threads :: "'i set"
    and body :: "'i \<Rightarrow> ('s, unit) prog" and rely :: "'i \<Rightarrow> 's \<Rightarrow> 's \<Rightarrow> bool" and inv :: "'i \<Rightarrow> 's \<Rightarrow> bool"
  assumes loops: "j \<in> threads \<Longrightarrow> rely_loop (body j) (rely j) (inv j)"
    and own_step: "j \<in> threads \<Longrightarrow> step j s t \<Longrightarrow> body j s = Ok () t"
    and guarantee: "ok s \<Longrightarrow> ok t \<Longrightarrow> (\<And>k. k \<in> threads \<Longrightarrow> inv k s) \<Longrightarrow> step i s t \<Longrightarrow>
      j \<in> threads \<Longrightarrow> j \<noteq> i \<Longrightarrow> rely j s t"
begin

lemma step_inv:
  assumes "ok s" and "ok t" and "\<And>k. k \<in> threads \<Longrightarrow> inv k s" and "step i s t" and "j \<in> threads"
  shows "inv j t"
proof (cases "j = i")
  case True
  with assms show ?thesis by (blast intro: rely_loop.body_inv [OF loops] own_step)
next
  case False
  with assms guarantee [OF assms(1-4)] show ?thesis by (blast intro: rely_loop.rely_inv [OF loops])
qed

lemma schedule_threads:
  assumes "schedule step ok s t" and "\<And>k. k \<in> threads \<Longrightarrow> inv k s" and "j \<in> threads"
  shows "interleave (body j) (rely j) s t \<and> inv j t"
  using assms(1,3)
proof (induction arbitrary: j rule: schedule.induct)
  case idle
  then show ?case using assms(2) by (blast intro: interleave.start)
next
  case (act t i u)
  have ok: "ok t" using act.hyps(1) by (rule schedule_ok)
  have inv: "\<And>k. k \<in> threads \<Longrightarrow> inv k t" using act.IH by blast
  have run: "interleave (body j) (rely j) s t" using act.IH [OF act.prems] by blast
  have "interleave (body j) (rely j) s u"
  proof (cases "j = i")
    case True
    with act.hyps(2) act.prems have "body j t = Ok () u" by (blast intro: own_step)
    with run show ?thesis by (rule interleave.own)
  next
    case False
    show ?thesis
      by (rule interleave.others [OF run guarantee [OF ok act.hyps(3) inv act.hyps(2) act.prems False]])
  qed
  moreover have "inv j u"
    by (rule step_inv [OF ok act.hyps(3) _ act.hyps(2) act.prems]) (rule inv)
  ultimately show ?case ..
qed

end

end
