(* ===== verification/History.thy ===== *)
theory History
  imports Machine
begin

text \<open>
  Abstract views of a history, used to state what the code did: the contents of a file since
  it was opened, the bytes a DMA engine delivered, the level last written to each sysfs
  attribute, and the order of the BRAM stores.  They describe the documented behaviour of
  \<open>open\<close> with \<open>O_TRUNC\<close>, \<open>write\<close>, \<open>ftruncate\<close> and of the DMA driver, on the calls the code
  makes and the values the kernel returned.
\<close>

section \<open>File contents\<close>

primrec file_step :: "int \<Rightarrow> bytes \<Rightarrow> entry \<Rightarrow> bytes" where
  "file_step fd acc (Pair c rd) = (case c of
     Open p fl m \<Rightarrow> if fst rd = fd then [] else acc
   | Write f bs \<Rightarrow> if f = fd then acc @ take (nat (fst rd)) bs else acc
   | Ftruncate f n \<Rightarrow>
       if f = fd \<and> fst rd = 0 then take (nat n) acc @ replicate (nat n - length acc) 0 else acc
   | _ \<Rightarrow> acc)"

text \<open>The bytes written to \<open>fd\<close> since the last \<open>open\<close> that returned it.\<close>

definition written :: "int \<Rightarrow> history \<Rightarrow> bytes" where
  "written fd h = foldl (file_step fd) [] h"

lemma written_append [hist_simps]: "written fd (h @ h') = foldl (file_step fd) (written fd h) h'"
  by (simp add: written_def)

text \<open>The descriptors that are open.\<close>

primrec open_step :: "int set \<Rightarrow> entry \<Rightarrow> int set" where
  "open_step acc (Pair c rd) = (case c of
     Open p fl m \<Rightarrow> if 0 \<le> fst rd then insert (fst rd) acc else acc
   | Close f \<Rightarrow> acc - {f}
   | _ \<Rightarrow> acc)"

definition open_fds :: "history \<Rightarrow> int set" where
  "open_fds h = foldl open_step {} h"

lemma open_fds_append [hist_simps]: "open_fds (h @ h') = foldl open_step (open_fds h) h'"
  by (simp add: open_fds_def)

section \<open>Bytes received by DMA\<close>

primrec recv_step :: "int \<Rightarrow> int \<Rightarrow> bytes \<Rightarrow> entry \<Rightarrow> bytes" where
  "recv_step dfd fd acc (Pair c rd) = (case c of
     Open p fl m \<Rightarrow> if fst rd = fd then [] else acc
   | Ioctl f q off \<Rightarrow>
       if f = dfd \<and> q = DMA_RD \<and> fst rd = 0x8000 then acc @ snd rd else acc
   | _ \<Rightarrow> acc)"

text \<open>
  The blocks the DMA device \<open>dfd\<close> delivered since file \<open>fd\<close> was opened, in order.
\<close>

definition received :: "int \<Rightarrow> int \<Rightarrow> history \<Rightarrow> bytes" where
  "received dfd fd h = foldl (recv_step dfd fd) [] h"

lemma received_append [hist_simps]:
  "received dfd fd (h @ h') = foldl (recv_step dfd fd) (received dfd fd h) h'"
  by (simp add: received_def)

text \<open>Every read request on \<open>dfd\<close> stays within the first \<open>n\<close> bytes of the engine's buffer.\<close>

primrec req_within :: "int \<Rightarrow> nat \<Rightarrow> entry \<Rightarrow> bool" where
  "req_within dfd n (Pair c rd) = (case c of
     Ioctl f q off \<Rightarrow> f = dfd \<and> q = DMA_RD \<longrightarrow> unat off + 0x8000 \<le> n
   | _ \<Rightarrow> True)"

definition dma_within :: "int \<Rightarrow> nat \<Rightarrow> history \<Rightarrow> bool" where
  "dma_within dfd n h \<longleftrightarrow> (\<forall>x \<in> set h. req_within dfd n x)"

lemma dma_within_append [hist_simps]:
  "dma_within dfd n (h @ h') \<longleftrightarrow> dma_within dfd n h \<and> (\<forall>x \<in> set h'. req_within dfd n x)"
  by (auto simp: dma_within_def)

text \<open>Events that touch neither the contents of open files nor the DMA.\<close>

primrec quiet :: "event \<Rightarrow> bool" where
  "quiet (Open p f m) = False"
| "quiet (Close f) = False"
| "quiet (Read f n) = True"
| "quiet (Write f b) = False"
| "quiet (Lseek f n w) = True"
| "quiet (Ftruncate f n) = False"
| "quiet (Ioctl f q off) = False"
| "quiet (Remove p) = True"
| "quiet (Access p m) = True"
| "quiet (Mkdir p m) = True"
| "quiet (Chmod p m) = True"
| "quiet (Statfs p) = True"
| "quiet (Usleep n) = True"
| "quiet (BramLd w i) = True"
| "quiet (BramSt w i v) = True"
| "quiet (BramCp w n) = True"
| "quiet (Mem x1) = True"
| "quiet (Dir x2) = True"
| "quiet (Tty x3) = True"
| "quiet (Net x4) = True"
| "quiet (Time x5) = True"

lemma quiet_view:
  assumes "quiet c"
  shows "open_fds (h @ [(c, x)]) = open_fds h" "written fd (h @ [(c, x)]) = written fd h"
    "received dfd fd (h @ [(c, x)]) = received dfd fd h"
    "dma_within dfd n (h @ [(c, x)]) = dma_within dfd n h"
  using assms by (cases c; simp add: hist_simps)+

lemma quiet_views:
  assumes "\<forall>x \<in> set h'. quiet (fst x)"
  shows "open_fds (h @ h') = open_fds h" "written fd (h @ h') = written fd h"
    "received dfd fd (h @ h') = received dfd fd h" "dma_within dfd n (h @ h') = dma_within dfd n h"
proof -
  have "open_fds (h @ h') = open_fds h \<and> written fd (h @ h') = written fd h \<and>
    received dfd fd (h @ h') = received dfd fd h \<and> dma_within dfd n (h @ h') = dma_within dfd n h"
    using assms
  proof (induction h' rule: rev_induct)
    case Nil
    then show ?case by simp
  next
    case (snoc x h')
    then show ?case using quiet_view [where c = "fst x" and x = "snd x"] by (simp flip: append_assoc)
  qed
  then show "open_fds (h @ h') = open_fds h" "written fd (h @ h') = written fd h"
    "received dfd fd (h @ h') = received dfd fd h" "dma_within dfd n (h @ h') = dma_within dfd n h"
    by simp_all
qed

text \<open>A state that differs only by quiet events.\<close>

definition quiet_ext :: "'m machine_scheme \<Rightarrow> 'm machine_scheme \<Rightarrow> bool" where
  "quiet_ext s t \<longleftrightarrow>
     (\<exists>h. (\<forall>x \<in> set h. quiet (fst x)) \<and> hist t = hist s @ h) \<and> bram_ps t = bram_ps s \<and>
     machine.more t = machine.more s"

lemma quiet_ext_refl [simp]: "quiet_ext s s"
  by (auto simp: quiet_ext_def intro: exI [of _ "[]"])

lemma quiet_ext_emit: "quiet_ext s t \<Longrightarrow> quiet c \<Longrightarrow> quiet_ext s (emit c r d t)"
  by (auto simp: quiet_ext_def)

lemma quiet_ext_views:
  assumes "quiet_ext s t"
  shows "open_fds (hist t) = open_fds (hist s)" "written fd (hist t) = written fd (hist s)"
    "received dfd fd (hist t) = received dfd fd (hist s)"
    "dma_within dfd n (hist t) = dma_within dfd n (hist s)"
  using assms by (auto simp: quiet_ext_def quiet_views)

section \<open>Levels of sysfs attributes\<close>

text \<open>Which path an open descriptor refers to, and what was last written to each path.\<close>

type_synonym sysfs = "(int \<rightharpoonup> string) \<times> (string \<rightharpoonup> bytes)"

fun sysfs_step :: "sysfs \<Rightarrow> entry \<Rightarrow> sysfs" where
  "sysfs_step (t, a) (c, r, d) = (case c of
     Open p fl m \<Rightarrow> if 0 \<le> r then (t(r \<mapsto> p), a) else (t, a)
   | Close f \<Rightarrow> (t(f := None), a)
   | Write f bs \<Rightarrow> (case t f of None \<Rightarrow> (t, a) | Some p \<Rightarrow> (t, a(p \<mapsto> bs)))
   | _ \<Rightarrow> (t, a))"

definition sysfs :: "history \<Rightarrow> sysfs" where
  "sysfs h = foldl sysfs_step (Map.empty, Map.empty) h"

definition attr :: "history \<Rightarrow> string \<rightharpoonup> bytes" where
  "attr h = snd (sysfs h)"

lemma sysfs_snoc: "sysfs (h @ [x]) = sysfs_step (sysfs h) x"
  by (simp add: sysfs_def)

text \<open>Opening, writing and closing an attribute sets it and nothing else.\<close>

lemma attr_write_file:
  assumes "0 \<le> r"
  shows "attr (h @ [(Open p fl m, r, d), (Write r bs, r', d'), (Close r, r'', d'')])
    = (attr h)(p \<mapsto> bs)"
proof -
  obtain t a where "sysfs h = (t, a)" by (cases "sysfs h")
  with assms show ?thesis by (simp add: attr_def sysfs_def)
qed

lemma attr_read_close: "attr (h @ [(Read f n, r, d), (Close g, r', d')]) = attr h"
  by (cases "sysfs h") (simp add: attr_def sysfs_def)

section \<open>Stores to the BRAM\<close>

text \<open>
  The stores to window 1 and the waits between them, in order: what the PL sees of a
  sequence of stores.
\<close>

primrec store_of :: "entry \<Rightarrow> event list" where
  "store_of (Pair c rd) = (case c of BramSt w i v \<Rightarrow> [c] | Usleep n \<Rightarrow> [c] | _ \<Rightarrow> [])"

definition stores :: "history \<Rightarrow> event list" where
  "stores h = concat (map store_of h)"

lemma stores_append [hist_simps]: "stores (h @ h') = stores h @ stores h'"
  by (simp add: stores_def)

lemma stores_Nil [hist_simps]: "stores [] = []"
  by (simp add: stores_def)

lemma stores_Cons [hist_simps]: "stores (x # h) = store_of x @ stores h"
  by (simp add: stores_def)

section \<open>Properties of the kernel the code relies on\<close>

text \<open>\<open>write\<close> to an open descriptor transfers all bytes.\<close>

definition full_writes :: "env \<Rightarrow> bool" where
  "full_writes e \<longleftrightarrow> (\<forall>h f bs. f \<in> open_fds h \<longrightarrow> k_ret e h (Write f bs) = int (length bs))"

text \<open>\<open>lseek\<close> to the end of an open file returns its length, and an open file can be truncated.\<close>

definition seek_ends :: "env \<Rightarrow> bool" where
  "seek_ends e \<longleftrightarrow> (\<forall>h f. f \<in> open_fds h \<longrightarrow>
     k_ret e h (Lseek f 0 SEEK_END) = int (length (written f h)) \<and>
     (\<forall>n. k_ret e h (Ftruncate f n) = 0))"

text \<open>
  A DMA read request transfers a whole block of \<open>0x8000\<close> bytes when it returns
  \<open>DMA_TRANS_SIZE\<close>.
\<close>

definition dma_blocks :: "env \<Rightarrow> bool" where
  "dma_blocks e \<longleftrightarrow> (\<forall>h f off. k_ret e h (Ioctl f DMA_RD off) = 0x8000 \<longrightarrow>
     length (k_data e h (Ioctl f DMA_RD off)) = 0x8000)"

section \<open>A concrete environment\<close>

text \<open>
  A kernel in which every call succeeds: \<open>open\<close> returns descriptor 3, \<open>write\<close> takes all bytes,
  \<open>ioctl\<close> transfers a block of zeros, GPIO attributes read back what was written, and a PL
  whose words are all zero.  Witnesses evaluate the code on it and on variations of it.
\<close>

definition ret0 :: "history \<Rightarrow> event \<Rightarrow> int" where
  "ret0 h c = (case c of
     Open p fl m \<Rightarrow> 3
   | Write f bs \<Rightarrow> int (length bs)
   | Ioctl f q off \<Rightarrow> if q = DMA_RD then 0x8000 else 0
   | Read f n \<Rightarrow> int n
   | Lseek f n w \<Rightarrow> if w = SEEK_END then int (length (written f h)) else n
   | _ \<Rightarrow> 0)"

definition data0 :: "history \<Rightarrow> event \<Rightarrow> bytes" where
  "data0 h c = (case c of
     Ioctl f q off \<Rightarrow> replicate 0x8000 0
   | Read f n \<Rightarrow>
       if n = 2 then
         (case fst (sysfs h) f of None \<Rightarrow> [48, 10]
          | Some p \<Rightarrow> (case attr h p of None \<Rightarrow> [48, 10]
            | Some bs \<Rightarrow> [if atol (cstr bs) = 0 then 48 else 49, 10]))
       else replicate n 0
   | _ \<Rightarrow> [])"

lemma ret0_simps [simp]:
  "ret0 h (Open p fl m) = 3" "ret0 h (Write f bs) = int (length bs)"
  "ret0 h (Ioctl f DMA_RD off) = 0x8000" "ret0 h (Read f n) = int n"
  by (simp_all add: ret0_def)

lemma data0_simps [simp]:
  "data0 h (Ioctl f DMA_RD off) = replicate 0x8000 0"
  "n \<noteq> 2 \<Longrightarrow> data0 h (Read f n) = replicate n 0"
  by (simp_all add: data0_def)

definition env0 :: env where
  "env0 = \<lparr>k_ret = ret0, k_data = data0,
     k_statfs = (\<lambda>_. \<lparr>f_type = 0xEF53, f_blocks = 0, f_bfree = 0, f_bsize = 4096\<rparr>),
     k_time = (\<lambda>_. (0, 0)),
     k_termios = (\<lambda>_. \<lparr>c_iflag = 0, c_oflag = 0, c_cflag = 0, c_lflag = 0, c_vtime = 0,
       c_vmin = 0, c_ispeed = 0, c_ospeed = 0\<rparr>),
     k_dir = (\<lambda>_ _. []), pl_word = (\<lambda>_ _ _. 0), indet = (\<lambda>_. 0), fpu = (\<lambda>_ _ _. 0),
     page_size = 4096, polls = 100\<rparr>"

definition machine0 :: machine where
  "machine0 = \<lparr>hist = [], bram_ps = (\<lambda>_. 0)\<rparr>"

lemma env0_simps [simp]:
  "k_ret env0 = ret0" "k_data env0 = data0" "pl_word env0 h w i = 0" "indet env0 h = 0"
  "polls env0 = 100" "page_size env0 = 4096" "k_time env0 h = (0, 0)" "k_dir env0 h p = []"
  by (simp_all add: env0_def)

lemma full_writes_env0: "full_writes env0"
  by (simp add: full_writes_def)

lemma seek_ends_env0: "seek_ends env0"
  by (simp add: seek_ends_def ret0_def)

lemma dma_blocks_env0: "dma_blocks env0"
  by (simp add: dma_blocks_def)

end
