(* ===== verification/Ubram.thy ===== *)
theory Ubram
  imports History
begin

text \<open>
  \<open>ubram.c\<close>: the two BRAM windows shared with the PL.  Words 0 to 511 of window 1 are written
  by the PS and behave as memory; the rest of window 1 and window 0 present what the PL
  writes.  The accessors model mapped windows; \<open>ubram_map\<close> models the mapping.
\<close>

record ubram_state = machine +
  bram_vptr :: "nat \<Rightarrow> u64"
  index_aligned_buffer :: u64

definition BRAM0_BA :: u64 where "BRAM0_BA = 0x80000000"
definition BRAM1_BA :: u64 where "BRAM1_BA = 0x82000000"
definition BRAM_SIZE :: nat where "BRAM_SIZE = 0x2000"

definition MAP_FAILED :: u64 where "MAP_FAILED = 0xFFFFFFFFFFFFFFFF"

lemma ubram_emit [simp]:
  "bram_vptr (emit c r d s) = bram_vptr s"
  "index_aligned_buffer (emit c r d s) = index_aligned_buffer s"
  by (simp_all add: emit_def)

section \<open>Access to the windows\<close>

definition bram_word :: "env \<Rightarrow> nat \<Rightarrow> nat \<Rightarrow> 'm machine_scheme \<Rightarrow> u64" where
  "bram_word e w i s = (if w = 1 \<and> i < 512 then bram_ps s i else pl_word e (hist s) w i)"

text \<open>\<open>bram_vptr[w][i]\<close> as a value.\<close>

definition bram_ld :: "env \<Rightarrow> nat \<Rightarrow> nat \<Rightarrow> ('m machine_scheme, u64) prog" where
  "bram_ld e w i s = Ok (bram_word e w i s) (emit (BramLd w i) (uint (bram_word e w i s)) [] s)"

text \<open>\<open>bram_vptr[w][i] = v\<close>.\<close>

definition bram_upd :: "nat \<Rightarrow> nat \<Rightarrow> u64 \<Rightarrow> 'm machine_scheme \<Rightarrow> 'm machine_scheme" where
  "bram_upd w i v s = emit (BramSt w i v) 0 []
     (s\<lparr>bram_ps := if w = 1 \<and> i < 512 then (bram_ps s)(i := v) else bram_ps s\<rparr>)"

definition bram_st :: "nat \<Rightarrow> nat \<Rightarrow> u64 \<Rightarrow> ('m machine_scheme, unit) prog" where
  "bram_st w i v = modify (bram_upd w i v)"

text \<open>\<open>memcpy\<close> out of a window: its first \<open>n\<close> bytes.\<close>

definition bram_bytes :: "env \<Rightarrow> nat \<Rightarrow> nat \<Rightarrow> 'm machine_scheme \<Rightarrow> bytes" where
  "bram_bytes e w n s = map (\<lambda>k. byte_at (bram_word e w (k div 8) s) (k mod 8)) [0..<n]"

definition memcpy_from_bram :: "env \<Rightarrow> nat \<Rightarrow> nat \<Rightarrow> ('m machine_scheme, bytes) prog" where
  "memcpy_from_bram e w n s = Ok (bram_bytes e w n s) (emit (BramCp w n) 0 (bram_bytes e w n s) s)"

text \<open>\<open>memcpy\<close> into a window, from word \<open>i\<close> on; bytes of a last partial word are kept.\<close>

fun bram_put :: "nat \<Rightarrow> nat \<Rightarrow> u64 list \<Rightarrow> 'm machine_scheme \<Rightarrow> 'm machine_scheme" where
  "bram_put w i [] s = s"
| "bram_put w i (v # vs) s = bram_put w (Suc i) vs (bram_upd w i v s)"

definition pack_words :: "(nat \<Rightarrow> u64) \<Rightarrow> nat \<Rightarrow> bytes \<Rightarrow> u64 list" where
  "pack_words old i bs =
     map (\<lambda>j. le_val (map (\<lambda>k. if 8 * j + k < length bs then bs ! (8 * j + k)
                              else byte_at (old (i + j)) k) [0..<8]))
       [0..<(length bs + 7) div 8]"

definition memcpy_to_bram :: "env \<Rightarrow> nat \<Rightarrow> nat \<Rightarrow> bytes \<Rightarrow> ('m machine_scheme, unit) prog" where
  "memcpy_to_bram e w i bs =
     modify (\<lambda>s. bram_put w i (pack_words (\<lambda>j. bram_word e w j s) i bs) s)"

section \<open>Mapping\<close>

definition ubram_map :: "env \<Rightarrow> ('m ubram_state_scheme, int) prog" where
  "ubram_map e =
     bindR (syscall e (Open ''/dev/mem'' [O_RDWR] 0)) (\<lambda>fd.
       if 0 < fd then
         bindR (syscall e (Mem (Mmap [MAP_SHARED] BRAM_SIZE fd BRAM0_BA))) (\<lambda>p0.
         bindR (modify (\<lambda>s. s\<lparr>bram_vptr := (bram_vptr s)(0 := word_of_int p0)\<rparr>)) (\<lambda>_.
         if (word_of_int p0 :: u64) = MAP_FAILED then ret (-1) else
         bindR (syscall e (Mem (Mmap [MAP_SHARED] BRAM_SIZE fd BRAM1_BA))) (\<lambda>p1.
         bindR (modify (\<lambda>s. s\<lparr>bram_vptr := (bram_vptr s)(1 := word_of_int p1)\<rparr>)) (\<lambda>_.
         if (word_of_int p1 :: u64) = MAP_FAILED then ret (-1) else
         bindR (sysdo e (Close fd)) (\<lambda>_. ret 0)))))
       else bindR (sysdo e (Close fd)) (\<lambda>_. ret 0))"

definition ubram_init :: "env \<Rightarrow> ('m ubram_state_scheme, unit) prog" where
  "ubram_init e =
     bindR (ubram_map e) (\<lambda>_.
     bindR (syscall_data e (Mem (Memalign 0x2000 0x800000))) (\<lambda>(r, d).
     if r = 0 then modify (\<lambda>s. s\<lparr>index_aligned_buffer := le_val d\<rparr>) else ret ()))"

definition ubram_unmap :: "env \<Rightarrow> ('m ubram_state_scheme, unit) prog" where
  "ubram_unmap e = bindR (gets bram_vptr) (\<lambda>p. seqR
     [sysdo e (Mem (Munmap (p 0) BRAM_SIZE)), sysdo e (Mem (Munmap (p 1) BRAM_SIZE))])"

definition ubram_release :: "env \<Rightarrow> ('m ubram_state_scheme, unit) prog" where
  "ubram_release e = seqR
     [ubram_unmap e, bindR (gets index_aligned_buffer) (\<lambda>p. sysdo e (Mem (Free p)))]"

section \<open>Block transfers\<close>

text \<open>
  A negative size passes the guard and becomes a huge \<open>size_t\<close>: undefined.  The result
  pairs the return value with the bytes stored in the caller's buffer.
\<close>

definition ubram_read :: "env \<Rightarrow> nat \<Rightarrow> int \<Rightarrow> ('m machine_scheme, int \<times> bytes) prog" where
  "ubram_read e w sz =
     (if sz > int BRAM_SIZE then ret (0, [])
      else if sz < 0 then abort_with Undefined
      else bindR (memcpy_from_bram e w (nat sz)) (\<lambda>d. ret (sz, d)))"

definition ubram_write :: "env \<Rightarrow> nat \<Rightarrow> bytes \<Rightarrow> int \<Rightarrow> ('m machine_scheme, int) prog" where
  "ubram_write e w buf sz =
     (if sz > int BRAM_SIZE then ret (-1)
      else if sz < 0 \<or> int (length buf) < sz then abort_with Undefined
      else bindR (memcpy_to_bram e w 0 (take (nat sz) buf)) (\<lambda>_. ret 0))"

definition ubram_fwrite :: "env \<Rightarrow> nat \<Rightarrow> int \<Rightarrow> int \<Rightarrow> ('m machine_scheme, int) prog" where
  "ubram_fwrite e w fd sz =
     (if sz > int BRAM_SIZE then ret 0
      else if sz < 0 then abort_with Undefined
      else bindR (memcpy_from_bram e w (nat sz)) (\<lambda>d. syscall e (Write fd d)))"

section \<open>Flags and counters of the PL\<close>

definition chan_fifo_count :: "env \<Rightarrow> u8 \<Rightarrow> ('m machine_scheme, u32) prog" where
  "chan_fifo_count e chan =
     bindR (bram_ld e 1 ((0x1018 + unat chan * 0x8) div 0x8)) (\<lambda>v. ret (ucast (v * 0x20)))"

definition index_buf_valid :: "env \<Rightarrow> ('m machine_scheme, u8) prog" where
  "index_buf_valid e = bindR (bram_ld e 1 (0x1048 div 0x8)) (\<lambda>v. ret (ucast v))"

text \<open>
  The \<open>printf\<close> under the \<open>if\<close> is commented out, so the \<open>return\<close> is the body of the \<open>if\<close>: when
  no request is pending the function runs off its end and its value is indeterminate.
\<close>

definition chan_cut_req :: "env \<Rightarrow> u8 \<Rightarrow> ('m machine_scheme, u8) prog" where
  "chan_cut_req e chan =
     bindR (bram_ld e 1 ((0x1030 + unat chan * 0x8) div 0x8)) (\<lambda>v.
       if v \<noteq> 0 then
         bindR (bram_ld e 1 ((0x1030 + unat chan * 0x8) div 0x8)) (\<lambda>v'. ret (ucast v'))
       else gets (\<lambda>s. indet e (hist s)))"

definition chan_cut_ack :: "env \<Rightarrow> u8 \<Rightarrow> ('m machine_scheme, unit) prog" where
  "chan_cut_ack e chan = seqR
     [bram_st 1 ((0x18 + unat chan * 0x8) div 0x8) 1,
      poll_while (polls e) (chan_cut_req e chan),
      bram_st 1 ((0x18 + unat chan * 0x8) div 0x8) 0]"

definition index_buf_invalid :: "env \<Rightarrow> ('m machine_scheme, unit) prog" where
  "index_buf_invalid e = seqR
     [bram_st 1 0x6 1, poll_while (polls e) (index_buf_valid e), bram_st 1 0x6 0]"

section \<open>Access laws\<close>

lemma bram_upd_simps [simp]:
  "bram_ps (bram_upd w i v s) = (if w = 1 \<and> i < 512 then (bram_ps s)(i := v) else bram_ps s)"
  "hist (bram_upd w i v s) = hist s @ [(BramSt w i v, 0, [])]"
  "machine.more (bram_upd w i v s) = machine.more s"
  by (simp_all add: bram_upd_def)

lemma bram_word_ps [simp]: "i < 512 \<Longrightarrow> bram_word e (Suc 0) i s = bram_ps s i"
  "i < 512 \<Longrightarrow> bram_word e 1 i s = bram_ps s i"
  by (simp_all add: bram_word_def)

lemma bram_word_pl: "512 \<le> i \<Longrightarrow> bram_word e w i s = pl_word e (hist s) w i"
  by (simp add: bram_word_def)

lemma bram_ld_eq [ops]:
  "bram_ld e w i s = Ok (bram_word e w i s) (emit (BramLd w i) (uint (bram_word e w i s)) [] s)"
  by (simp add: bram_ld_def)

lemma bram_st_eq [ops]: "bram_st w i v s = Ok () (bram_upd w i v s)"
  by (simp add: bram_st_def modify_def)

lemma wp_bram [simp]:
  "wp (bram_st w i v) R A s = R () (bram_upd w i v s)"
  by (simp add: bram_st_def)

lemma wp_bram_ld [simp]:
  "wp (bram_ld e w i) Q A s =
     Q (bram_word e w i s) (emit (BramLd w i) (uint (bram_word e w i s)) [] s)"
  by (simp add: wp_def bram_ld_eq)

lemma ubram_bram_upd [simp]:
  "bram_vptr (bram_upd w i v s) = bram_vptr s"
  "index_aligned_buffer (bram_upd w i v s) = index_aligned_buffer s"
  by (simp_all add: bram_upd_def emit_def)

lemma wp_ubram_read [simp]:
  "0 \<le> sz \<Longrightarrow> sz \<le> 0x2000 \<Longrightarrow> wp (ubram_read e w sz) Q A s =
     Q (sz, bram_bytes e w (nat sz) s) (emit (BramCp w (nat sz)) 0 (bram_bytes e w (nat sz) s) s)"
  by (simp add: wp_def ubram_read_def memcpy_from_bram_def BRAM_SIZE_def bindR_def ret_def)

lemma bram_put_hist:
  "hist (bram_put w i vs s) = hist s @ map (\<lambda>j. (BramSt w (i + j) (vs ! j), 0, [])) [0..<length vs]"
proof (induction vs arbitrary: i s)
  case Nil
  then show ?case by simp
next
  case (Cons v vs)
  have eq: "map (\<lambda>j. (BramSt w (i + j) ((v # vs) ! j), 0, [])) [0..<length (v # vs)]
    = (BramSt w i v, 0, []) # map (\<lambda>j. (BramSt w (Suc i + j) (vs ! j), 0, [])) [0..<length vs]"
    by (simp add: upt_conv_Cons map_Suc_upt [symmetric] del: upt_Suc)
  show ?case unfolding bram_put.simps Cons.IH eq by simp
qed

lemma bram_put_more [simp]: "machine.more (bram_put w i vs s) = machine.more s"
  by (induction w i vs s rule: bram_put.induct) auto

lemma bram_put_ps:
  "i + length vs \<le> 512 \<Longrightarrow>
   bram_ps (bram_put (Suc 0) i vs s) =
     (\<lambda>k. if i \<le> k \<and> k < i + length vs then vs ! (k - i) else bram_ps s k)"
proof (induction vs arbitrary: i s)
  case Nil
  then show ?case by (auto simp: fun_eq_iff)
next
  case (Cons v vs)
  then have "bram_ps (bram_put (Suc 0) (Suc i) vs (bram_upd (Suc 0) i v s)) =
    (\<lambda>k. if Suc i \<le> k \<and> k < Suc i + length vs then vs ! (k - Suc i)
         else bram_ps (bram_upd (Suc 0) i v s) k)"
    by (intro Cons.IH) simp
  with Cons.prems show ?case by (auto simp: fun_eq_iff nth_Cons')
qed

lemma length_pack_words [simp]: "length (pack_words old i bs) = (length bs + 7) div 8"
  by (simp add: pack_words_def)

text \<open>Byte \<open>k\<close> of the packed words is byte \<open>k\<close> of the source.\<close>

lemma byte_at_le_val:
  assumes "k < length bs" "k < 8"
  shows "byte_at (le_val bs) k = bs ! k"
proof (rule bit_eqI)
  fix n assume "possible_bit TYPE(u8) n"
  then have "n < 8" by (simp add: possible_bit_word)
  with assms show "bit (byte_at (le_val bs) k) n = bit (bs ! k) n"
    by (simp add: bit_byte_at bit_le_val)
qed

lemma byte_at_pack_words:
  assumes "k < length bs"
  shows "byte_at (pack_words old i bs ! (k div 8)) (k mod 8) = bs ! k"
proof -
  have "k div 8 < (length bs + 7) div 8" using assms by linarith
  moreover have "8 * (k div 8) + k mod 8 < length bs" using assms by simp
  ultimately show ?thesis using assms
    by (simp add: pack_words_def byte_at_le_val del: upt_Suc)
qed

text \<open>What a \<open>memcpy\<close> into the PS half leaves there, byte by byte.\<close>

definition ps_byte :: "(nat \<Rightarrow> u64) \<Rightarrow> nat \<Rightarrow> u8" where
  "ps_byte m k = byte_at (m (k div 8)) (k mod 8)"

lemma bram_bytes_ps:
  "n \<le> 0x1000 \<Longrightarrow> bram_bytes e (Suc 0) n s = map (ps_byte (bram_ps s)) [0..<n]"
  by (auto simp: bram_bytes_def ps_byte_def bram_word_def)

lemma ps_byte_memcpy:
  assumes "i + (length bs + 7) div 8 \<le> 512" and "8 * i \<le> k" and "k < 8 * i + length bs"
  shows "ps_byte (bram_ps (bram_put (Suc 0) i (pack_words old i bs) s)) k = bs ! (k - 8 * i)"
proof -
  define m where "m = k - 8 * i"
  then have k: "k = 8 * i + m" and m: "m < length bs" using assms by auto
  have "k div 8 = i + m div 8" "k mod 8 = m mod 8" using k by simp_all
  moreover have "m div 8 < (length bs + 7) div 8" using m by linarith
  ultimately show ?thesis using assms(1) byte_at_pack_words [OF m, of old i]
    by (simp add: ps_byte_def bram_put_ps k)
qed

section \<open>The acknowledgement handshakes\<close>

definition quiet_obs :: "'m machine_scheme \<Rightarrow> event list \<times> (nat \<Rightarrow> u64) \<times> 'm" where
  "quiet_obs s = (stores (hist s), bram_ps s, machine.more s)"

lemma quiet_obs_ld [simp]: "quiet_obs (emit (BramLd w i) r d s) = quiet_obs s"
  by (simp add: quiet_obs_def hist_simps)

definition cut_word :: "u8 \<Rightarrow> nat" where
  "cut_word c = (0x1030 + unat c * 0x8) div 0x8"

definition cut_tick :: "env \<Rightarrow> u8 \<Rightarrow> 'm machine_scheme \<Rightarrow> 'm machine_scheme" where
  "cut_tick e c s =
     (let ld = (\<lambda>s. emit (BramLd 1 (cut_word c)) (uint (bram_word e 1 (cut_word c) s)) [] s)
      in if bram_word e 1 (cut_word c) s \<noteq> 0 then ld (ld s) else ld s)"

definition cut_val :: "env \<Rightarrow> u8 \<Rightarrow> 'm machine_scheme \<Rightarrow> u8" where
  "cut_val e c s =
     (let s1 = emit (BramLd 1 (cut_word c)) (uint (bram_word e 1 (cut_word c) s)) [] s
      in if bram_word e 1 (cut_word c) s \<noteq> 0 then ucast (bram_word e 1 (cut_word c) s1)
         else indet e (hist s1))"

definition ibv_tick :: "env \<Rightarrow> 'm machine_scheme \<Rightarrow> 'm machine_scheme" where
  "ibv_tick e s = emit (BramLd 1 521) (uint (bram_word e 1 521 s)) [] s"

definition ibv_val :: "env \<Rightarrow> 'm machine_scheme \<Rightarrow> u8" where
  "ibv_val e s = ucast (bram_word e 1 521 s)"

lemma chan_cut_req_eq [ops]: "chan_cut_req e c s = Ok (cut_val e c s) (cut_tick e c s)"
  by (simp add: chan_cut_req_def cut_val_def cut_tick_def cut_word_def run_simps ops Let_def)

lemma index_buf_valid_eq [ops]: "index_buf_valid e s = Ok (ibv_val e s) (ibv_tick e s)"
  by (simp add: index_buf_valid_def ibv_val_def ibv_tick_def run_simps ops)

lemma wp_chan_cut_req [simp]: "wp (chan_cut_req e c) Q A s = Q (cut_val e c s) (cut_tick e c s)"
  by (simp add: wp_def chan_cut_req_eq)

lemma wp_index_buf_valid [simp]: "wp (index_buf_valid e) Q A s = Q (ibv_val e s) (ibv_tick e s)"
  by (simp add: wp_def index_buf_valid_eq)

lemma quiet_obs_tick [simp]:
  "quiet_obs (cut_tick e c s) = quiet_obs s" "quiet_obs (ibv_tick e s) = quiet_obs s"
  by (simp_all add: cut_tick_def ibv_tick_def Let_def)

interpretation cut: pl_handshake
  "chan_cut_req e c" "cut_val e c" "cut_tick e c"
  "bram_upd 1 ((0x18 + unat c * 0x8) div 0x8) 1" "bram_upd 1 ((0x18 + unat c * 0x8) div 0x8) 0"
  quiet_obs for e c
  by unfold_locales (simp_all add: chan_cut_req_eq)

interpretation ibv: pl_handshake
  "index_buf_valid e" "ibv_val e" "ibv_tick e" "bram_upd 1 6 1" "bram_upd 1 6 0" quiet_obs for e
  by unfold_locales (simp_all add: index_buf_valid_eq)

lemma ack_word: "(0x18 + unat (c :: u8) * 0x8) div 0x8 = 3 + unat c" "3 + unat (c :: u8) < 512"
  using unsigned_less [of c, where ?'a = nat] by simp_all

section \<open>Properties\<close>

text \<open>What a poll yields when the PL has withdrawn its request.\<close>

lemma cut_val_withdrawn:
  "pl_word e (hist s) 1 (0x206 + unat c) = 0 \<Longrightarrow> cut_val e c s = indet e (hist (cut_tick e c s))"
  by (simp add: cut_val_def cut_tick_def cut_word_def bram_word_def Let_def add.commute)

text \<open>C26: acknowledging a cut request of channel \<open>c\<close> returns exactly when one of its polls within the
  bound yields 0; then the PL has seen the acknowledge word go to 1 and back to 0 and nothing
  else, and no other word or variable has changed.  Otherwise it waits with the acknowledge word
  still raised.  That the PL withdraws its request is not enough: a poll of a withdrawn request
  yields the indeterminate value \<open>chan_cut_req\<close> leaves by running off its end, and with a value
  other than 0 there the wait goes on.\<close>

theorem chan_cut_ack_handshake:
  "(if \<exists>k<polls e. cut_val e c ((cut_tick e c ^^ k) (bram_upd 1 (3 + unat c) 1 s)) = 0
    then \<exists>t. chan_cut_ack e c s = Ok () t \<and>
      stores (hist t) = stores (hist s) @ [BramSt 1 (3 + unat c) 1, BramSt 1 (3 + unat c) 0] \<and>
      bram_ps t = (bram_ps s)(3 + unat c := 0) \<and> machine.more t = machine.more s
    else \<exists>t. chan_cut_ack e c s = Fail Hang t \<and> bram_ps t (3 + unat c) = 1) \<and>
   ((\<forall>h. pl_word e h 1 (0x206 + unat c) = 0 \<and> indet e h \<noteq> 0) \<longrightarrow>
    (\<exists>t. chan_cut_ack e c s = Fail Hang t))"
proof -
  let ?up = "bram_upd 1 (3 + unat c) 1"
  let ?ends = "\<exists>k<polls e. cut_val e c ((cut_tick e c ^^ k) (?up s)) = 0"
  have returns: "\<exists>t. chan_cut_ack e c s = Ok () t \<and>
      stores (hist t) = stores (hist s) @ [BramSt 1 (3 + unat c) 1, BramSt 1 (3 + unat c) 0] \<and>
      bram_ps t = (bram_ps s)(3 + unat c := 0) \<and> machine.more t = machine.more s" if ends: ?ends
  proof -
    from ends obtain t where "chan_cut_ack e c s = Ok () (bram_upd 1 (3 + unat c) 0 t)"
        and "quiet_obs t = quiet_obs (?up s)"
      using cut.handshake_returns [of "polls e" e c s]
      unfolding chan_cut_ack_def bram_st_def ack_word(1) by blast
    with ack_word(2) [of c] show ?thesis by (auto simp: quiet_obs_def hist_simps)
  qed
  have waits: "\<exists>t. chan_cut_ack e c s = Fail Hang t \<and> bram_ps t (3 + unat c) = 1" if stays: "\<not> ?ends"
  proof -
    from stays obtain t where "chan_cut_ack e c s = Fail Hang t" and "quiet_obs t = quiet_obs (?up s)"
      using cut.handshake_hangs [of "polls e" e c s]
      unfolding chan_cut_ack_def bram_st_def ack_word(1) by blast
    with ack_word(2) [of c] show ?thesis by (auto simp: quiet_obs_def)
  qed
  have "\<not> ?ends" if "\<forall>h. pl_word e h 1 (0x206 + unat c) = 0 \<and> indet e h \<noteq> 0"
    using that by (simp add: cut_val_withdrawn)
  with returns waits show ?thesis by auto
qed

theorem chan_cut_ack_handshake_witness:
  "(\<exists>t. chan_cut_ack (env0\<lparr>pl_word := \<lambda>_ _ _. 0, indet := \<lambda>_. 0, polls := 1\<rparr>) 0 machine0 = Ok () t) \<and>
   (\<exists>t. chan_cut_ack (env0\<lparr>pl_word := \<lambda>_ _ _. 0, indet := \<lambda>_. 1\<rparr>) 0 machine0 = Fail Hang t)"
  using chan_cut_ack_handshake [of "env0\<lparr>pl_word := \<lambda>_ _ _. 0, indet := \<lambda>_. 0, polls := 1\<rparr>" 0 machine0]
    chan_cut_ack_handshake [of "env0\<lparr>pl_word := \<lambda>_ _ _. 0, indet := \<lambda>_. 1\<rparr>" 0 machine0]
  by (auto simp: cut_val_withdrawn)

text \<open>Releasing the index buffer follows the same protocol on word 6, against the valid flag of
  the PL in word 521.\<close>

theorem index_buf_invalid_handshake:
  "if \<exists>k<polls e. ibv_val e ((ibv_tick e ^^ k) (bram_upd 1 6 1 s)) = 0
   then \<exists>t. index_buf_invalid e s = Ok () t \<and>
     stores (hist t) = stores (hist s) @ [BramSt 1 6 1, BramSt 1 6 0] \<and>
     bram_ps t = (bram_ps s)(6 := 0) \<and> machine.more t = machine.more s
   else \<exists>t. index_buf_invalid e s = Fail Hang t \<and> bram_ps t 6 = 1"
proof (cases "\<exists>k<polls e. ibv_val e ((ibv_tick e ^^ k) (bram_upd 1 6 1 s)) = 0")
  case True
  then obtain t where "index_buf_invalid e s = Ok () (bram_upd 1 6 0 t)"
      and "quiet_obs t = quiet_obs (bram_upd 1 6 1 s)"
    using ibv.handshake_returns [of "polls e" e s]
    unfolding index_buf_invalid_def bram_st_def by blast
  with True show ?thesis by (auto simp: quiet_obs_def hist_simps)
next
  case False
  then obtain t where "index_buf_invalid e s = Fail Hang t"
      and "quiet_obs t = quiet_obs (bram_upd 1 6 1 s)"
    using ibv.handshake_hangs [of "polls e" e s]
    unfolding index_buf_invalid_def bram_st_def by blast
  with False show ?thesis by (auto simp: quiet_obs_def)
qed

text \<open>What \<open>ubram_write\<close> stores in the PS half of window 1, \<open>ubram_read\<close> returns byte for
  byte, for every length up to the size of that half.\<close>

theorem ubram_write_read:
  assumes "length bs \<le> 0x1000"
  shows "\<exists>t u. ubram_write e 1 bs (int (length bs)) s = Ok 0 t \<and>
    ubram_read e 1 (int (length bs)) t = Ok (int (length bs), bs) u"
proof -
  let ?t = "bram_put 1 0 (pack_words (\<lambda>j. bram_word e 1 j s) 0 bs) s"
  have w: "ubram_write e 1 bs (int (length bs)) s = Ok 0 ?t"
    using assms by (simp add: ubram_write_def memcpy_to_bram_def BRAM_SIZE_def run_simps)
  have "bram_bytes e 1 (length bs) ?t = map (\<lambda>k. bs ! k) [0..<length bs]"
  proof -
    have "(length bs + 7) div 8 \<le> 512" using assms by linarith
    then show ?thesis using assms ps_byte_memcpy [of 0 bs] by (auto simp: bram_bytes_ps)
  qed
  then have "bram_bytes e 1 (length bs) ?t = bs" by (simp add: map_nth)
  then show ?thesis using w assms
    by (auto simp: ubram_read_def memcpy_from_bram_def BRAM_SIZE_def run_simps)
qed

theorem ubram_write_read_witness:
  "\<exists>t u. ubram_write env0 1 [1, 2, 3] 3 machine0 = Ok 0 t \<and>
    ubram_read env0 1 3 t = Ok (3, [1, 2, 3]) u"
  using ubram_write_read [of "[1, 2, 3]" env0 "machine0"] by simp

end
