(* ===== verification/Ugpio.thy ===== *)
theory Ugpio
  imports Ubram
begin

text \<open>
  \<open>ugpio.c\<close>: the GPIO lines between PS and PL, driven through the sysfs attributes
  \<open>/sys/class/gpio/gpio<n>/value\<close>.  Every access opens the attribute, reads or writes two
  bytes and closes it; a failing \<open>open\<close> ends the process with \<open>exit(1)\<close>.
\<close>

record ugpio_state = ubram_state +
  dma_mode :: int

lemma ugpio_emit [simp]: "dma_mode (emit c r d s) = dma_mode s"
  by (simp add: emit_def)

lemma ugpio_bram_upd [simp]: "dma_mode (bram_upd w i v s) = dma_mode s"
  by (simp add: bram_upd_def emit_def)

definition start_pin :: int where
  "start_pin = 306 + 78"

definition gpio_value_path :: "int \<Rightarrow> string" where
  "gpio_value_path pin = ''/sys/class/gpio/gpio'' @ sdec (start_pin + pin) @ ''/value''"

definition gpio_direction_path :: "int \<Rightarrow> string" where
  "gpio_direction_path pin = ''/sys/class/gpio/gpio'' @ sdec (start_pin + pin) @ ''/direction''"

section \<open>Setting up and driving the lines\<close>

text \<open>
  \<open>write(directionfd, "in", 4)\<close> reads one byte past the three bytes of the literal: that
  byte is indeterminate.
\<close>

definition gpio_export :: "env \<Rightarrow> nat \<Rightarrow> ('m machine_scheme, unit) prog" where
  "gpio_export e n =
     bindR (syscall e (Open ''/sys/class/gpio/export'' [O_WRONLY] 0)) (\<lambda>fd.
       if fd < 0 then abort_with (Exited 1)
       else seqR [sysdo e (Write fd (take 4 (str_bytes (sdec (start_pin + int n)) @ [0]))),
                  sysdo e (Close fd)])"

definition gpio_direction :: "env \<Rightarrow> bool \<Rightarrow> nat \<Rightarrow> ('m machine_scheme, unit) prog" where
  "gpio_direction e inp n =
     bindR (syscall e (Open (gpio_direction_path (int n)) [O_RDWR] 0)) (\<lambda>fd.
       if fd < 0 then abort_with (Exited 1)
       else bindR (gets (\<lambda>s. indet e (hist s))) (\<lambda>x. seqR
         [sysdo e (Write fd (if inp then str_bytes ''in'' @ [0, x] else str_bytes ''out'' @ [0])),
          sysdo e (Close fd)]))"

definition gpio_init :: "env \<Rightarrow> nat \<Rightarrow> ('m machine_scheme, unit) prog" where
  "gpio_init e num = seqR
     (map (gpio_export e) [0..<num]
      @ map (gpio_direction e True) (filter odd [0..<num])
      @ map (gpio_direction e False) (filter even [0..<num]))"

text \<open>The first two bytes of the zeroed buffer after \<open>sprintf(value_str, "%d", value)\<close>.\<close>

definition level_bytes :: "u8 \<Rightarrow> bytes" where
  "level_bytes v = take 2 (str_bytes (dec (unat v)) @ [0])"

definition gpio_set :: "env \<Rightarrow> int \<Rightarrow> u8 \<Rightarrow> ('m machine_scheme, unit) prog" where
  "gpio_set e pin value =
     bindR (syscall e (Open (gpio_value_path pin) [O_RDWR] 0)) (\<lambda>fd.
       if fd < 0 then abort_with (Exited 1)
       else seqR [sysdo e (Write fd (level_bytes value)), sysdo e (Close fd)])"

definition gpio_get :: "env \<Rightarrow> int \<Rightarrow> ('m machine_scheme, u8) prog" where
  "gpio_get e pin =
     bindR (syscall e (Open (gpio_value_path pin) [O_RDONLY] 0)) (\<lambda>fd.
       if fd < 0 then abort_with (Exited 1)
       else bindR (syscall_data e (Read fd 2)) (\<lambda>(r, d).
         bindR (sysdo e (Close fd)) (\<lambda>_.
           ret (word_of_int (atol (cstr (take (min 2 (nat r)) d)))))))"

section \<open>Named lines\<close>

definition reset_pl :: "env \<Rightarrow> ('m machine_scheme, unit) prog" where
  "reset_pl e = seqR
     [gpio_set e 26 1, gpio_set e 26 1, gpio_set e 26 1, gpio_set e 26 1, gpio_set e 26 0,
      gpio_set e 52 0, gpio_set e 54 1, gpio_set e 56 1, gpio_set e 58 1, gpio_set e 60 1,
      gpio_set e 62 1, gpio_set e 64 1]"

definition enable_data_source :: "env \<Rightarrow> u8 \<Rightarrow> ('m machine_scheme, unit) prog" where
  "enable_data_source e value = seqR
     [gpio_set e 0 value,
      if value \<noteq> 0 then seqR [bram_st 1 18 1, bram_st 1 19 1]
      else seqR [bram_st 1 18 0, bram_st 1 19 0]]"

definition flow_ctrl_req :: "env \<Rightarrow> int \<Rightarrow> ('m machine_scheme, u8) prog" where
  "flow_ctrl_req e chan_num = gpio_get e (13 + 2 * chan_num)"

definition flow_ctrl_ack :: "env \<Rightarrow> int \<Rightarrow> ('m machine_scheme, unit) prog" where
  "flow_ctrl_ack e chan_num =
     (let gpio = 14 + 2 * chan_num in seqR [gpio_set e gpio 1, gpio_set e gpio 0])"

definition select_data_source :: "env \<Rightarrow> u8 \<Rightarrow> ('m machine_scheme, unit) prog" where
  "select_data_source e mode = gpio_set e 2 mode"

definition check_en :: "env \<Rightarrow> u8 \<Rightarrow> ('m machine_scheme, unit) prog" where
  "check_en e mode = gpio_set e 48 mode"

definition open_rtc :: "env \<Rightarrow> u8 \<Rightarrow> ('m machine_scheme, unit) prog" where
  "open_rtc e mode = gpio_set e 50 mode"

text \<open>For a channel above 2 the pin is an uninitialised variable.\<close>

definition slice_complete :: "env \<Rightarrow> u8 \<Rightarrow> ('m machine_scheme, unit) prog" where
  "slice_complete e channel =
     (if channel = 0 then seqR [gpio_set e 4 1, gpio_set e 4 0]
      else if channel = 1 then seqR [gpio_set e 6 1, gpio_set e 6 0]
      else if channel = 2 then seqR [gpio_set e 8 1, gpio_set e 8 0]
      else abort_with Undefined)"

definition slice_state :: "env \<Rightarrow> u8 \<Rightarrow> ('m machine_scheme, u8) prog" where
  "slice_state e channel =
     (if channel = 0 then gpio_get e 3
      else if channel = 1 then gpio_get e 5
      else if channel = 2 then gpio_get e 7
      else ret 0)"

definition invalidate_bram :: "env \<Rightarrow> ('m machine_scheme, unit) prog" where
  "invalidate_bram e = seqR [gpio_set e 10 1, gpio_set e 10 0]"

definition get_bram :: "env \<Rightarrow> ('m machine_scheme, u32) prog" where
  "get_bram e = bindR (gpio_get e 9) (\<lambda>v. ret (if v \<noteq> 0 then ucast BRAM0_BA else 0))"

section \<open>DMA buffer flags and frame settings\<close>

definition use_dma_buf_flag :: "env \<Rightarrow> u8 \<Rightarrow> ('m ugpio_state_scheme, unit) prog" where
  "use_dma_buf_flag e mode = seqR
     [gpio_set e 28 mode, modify (\<lambda>s. s\<lparr>dma_mode := uint mode\<rparr>)]"

definition dma_buf_readable :: "env \<Rightarrow> int \<Rightarrow> ('m ugpio_state_scheme, u8) prog" where
  "dma_buf_readable e dma_num =
     ifR (\<lambda>s. dma_mode s \<noteq> 0) (gpio_get e (19 + 2 * dma_num)) (ret 1)"

definition dma_buf_clear :: "env \<Rightarrow> int \<Rightarrow> ('m ugpio_state_scheme, unit) prog" where
  "dma_buf_clear e dma_num =
     whenR (\<lambda>s. dma_mode s \<noteq> 0)
       (seqR [gpio_set e (20 + 2 * dma_num) 1, gpio_set e (20 + 2 * dma_num) 0])"

text \<open>The result is the bitwise complement of the level, not its negation.\<close>

definition dma_buf_writable :: "env \<Rightarrow> int \<Rightarrow> ('m machine_scheme, u8) prog" where
  "dma_buf_writable e dma_num = bindR (gpio_get e (25 + 2 * dma_num)) (\<lambda>v. ret (NOT v))"

definition select_frame_length :: "env \<Rightarrow> u8 \<Rightarrow> ('m machine_scheme, unit) prog" where
  "select_frame_length e value = seqR
     [gpio_set e 30 (value AND 0x1), gpio_set e 32 (value AND 0x2), gpio_set e 34 (value AND 0x4)]"

definition select_frame_count :: "env \<Rightarrow> u8 \<Rightarrow> ('m machine_scheme, unit) prog" where
  "select_frame_count e value = seqR
     [gpio_set e 36 (value AND 0x1), gpio_set e 38 (value AND 0x2), gpio_set e 40 (value AND 0x4)]"

section \<open>The interface of the lines\<close>

text \<open>
  What the clients of the GPIO layer rely on: setting a line either sets exactly that line
  and nothing else they observe, or ends the process.
\<close>

locale gpio_port =
  fixes set_line :: "int \<Rightarrow> u8 \<Rightarrow> ('s, unit) prog"
    and level :: "'s \<Rightarrow> int \<Rightarrow> bytes option" and obs :: "'s \<Rightarrow> 'o"
  assumes set_level: "set_line p v s = Ok () t \<Longrightarrow> level t = (level s)(p \<mapsto> level_bytes v)"
    and set_obs: "set_line p v s = Ok () t \<Longrightarrow> obs t = obs s"
    and set_fails: "set_line p v s = Fail a t \<Longrightarrow> a = Exited 1"
begin

lemma lines_level:
  "seqR (map (\<lambda>(p, v). set_line p v) ls) s = Ok () t \<Longrightarrow>
   level t = foldl (\<lambda>l (p, v). l(p \<mapsto> level_bytes v)) (level s) ls \<and> obs t = obs s"
proof (induction ls arbitrary: s)
  case Nil
  then show ?case by simp
next
  case (Cons x ls)
  obtain p v where x: "x = (p, v)" by (cases x)
  from Cons.prems x obtain u where u: "set_line p v s = Ok () u"
    and rest: "seqR (map (\<lambda>(p, v). set_line p v) ls) u = Ok () t"
    by (auto split: result.splits)
  from Cons.IH [OF rest] set_level [OF u] set_obs [OF u] x show ?case by simp
qed

lemma lines_fail:
  "seqR (map (\<lambda>(p, v). set_line p v) ls) s = Fail a t \<Longrightarrow> a = Exited 1"
  by (induction ls arbitrary: s) (auto split: result.splits dest: set_fails)

end

text \<open>A line driven up and down again: the shape of every acknowledgement.\<close>

locale pulse_port = gpio_port +
  fixes p :: int
begin

lemma pulse_level:
  "seqR [set_line p 1, set_line p 0] s = Ok () t \<Longrightarrow>
   level t = (level s)(p \<mapsto> level_bytes 0) \<and> obs t = obs s"
  using lines_level [of "[(p, 1), (p, 0)]" s t] by simp

end

section \<open>What an access does\<close>

definition line_level :: "'m machine_scheme \<Rightarrow> int \<Rightarrow> bytes option" where
  "line_level s pin = attr (hist s) (gpio_value_path pin)"

definition gpio_up :: "env \<Rightarrow> bool" where
  "gpio_up e \<longleftrightarrow> (\<forall>h pin fl. 0 \<le> k_ret e h (Open (gpio_value_path pin) fl 0))"

definition set_line :: "env \<Rightarrow> int \<Rightarrow> u8 \<Rightarrow> 'm machine_scheme \<Rightarrow> 'm machine_scheme" where
  "set_line e pin v s =
     (let c = Open (gpio_value_path pin) [O_RDWR] 0; fd = k_ret e (hist s) c;
          s1 = emit c fd (k_data e (hist s) c) s; w = Write fd (level_bytes v);
          s2 = emit w (k_ret e (hist s1) w) (k_data e (hist s1) w) s1
      in emit (Close fd) (k_ret e (hist s2) (Close fd)) (k_data e (hist s2) (Close fd)) s2)"

lemma set_line_simps [simp]:
  "bram_ps (set_line e p v s) = bram_ps s"
  "machine.more (set_line e p v s) = machine.more s"
  "stores (hist (set_line e p v s)) = stores (hist s)"
  by (simp_all add: set_line_def Let_def hist_simps)

lemma gpio_set_eq [ops]:
  "gpio_set e p v s =
     (let c = Open (gpio_value_path p) [O_RDWR] 0; fd = k_ret e (hist s) c
      in if fd < 0 then Fail (Exited 1) (emit c fd (k_data e (hist s) c) s)
         else Ok () (set_line e p v s))"
  by (simp add: gpio_set_def set_line_def run_simps ops Let_def)

lemma gpio_set_up: "gpio_up e \<Longrightarrow> gpio_set e p v s = Ok () (set_line e p v s)"
  by (simp add: gpio_set_eq gpio_up_def Let_def not_less [symmetric])

lemma gpio_value_path_inject [simp]: "gpio_value_path p = gpio_value_path q \<longleftrightarrow> p = q"
  by (simp add: gpio_value_path_def)

lemma line_level_set_line:
  assumes "0 \<le> k_ret e (hist s) (Open (gpio_value_path p) [O_RDWR] 0)"
  shows "line_level (set_line e p v s) = (line_level s)(p \<mapsto> level_bytes v)"
  using attr_write_file [OF assms, of "hist s"]
  by (auto simp: line_level_def set_line_def Let_def fun_eq_iff)

text \<open>The observation a GPIO write leaves alone.\<close>

lemma quiet_obs_set_line [simp]: "quiet_obs (set_line e p v s) = quiet_obs s"
  by (simp add: quiet_obs_def)

interpretation gpio: gpio_port "gpio_set e" line_level quiet_obs for e
  by unfold_locales
    (auto simp: gpio_set_eq Let_def line_level_set_line quiet_obs_def split: if_splits)

interpretation gpio_pulse: pulse_port "gpio_set e" line_level quiet_obs p for e p
  by unfold_locales

definition drive :: "(int \<Rightarrow> bytes option) \<Rightarrow> (int \<times> u8) list \<Rightarrow> int \<Rightarrow> bytes option" where
  "drive l ls = foldl (\<lambda>l (p, v). l(p \<mapsto> level_bytes v)) l ls"

text \<open>With working GPIO attributes a list of writes succeeds and sets exactly its lines.\<close>

lemma gpio_lines_up:
  assumes "gpio_up e"
  obtains t where "seqR (map (\<lambda>(p, v). gpio_set e p v) ls) s = Ok () t"
    and "line_level t = drive (line_level s) ls" and "quiet_obs t = quiet_obs s"
proof -
  have "\<exists>t. seqR (map (\<lambda>(p, v). gpio_set e p v) ls) s = Ok () t"
    using assms by (induction ls arbitrary: s) (auto simp: gpio_set_up)
  with that gpio.lines_level show thesis unfolding drive_def by blast
qed

lemma level_bytes_0 [simp]: "level_bytes 0 = [48, 0]"
  by (simp add: level_bytes_def dec.simps str_bytes_def char_byte_def)

lemma level_bytes_1 [simp]: "level_bytes 1 = [49, 0]"
  by (simp add: level_bytes_def dec.simps str_bytes_def char_byte_def)

section \<open>What the kernel reads back\<close>

text \<open>The number a level text denotes: zero exactly for the value zero.\<close>

lemma digits_val_pos: "0 < acc \<Longrightarrow> 0 < digits_val acc cs"
proof (induction acc cs rule: digits_val.induct)
  case (2 acc c cs)
  have "0 < 10 * acc + (of_char c - 48)" if "is_digit c"
    using 2(2) that of_nat_of_char [of c, where ?'a = int] by (simp add: is_digit_def)
  with 2 show ?case by simp
qed simp

lemma dec_hd: "hd (dec n) = digit_char 0 \<longleftrightarrow> n = 0"
proof (induction n rule: dec.induct)
  case (1 n)
  have inj: "digit_char d = digit_char 0 \<longleftrightarrow> d = 0" if "d < 10" for d
  proof
    assume "digit_char d = digit_char 0"
    then have "of_char (digit_char d) = (of_char (digit_char 0) :: nat)" by simp
    with that show "d = 0" by simp
  qed simp
  show ?case
  proof (cases "n < 10")
    case True
    then show ?thesis by (subst dec.simps) (simp add: inj)
  next
    case False
    then have "hd (dec n) = hd (dec (n div 10))"
      by (subst dec.simps) simp
    with 1 False show ?thesis by simp
  qed
qed

lemma digit_bytes: "\<forall>c \<in> set (dec n). char_byte c \<noteq> 0"
  using dec_digits [of n] by (auto simp: is_digit_def)

lemma atol_level_bytes: "atol (cstr (level_bytes v)) = 0 \<longleftrightarrow> v = 0"
proof -
  obtain c cs where d: "dec (unat v) = c # cs" by (cases "dec (unat v)") auto
  have "c = digit_char 0 \<longleftrightarrow> v = 0"
    using dec_hd [of "unat v"] by (simp add: d unat_eq_0)
  moreover have dig: "is_digit c" "\<forall>x \<in> set cs. is_digit x"
    using dec_digits [of "unat v"] by (auto simp: d)
  moreover have nz: "char_byte c \<noteq> 0" "\<forall>x \<in> set cs. char_byte x \<noteq> 0"
    using digit_bytes [of "unat v"] by (auto simp: d)
  obtain ds where ds: "cstr (level_bytes v) = c # ds"
    using nz by (cases cs) (auto simp: level_bytes_def d str_bytes_def cstr_def)
  have ds': "ds = [] \<or> v \<noteq> 0"
  proof (cases "v = 0")
    case True
    then have "cs = []" using d by (simp add: dec.simps)
    then show ?thesis using ds nz
      by (simp add: level_bytes_def d str_bytes_def cstr_def)
  qed simp
  have sp: "\<not> is_space c" "c \<noteq> CHR ''-''" "c \<noteq> CHR ''+''"
    using dig(1) by (auto simp: is_digit_def is_space_def)
  have ge: "48 \<le> (of_char c :: int)" "of_char c = (48 :: int) \<longleftrightarrow> c = digit_char 0"
    using dig(1) of_nat_of_char [of c, where ?'a = int]
      of_char_eq_iff [of c "digit_char 0", where ?'a = int]
    by (auto simp: is_digit_def)
  have val: "atol (c # ds) = digits_val (of_char c - 48) ds"
    using sp dig(1) by (simp add: atol_def)
  show ?thesis
  proof (cases "v = 0")
    case True
    with ds' have "ds = []" by simp
    with True \<open>c = digit_char 0 \<longleftrightarrow> v = 0\<close> val ds show ?thesis by simp
  next
    case False
    with ge \<open>c = digit_char 0 \<longleftrightarrow> v = 0\<close> have "0 < (of_char c :: int) - 48" by linarith
    then have "0 < digits_val (of_char c - 48) ds" by (rule digits_val_pos)
    with False val ds show ?thesis by simp
  qed
qed

text \<open>
  The documented behaviour of a sysfs GPIO attribute: a read of two bytes delivers \<open>0\<close> or
  \<open>1\<close> and a newline, as the number last written was zero or not.
\<close>

definition sysfs_gpio :: "env \<Rightarrow> bool" where
  "sysfs_gpio e \<longleftrightarrow> (\<forall>h fd pin bs.
     fst (sysfs h) fd = Some (gpio_value_path pin) \<longrightarrow> attr h (gpio_value_path pin) = Some bs \<longrightarrow>
     k_ret e h (Read fd 2) = 2 \<and>
     k_data e h (Read fd 2) = [if atol (cstr bs) = 0 then 48 else 49, 10])"

lemma atol_level_read:
  "atol (cstr [48, 10]) = 0" "atol (cstr [49, 10]) = 1"
  by (simp_all add: atol_def cstr_def byte_char_def is_space_def is_digit_def char_of_def
      bit_Suc_0_iff)

lemma gpio_get_level:
  assumes up: "gpio_up e" and ker: "sysfs_gpio e" and lv: "line_level s p = Some bs"
  shows "\<exists>t. gpio_get e p s = Ok (if atol (cstr bs) = 0 then 0 else 1) t \<and>
    line_level t = line_level s \<and> quiet_obs t = quiet_obs s"
proof -
  let ?c = "Open (gpio_value_path p) [O_RDONLY] 0"
  define fd where "fd = k_ret e (hist s) ?c"
  have fd: "0 \<le> fd" using up by (simp add: fd_def gpio_up_def)
  define h1 where "h1 = hist s @ [(?c, fd, k_data e (hist s) ?c)]"
  have a: "attr h1 = attr (hist s)" and f: "fst (sysfs h1) fd = Some (gpio_value_path p)"
    using fd by (cases "sysfs (hist s)", simp add: h1_def attr_def sysfs_snoc)+
  with ker lv have rd: "k_ret e h1 (Read fd 2) = 2"
      "k_data e h1 (Read fd 2) = [if atol (cstr bs) = 0 then 48 else 49, 10]"
    by (auto simp: sysfs_gpio_def line_level_def)
  have q: "stores h1 = stores (hist s)" by (simp add: h1_def hist_simps)
  have rc: "attr (h1 @ [(Read f n, r, d), (Close g, r', d')]) = attr (hist s)" for f n r d g r' d'
    using a by (simp add: attr_read_close)
  have sc: "stores (h1 @ [(Read f n, r, d), (Close g, r', d')]) = stores (hist s)"
    for f n r d g r' d'
    using q by (simp add: hist_simps)
  show ?thesis using fd rd
    by (auto simp: gpio_get_def run_simps ops fd_def [symmetric] h1_def [symmetric]
        atol_level_read line_level_def fun_eq_iff quiet_obs_def rc sc)
qed

lemma gpio_up_env0: "gpio_up env0"
  by (simp add: gpio_up_def)

lemma sysfs_gpio_env0: "sysfs_gpio env0"
  by (simp add: sysfs_gpio_def data0_def)

section \<open>Properties\<close>

text \<open>\<open>reset_pl\<close> leaves the reset line 26 low, line 52 low and the lines 54 to 64 high,
  touches no other line, and neither the BRAM nor any other state.\<close>

theorem reset_pl_levels:
  assumes "gpio_up e"
  shows "\<exists>t. reset_pl e s = Ok () t \<and> quiet_obs t = quiet_obs s \<and>
    line_level t = (line_level s)(26 \<mapsto> [48, 0], 52 \<mapsto> [48, 0], 54 \<mapsto> [49, 0], 56 \<mapsto> [49, 0],
      58 \<mapsto> [49, 0], 60 \<mapsto> [49, 0], 62 \<mapsto> [49, 0], 64 \<mapsto> [49, 0])"
proof -
  let ?ls = "[(26, 1), (26, 1), (26, 1), (26, 1), (26, 0), (52, 0), (54, 1), (56, 1), (58, 1),
    (60, 1), (62, 1), (64, 1)]"
  have eq: "reset_pl e = seqR (map (\<lambda>(p, v). gpio_set e p v) ?ls)"
    by (simp add: reset_pl_def)
  obtain t where t: "seqR (map (\<lambda>(p, v). gpio_set e p v) ?ls) s = Ok () t"
      "line_level t = drive (line_level s) ?ls" "quiet_obs t = quiet_obs s"
    using assms by (rule gpio_lines_up)
  have "drive (line_level s) ?ls = (line_level s)(26 \<mapsto> [48, 0], 52 \<mapsto> [48, 0], 54 \<mapsto> [49, 0],
      56 \<mapsto> [49, 0], 58 \<mapsto> [49, 0], 60 \<mapsto> [49, 0], 62 \<mapsto> [49, 0], 64 \<mapsto> [49, 0])"
    by (simp add: drive_def)
  with t show ?thesis unfolding eq by (intro exI [of _ t]) simp
qed

theorem reset_pl_levels_witness:
  "\<exists>t. reset_pl env0 machine0 = Ok () t \<and> quiet_obs t = quiet_obs machine0 \<and>
    line_level t 26 = Some [48, 0] \<and> line_level t 64 = Some [49, 0]"
  using reset_pl_levels [OF gpio_up_env0, of machine0] by auto

text \<open>After \<open>select_frame_length\<close> the lines 30, 32 and 34 carry the three low bits of the
  requested value (the kernel reads any non-zero number as a high level).\<close>

theorem select_frame_length_bits:
  assumes "gpio_up e" and "k < 3"
  shows "\<exists>t bs. select_frame_length e v s = Ok () t \<and>
    line_level t (30 + 2 * int k) = Some bs \<and> (atol (cstr bs) \<noteq> 0 \<longleftrightarrow> bit v k)"
proof -
  let ?ls = "[(30, v AND 1), (32, v AND 2), (34, v AND 4)]"
  have eq: "select_frame_length e v = seqR (map (\<lambda>(p, v). gpio_set e p v) ?ls)"
    by (simp add: select_frame_length_def)
  obtain t where t: "seqR (map (\<lambda>(p, v). gpio_set e p v) ?ls) s = Ok () t"
      "line_level t = drive (line_level s) ?ls" "quiet_obs t = quiet_obs s"
    using assms(1) by (rule gpio_lines_up)
  have ok: "select_frame_length e v s = Ok () t" unfolding eq by (rule t(1))
  have one: "v AND 2 ^ j = 0 \<longleftrightarrow> \<not> bit v j" for j :: nat
    by (simp add: and_exp_eq_0_iff_not_bit)
  from assms(2) consider "k = 0" | "k = 1" | "k = 2" by linarith
  then show ?thesis
    using ok t(2) one [of 0] one [of 1] one [of 2]
    by cases (simp_all add: atol_level_bytes drive_def)
qed

theorem select_frame_length_bits_witness:
  "\<exists>t bs. select_frame_length env0 5 machine0 = Ok () t \<and>
    line_level t 34 = Some bs \<and> atol (cstr bs) \<noteq> 0"
  using select_frame_length_bits [OF gpio_up_env0, of 2 5 machine0] by (auto simp: bit_numeral_rec)

text \<open>A GPIO line reads back as it was last written: \<open>gpio_get\<close> after \<open>gpio_set\<close> returns 0 for
  the value 0 and 1 for any other value, and reading disturbs no line.\<close>

theorem gpio_set_get:
  assumes "gpio_up e" and "sysfs_gpio e"
  shows "\<exists>t u. gpio_set e p v s = Ok () t \<and> gpio_get e p t = Ok (if v = 0 then 0 else 1) u \<and>
    line_level u = (line_level s)(p \<mapsto> level_bytes v)"
proof -
  obtain t where t: "gpio_set e p v s = Ok () t" using gpio_set_up [OF assms(1)] by blast
  then have lv: "line_level t = (line_level s)(p \<mapsto> level_bytes v)" by (rule gpio.set_level)
  then have "line_level t p = Some (level_bytes v)" by simp
  from gpio_get_level [OF assms this] t lv show ?thesis by (auto simp: atol_level_bytes)
qed

theorem gpio_set_get_witness:
  "\<exists>t u. gpio_set env0 14 7 machine0 = Ok () t \<and> gpio_get env0 14 t = Ok 1 u"
  using gpio_set_get [OF gpio_up_env0 sysfs_gpio_env0, of 14 7 machine0] by auto

text \<open>The buffer-writable test never reports a busy buffer: for a line the kernel presents as 0
  or 1, \<open>dma_buf_writable\<close> returns the complement 255 or 254, both true in C.\<close>

theorem dma_buf_writable_always:
  assumes "gpio_up e" and "sysfs_gpio e" and "line_level s (25 + 2 * n) = Some bs"
  shows "\<exists>t r. dma_buf_writable e n s = Ok r t \<and> r \<noteq> 0 \<and>
    r = (if atol (cstr bs) = 0 then 255 else 254)"
  using gpio_get_level [OF assms] by (auto simp: dma_buf_writable_def run_simps)

theorem dma_buf_writable_always_witness:
  "\<exists>t u r. gpio_set env0 25 1 machine0 = Ok () t \<and> dma_buf_writable env0 0 t = Ok r u \<and> r \<noteq> 0"
proof -
  obtain t where t: "gpio_set env0 25 1 machine0 = Ok () t"
    using gpio_set_up [OF gpio_up_env0] by blast
  then have "line_level t (25 + 2 * 0) = Some (level_bytes 1)"
    by (simp add: gpio.set_level)
  from dma_buf_writable_always [OF gpio_up_env0 sysfs_gpio_env0 this] t show ?thesis by auto
qed

end
