(* ===== verification/Ummap.thy ===== *)
theory Ummap
  imports Ugpio
begin

text \<open>
  \<open>ummap.c\<close>: physical memory through \<open>/dev/mem\<close>, locked huge-page buffers for the DMA
  engines, and the translation of virtual addresses through \<open>/proc/self/pagemap\<close>.  Addresses
  are \<open>u64\<close>, the null pointer is 0.
\<close>

section \<open>Mapping physical memory\<close>

definition PAGE_MASK :: "env \<Rightarrow> u64" where
  "PAGE_MASK e = NOT (of_nat (page_size e) - 1)"

definition mmap_create :: "env \<Rightarrow> u32 \<Rightarrow> nat \<Rightarrow> ('m machine_scheme, u64) prog" where
  "mmap_create e phyaddr len =
     (let base = ucast (ucast phyaddr AND PAGE_MASK e) :: u32 in
      bindR (syscall e (Open ''/dev/mem'' [O_RDWR] 0)) (\<lambda>fd.
        if fd = -1 then ret 0
        else bindR (syscall e (Mem (Mmap [MAP_SHARED] len fd (ucast base)))) (\<lambda>p.
          bindR (sysdo e (Close fd)) (\<lambda>_. ret (word_of_int p)))))"

definition mmap_release :: "env \<Rightarrow> u64 \<Rightarrow> nat \<Rightarrow> ('m machine_scheme, int) prog" where
  "mmap_release e virtaddr len =
     (if virtaddr = 0 then ret (-1)
      else bindR (sysdo e (Mem (Munmap virtaddr len))) (\<lambda>_. ret 0))"

section \<open>Buffers for the DMA engines\<close>

definition create_buffer :: "env \<Rightarrow> nat \<Rightarrow> ('m machine_scheme, u64) prog" where
  "create_buffer e buf_size =
     bindR (syscall e (Mem (Mmap [MAP_PRIVATE, MAP_ANONYMOUS, MAP_HUGETLB] buf_size (-1) 0))) (\<lambda>p.
       let buffer = word_of_int p in
       if buffer = MAP_FAILED then abort_with (Exited 1)
       else bindR (sysdo e (Mem (Madvise buffer buf_size))) (\<lambda>_.
         bindR (syscall e (Mem (Mlock buffer buf_size))) (\<lambda>r.
           if r = -1 then abort_with (Exited 1) else ret buffer)))"

section \<open>Page frames\<close>

definition PFN_MASK :: u64 where "PFN_MASK = push_bit 55 1 - 1"
definition PFN_PRESENT_FLAG :: u64 where "PFN_PRESENT_FLAG = push_bit 63 1"

text \<open>The result pairs the return value with the address stored through \<open>phy\<close>, if any.\<close>

definition mem_addr_vir2phy :: "env \<Rightarrow> u64 \<Rightarrow> ('m machine_scheme, int \<times> u32 option) prog" where
  "mem_addr_vir2phy e vir =
     (let psize = of_nat (page_size e); vir_page_idx = vir div psize;
          pfn_item_offset = vir_page_idx * 8 in
      bindR (syscall e (Open ''/proc/self/pagemap'' [O_RDONLY] 777)) (\<lambda>fd.
        if fd < 0 then ret (-1, None)
        else bindR (syscall e (Lseek fd (uint pfn_item_offset) SEEK_SET)) (\<lambda>pos.
          if pos = -1 then ret (-1, None)
          else bindR (syscall_data e (Read fd 8)) (\<lambda>(r, d).
            if r \<noteq> 8 then ret (-1, None)
            else let pfn_item = le_val d in
              if pfn_item AND PFN_PRESENT_FLAG = 0 then ret (-1, None)
              else bindR (sysdo e (Close fd)) (\<lambda>_.
                ret (0, Some (ucast ((pfn_item AND PFN_MASK) * psize + vir mod psize))))))))"

text \<open>The loop that checks that the first 96 pages of the buffer are present.\<close>

fun check_pages :: "env \<Rightarrow> u64 \<Rightarrow> nat list \<Rightarrow> ('m machine_scheme, bool) prog" where
  "check_pages e addr [] s = Ok True s"
| "check_pages e addr (i # is) s =
     bindR (mem_addr_vir2phy e (addr + of_nat i * 0x1000)) (\<lambda>(r, _).
       if r \<noteq> 0 then ret False else check_pages e addr is) s"

definition get_page_frame_number_of_address :: "env \<Rightarrow> u64 \<Rightarrow> ('m machine_scheme, u64) prog" where
  "get_page_frame_number_of_address e addr =
     (let offset = addr div of_nat (page_size e) * 8 in
      bindR (syscall e (Dir (Fopen ''/proc/self/pagemap''))) (\<lambda>pagemap.
        if pagemap = 0 then abort_with Undefined
        else bindR (syscall e (Dir (Fseek pagemap offset))) (\<lambda>r.
          if r \<noteq> 0 then abort_with (Exited 1)
          else bindR (syscall_data e (Dir (Fread pagemap 7))) (\<lambda>(_, d).
            let page_frame_number = le_val (take 7 d) AND 0x7FFFFFFFFFFFFF in
            bindR (sysdo e (Dir (Fclose pagemap))) (\<lambda>_.
              bindR (check_pages e addr [0..<96]) (\<lambda>ok.
                ret (if ok then page_frame_number else -1)))))))"

section \<open>The documented pagemap\<close>

text \<open>
  \<open>/proc/self/pagemap\<close> holds one little-endian 64-bit item per virtual page; \<open>pm\<close> is the
  table of items.  The kernel serves it both through descriptors and through streams.
\<close>

definition pagemap :: "env \<Rightarrow> (u64 \<Rightarrow> u64) \<Rightarrow> bool" where
  "pagemap e pm \<longleftrightarrow>
     (\<forall>h fl m. 0 \<le> k_ret e h (Open ''/proc/self/pagemap'' fl m)) \<and>
     (\<forall>h f off w. k_ret e h (Lseek f off w) \<noteq> -1) \<and>
     (\<forall>h f off r d. k_ret e (h @ [(Lseek f off SEEK_SET, r, d)]) (Read f 8) = 8 \<and>
        k_data e (h @ [(Lseek f off SEEK_SET, r, d)]) (Read f 8) = le_bytes (pm (word_of_int off div 8))) \<and>
     (\<forall>h. k_ret e h (Dir (Fopen ''/proc/self/pagemap'')) \<noteq> 0) \<and>
     (\<forall>h f off. k_ret e h (Dir (Fseek f off)) = 0) \<and>
     (\<forall>h f off r d. k_data e (h @ [(Dir (Fseek f off), r, d)]) (Dir (Fread f 7)) =
        take 7 (le_bytes (pm (off div 8))))"

text \<open>An item offset is eight times its page index; the product does not wrap.\<close>

lemma item_offset: "vir div 4096 * 8 div 8 = (vir div 4096 :: u64)"
proof -
  have "unat (vir div 4096) < 2 ^ 52"
    using unsigned_less [of vir, where ?'a = nat] by (simp add: unat_div)
  then have "unat (vir div 4096 * 8) = unat (vir div 4096) * 8"
    by (simp add: unat_word_ariths)
  then show ?thesis by (simp add: word_unat_eq_iff unat_div)
qed

text \<open>
  Reading seven bytes of an item and clearing the top bit gives the same frame number as
  reading all eight and masking.
\<close>

lemma PFN_MASK_eq: "PFN_MASK = mask 55"
  by (simp add: PFN_MASK_def mask_eq_exp_minus_1)

lemma bit_PFN_MASK: "bit PFN_MASK n \<longleftrightarrow> n < 55"
  by (auto simp: PFN_MASK_eq bit_mask_iff possible_bit_word)

lemma seven_bytes: "le_val (take 7 (le_bytes w)) AND 0x7FFFFFFFFFFFFF = w AND PFN_MASK"
proof -
  have m: "(0x7FFFFFFFFFFFFF :: u64) = PFN_MASK"
    by (simp add: PFN_MASK_def)
  show ?thesis unfolding m
  proof (rule bit_eqI)
    fix n assume "possible_bit TYPE(u64) n"
    have "take 7 (le_bytes w) ! (n div 8) = byte_at w (n div 8)" if "n < 55"
      using that by (simp add: le_bytes_def nth_append)
    then show "bit (le_val (take 7 (le_bytes w)) AND PFN_MASK) n = bit (w AND PFN_MASK) n"
      by (auto simp: bit_and_iff bit_PFN_MASK bit_le_val bit_byte_at)
  qed
qed

lemma present_iff: "w AND PFN_PRESENT_FLAG = 0 \<longleftrightarrow> \<not> bit w 63"
proof -
  have "PFN_PRESENT_FLAG = 2 ^ 63" by (simp only: PFN_PRESENT_FLAG_def push_bit_of_1)
  then show ?thesis using and_exp_eq_0_iff_not_bit [of w 63] by simp
qed

text \<open>A kernel that serves the page table \<open>pm\<close>.\<close>

definition pm_env :: "(u64 \<Rightarrow> u64) \<Rightarrow> env" where
  "pm_env pm = env0\<lparr>
     k_ret := (\<lambda>h c. case c of Open p fl m \<Rightarrow> 3 | Read f n \<Rightarrow> int n | Dir (Fopen p) \<Rightarrow> 1 | _ \<Rightarrow> 0),
     k_data := (\<lambda>h c. if h = [] then [] else (case (fst (last h), c) of
         (Lseek f off w, Read g n) \<Rightarrow> le_bytes (pm (word_of_int off div 8))
       | (Dir (Fseek f off), Dir (Fread g n)) \<Rightarrow> take n (le_bytes (pm (off div 8)))
       | _ \<Rightarrow> []))\<rparr>"

lemma pm_env_pagemap: "pagemap (pm_env pm) pm"
  by (simp add: pagemap_def pm_env_def)

lemma pm_env_page_size: "page_size (pm_env pm) = 4096"
  by (simp add: pm_env_def)

section \<open>Properties\<close>

text \<open>The entry of the page table for a virtual address, and the physical address it gives.\<close>

definition phys_of :: "(u64 \<Rightarrow> u64) \<Rightarrow> u64 \<Rightarrow> u64" where
  "phys_of pm vir = (pm (vir div 4096) AND PFN_MASK) * 4096 + vir mod 4096"

definition closes :: "history \<Rightarrow> bool" where
  "closes h \<longleftrightarrow> (\<exists>fd r d. (Close fd, r, d) \<in> set h)"

lemma vir2phy_run:
  assumes "pagemap e pm" and "page_size e = 4096"
  shows "\<exists>t. mem_addr_vir2phy e vir s =
      Ok (if bit (pm (vir div 4096)) 63 then (0, Some (ucast (phys_of pm vir))) else (-1, None)) t \<and>
    (closes (drop (length (hist s)) (hist t)) \<longleftrightarrow> bit (pm (vir div 4096)) 63)"
proof -
  have pm: "\<not> k_ret e h (Open ''/proc/self/pagemap'' fl m) < 0" "k_ret e h (Lseek f off w) \<noteq> -1"
      "k_ret e (h @ [(Lseek f off SEEK_SET, r, d)]) (Read f 8) = 8"
      "k_data e (h @ [(Lseek f off SEEK_SET, r, d)]) (Read f 8) = le_bytes (pm (word_of_int off div 8))"
    for h fl m f off w r d
    using assms(1) by (auto simp: pagemap_def not_less)
  show ?thesis
    by (cases "bit (pm (vir div 4096)) 63")
      (auto simp: mem_addr_vir2phy_def run_simps ops Let_def assms(2) pm item_offset present_iff
        phys_of_def closes_def simp del: append_assoc)
qed

lemma check_pages_run:
  assumes "pagemap e pm" and "page_size e = 4096"
  shows "\<exists>t. check_pages e addr is s =
    Ok (\<forall>i \<in> set is. bit (pm ((addr + of_nat i * 0x1000) div 4096)) 63) t"
proof (induction "is" arbitrary: s)
  case Nil
  then show ?case by simp
next
  case (Cons i "is")
  obtain t where "mem_addr_vir2phy e (addr + of_nat i * 0x1000) s =
      Ok (if bit (pm ((addr + of_nat i * 0x1000) div 4096)) 63
          then (0, Some (ucast (phys_of pm (addr + of_nat i * 0x1000)))) else (-1, None)) t"
    using vir2phy_run [OF assms] by blast
  with Cons.IH [of t] show ?case by (auto simp: run_simps)
qed

text \<open>C27: \<open>mem_addr_vir2phy\<close> succeeds exactly for a present page and then returns frame times page
  size plus offset, cut to 32 bits; on an absent page it fails and leaves the descriptor it
  opened unclosed.\<close>

theorem mem_addr_vir2phy_correct:
  assumes "pagemap e pm" and "page_size e = 4096"
  shows "\<exists>t. mem_addr_vir2phy e vir s =
      Ok (if bit (pm (vir div 4096)) 63 then (0, Some (ucast (phys_of pm vir))) else (-1, None)) t \<and>
    (closes (drop (length (hist s)) (hist t)) \<longleftrightarrow> bit (pm (vir div 4096)) 63)"
  using vir2phy_run [OF assms] .

theorem mem_addr_vir2phy_correct_witness:
  "\<exists>t. mem_addr_vir2phy (pm_env (\<lambda>_. 0x8000000000000123)) 0x5010 machine0 =
    Ok (0, Some 0x123010) t"
  using mem_addr_vir2phy_correct [where pm = "\<lambda>_. 0x8000000000000123" and vir = "0x5010"
      and s = machine0, OF pm_env_pagemap pm_env_page_size]
  by (auto simp: phys_of_def PFN_MASK_def bit_numeral_rec)

text \<open>\<open>get_page_frame_number_of_address\<close> returns the frame of the address when all 96 pages of
  the buffer are present and \<open>-1\<close> otherwise, although it reads only seven bytes of the item.\<close>

theorem get_page_frame_number_correct:
  assumes "pagemap e pm" and "page_size e = 4096"
  shows "\<exists>t. get_page_frame_number_of_address e addr s =
    Ok (if \<forall>i<96. bit (pm ((addr + of_nat i * 0x1000) div 4096)) 63
        then pm (addr div 4096) AND PFN_MASK else -1) t"
proof -
  have pm: "k_ret e h (Dir (Fopen ''/proc/self/pagemap'')) \<noteq> 0"
      "k_ret e h (Dir (Fseek f off)) = 0"
      "k_data e (h @ [(Dir (Fseek f off), r, d)]) (Dir (Fread f 7)) =
        take 7 (le_bytes (pm (off div 8)))"
    for h f off r d
    using assms(1) by (auto simp: pagemap_def)
  have "\<exists>T. \<forall>u :: 'a machine_scheme. check_pages e addr [0..<96] u =
      Ok (\<forall>i<96. bit (pm ((addr + of_nat i * 0x1000) div 4096)) 63) (T u)"
    using check_pages_run [OF assms, of addr "[0..<96]"]
    by (intro choice allI) (simp add: Ball_def del: upt_Suc)
  then obtain T where T: "check_pages e addr [0..<96] u =
      Ok (\<forall>i<96. bit (pm ((addr + of_nat i * 0x1000) div 4096)) 63) (T u)"
    for u :: "'a machine_scheme" by blast
  show ?thesis
    by (auto simp: get_page_frame_number_of_address_def run_simps ops Let_def assms(2) pm T
        item_offset seven_bytes simp del: append_assoc upt_Suc)
qed

theorem get_page_frame_number_correct_witness:
  "\<exists>t. get_page_frame_number_of_address (pm_env (\<lambda>_. 0x8000000000000123)) 0x5010 machine0 =
    Ok 0x123 t"
  using get_page_frame_number_correct [where pm = "\<lambda>_. 0x8000000000000123" and addr = "0x5010"
      and s = machine0, OF pm_env_pagemap pm_env_page_size]
  by (auto simp: PFN_MASK_def bit_numeral_rec)

end
