(* ===== verification/Udma.thy ===== *)
theory Udma
  imports Ummap
begin

text \<open>
  \<open>udma.c\<close>: the four AXI DMA engines.  A transfer is an \<open>ioctl\<close> on the engine's device that
  fills (or sends) one block of \<open>DMA_TRANS_SIZE\<close> bytes at an offset of the engine's buffer.
  The receive buffer of engine \<open>n\<close> is the memory \<open>rxmem s n\<close>, which the driver of that engine
  fills.  The counters have three elements, as in the C code.
\<close>

record AxiDma =
  dma_name :: string
  dma_path :: string
  dma_num :: int
  dma_fd :: int
  mapped :: u8
  txmem_pbase :: u32
  txmem_vbase :: u64
  txmem_size :: u32
  rxmem_pbase :: u32
  rxmem_vbase :: u64
  rxmem_size :: u32

record udma_state = ugpio_state +
  axidma :: "AxiDma list"
  rxmem :: "nat \<Rightarrow> nat \<Rightarrow> u8"
  aligned_buffer :: u64
  dma_rdable_count :: "u32 list"
  dma_rd_count :: "u32 list"
  dma_writable_count :: "u32 list"
  dma_written_count :: "u32 list"
  gMutexDma :: u8

lemma udma_emit [simp]:
  "axidma (emit c r d s) = axidma s" "rxmem (emit c r d s) = rxmem s"
  "aligned_buffer (emit c r d s) = aligned_buffer s"
  "dma_rdable_count (emit c r d s) = dma_rdable_count s"
  "dma_rd_count (emit c r d s) = dma_rd_count s"
  "dma_writable_count (emit c r d s) = dma_writable_count s"
  "dma_written_count (emit c r d s) = dma_written_count s"
  "gMutexDma (emit c r d s) = gMutexDma s"
  by (simp_all add: emit_def)

lemma udma_bram_upd [simp]:
  "axidma (bram_upd w i v s) = axidma s"
  "rxmem (bram_upd w i v s) = rxmem s"
  "aligned_buffer (bram_upd w i v s) = aligned_buffer s"
  "dma_rdable_count (bram_upd w i v s) = dma_rdable_count s"
  "dma_rd_count (bram_upd w i v s) = dma_rd_count s"
  "dma_writable_count (bram_upd w i v s) = dma_writable_count s"
  "dma_written_count (bram_upd w i v s) = dma_written_count s"
  "gMutexDma (bram_upd w i v s) = gMutexDma s"
  by (simp_all add: bram_upd_def emit_def)

definition DMA_TRANS_SIZE :: nat where "DMA_TRANS_SIZE = 0x8000"
definition BUFFER_SIZE :: nat where "BUFFER_SIZE = 0x200000"

definition axidma_init :: "AxiDma list" where
  "axidma_init =
     [\<lparr>dma_name = ''axidma0'', dma_path = ''/dev/axidma0'', dma_num = 0, dma_fd = 0, mapped = 0,
       txmem_pbase = 0x7F000000, txmem_vbase = 0, txmem_size = 0x100000,
       rxmem_pbase = 0x7F100000, rxmem_vbase = 0, rxmem_size = 0x100000\<rparr>,
      \<lparr>dma_name = ''axidma1'', dma_path = ''/dev/axidma1'', dma_num = 1, dma_fd = 0, mapped = 0,
       txmem_pbase = 0x7F200000, txmem_vbase = 0, txmem_size = 0x100000,
       rxmem_pbase = 0x7F300000, rxmem_vbase = 0, rxmem_size = 0x100000\<rparr>,
      \<lparr>dma_name = ''axidma2'', dma_path = ''/dev/axidma2'', dma_num = 2, dma_fd = 0, mapped = 0,
       txmem_pbase = 0x7F400000, txmem_vbase = 0, txmem_size = 0x100000,
       rxmem_pbase = 0x7F500000, rxmem_vbase = 0, rxmem_size = 0x100000\<rparr>,
      \<lparr>dma_name = ''axidma3'', dma_path = ''/dev/axidma3'', dma_num = 3, dma_fd = 0, mapped = 0,
       txmem_pbase = 0x7F600000, txmem_vbase = 0, txmem_size = 0x100000,
       rxmem_pbase = 0x7F700000, rxmem_vbase = 0, rxmem_size = 0x100000\<rparr>]"

section \<open>Opening and closing the engines\<close>

definition dma_open :: "env \<Rightarrow> string \<Rightarrow> ('m machine_scheme, int) prog" where
  "dma_open e dmaname = syscall e (Open dmaname [O_RDONLY, O_SYNC] 0)"

definition upd_axidma :: "nat \<Rightarrow> (AxiDma \<Rightarrow> AxiDma) \<Rightarrow> ('m udma_state_scheme, unit) prog" where
  "upd_axidma i f = modify (\<lambda>s. s\<lparr>axidma := (axidma s)[i := f (axidma s ! i)]\<rparr>)"

text \<open>
  One iteration of the loop of \<open>dma_init\<close>; \<open>False\<close> is its early return.  The page frame number
  is an \<open>unsigned int\<close>: the 64-bit result is cut to 32 bits, also where it is the error
  value \<open>-1\<close>, which is not checked.
\<close>

definition dma_init_one :: "env \<Rightarrow> nat \<Rightarrow> ('m udma_state_scheme, bool) prog" where
  "dma_init_one e i =
     bindR (upd_axidma i (\<lambda>a. a\<lparr>dma_num := int i\<rparr>)) (\<lambda>_.
     bindR (gets (\<lambda>s. dma_path (axidma s ! i))) (\<lambda>p.
     bindR (dma_open e p) (\<lambda>fd.
     bindR (upd_axidma i (\<lambda>a. a\<lparr>dma_fd := fd\<rparr>)) (\<lambda>_.
     if fd < 0 then ret False else
     bindR (create_buffer e BUFFER_SIZE) (\<lambda>tx.
     bindR (upd_axidma i (\<lambda>a. a\<lparr>txmem_vbase := tx\<rparr>)) (\<lambda>_.
     bindR (get_page_frame_number_of_address e tx) (\<lambda>pfn.
     bindR (sysdo e (Ioctl fd DMA_SA (ucast (ucast pfn :: u32)))) (\<lambda>_.
     bindR (create_buffer e BUFFER_SIZE) (\<lambda>rx.
     bindR (upd_axidma i (\<lambda>a. a\<lparr>rxmem_vbase := rx\<rparr>)) (\<lambda>_.
     bindR (get_page_frame_number_of_address e rx) (\<lambda>pfn'.
     bindR (sysdo e (Ioctl fd DMA_DA (ucast (ucast pfn' :: u32)))) (\<lambda>_.
     ret True))))))))))))"

fun dma_init_loop :: "env \<Rightarrow> nat list \<Rightarrow> ('m udma_state_scheme, int) prog" where
  "dma_init_loop e [] s = bindR (sysdo e (Usleep 50)) (\<lambda>_. ret 0) s"
| "dma_init_loop e (i # is) s =
     bindR (dma_init_one e i) (\<lambda>ok. if ok then dma_init_loop e is else ret (-1)) s"

definition dma_init :: "env \<Rightarrow> ('m udma_state_scheme, int) prog" where
  "dma_init e = dma_init_loop e [0, 1, 2, 3]"

definition dma_release :: "env \<Rightarrow> ('m udma_state_scheme, unit) prog" where
  "dma_release e = seqR
     (map (\<lambda>i. bindR (gets (\<lambda>s. axidma s ! i)) (\<lambda>a. seqR
        [sysdo e (Close (dma_fd a)),
         sysdo e (Mem (Munmap (rxmem_vbase a) (unat (rxmem_size a)))),
         upd_axidma i (\<lambda>a. a\<lparr>mapped := 0\<rparr>)])) [0..<4]
      @ [bindR (gets aligned_buffer) (\<lambda>p. sysdo e (Mem (Free p)))])"

section \<open>Transfers\<close>

text \<open>
  \<open>for (bytes = 0; bytes < len; bytes += DMA_TRANS_SIZE)\<close> from \<open>bytes = bs\<close> on, with an accumulator.
  \<open>bytes\<close> is an \<open>int\<close>: when \<open>len\<close> exceeds \<open>0x7FFF8000\<close> it overflows before it reaches \<open>len\<close>.
\<close>

function for_blocks ::
  "int \<Rightarrow> int \<Rightarrow> (int \<Rightarrow> 'a \<Rightarrow> ('s, 'a) prog) \<Rightarrow> 'a \<Rightarrow> ('s, 'a) prog" where
  "for_blocks len bs f acc s =
     (if bs < len then
        (case f bs acc s of
           Ok acc' s' \<Rightarrow>
             if int_fits (bs + int DMA_TRANS_SIZE) then for_blocks len (bs + int DMA_TRANS_SIZE) f acc' s'
             else Fail Undefined s'
         | Fail a s' \<Rightarrow> Fail a s')
      else Ok acc s)"
  by pat_completeness auto
termination
  by (relation "measure (\<lambda>(len, bs, f, acc, s). nat (len - bs))") (auto simp: DMA_TRANS_SIZE_def)

declare for_blocks.simps [simp del]

definition patch :: "(nat \<Rightarrow> u8) \<Rightarrow> nat \<Rightarrow> bytes \<Rightarrow> nat \<Rightarrow> u8" where
  "patch m off d = (\<lambda>k. if off \<le> k \<and> k < off + length d then d ! (k - off) else m k)"

text \<open>The \<open>n\<close> bytes of a memory from \<open>off\<close> on.\<close>

definition mem_bytes :: "(nat \<Rightarrow> u8) \<Rightarrow> nat \<Rightarrow> nat \<Rightarrow> bytes" where
  "mem_bytes m off n = map (\<lambda>k. m (off + k)) [0..<n]"

definition bump :: "nat \<Rightarrow> u32 list \<Rightarrow> u32 list" where
  "bump n xs = xs[n := xs ! n + 1]"

text \<open>
  One iteration of \<open>dma_ioctl_read\<close>.  The counters of engine 3 lie outside their arrays.  The
  wait for \<open>gMutexDma\<close> ends only when another thread clears it, which does not happen within
  an iteration run on its own.
\<close>

definition dma_ioctl_read_block ::
  "env \<Rightarrow> nat \<Rightarrow> int \<Rightarrow> u64 \<Rightarrow> int \<Rightarrow> int \<Rightarrow> ('m udma_state_scheme, int) prog" where
  "dma_ioctl_read_block e n fd pos bs acc =
     (let offset = pos + word_of_int bs in
      if 2 ^ 63 \<le> sint pos + bs \<or> 3 \<le> n then abort_with Undefined else
      bindR (modify (\<lambda>s. s\<lparr>dma_rdable_count := bump n (dma_rdable_count s)\<rparr>)) (\<lambda>_.
      ifR (\<lambda>s. gMutexDma s \<noteq> 0) (abort_with Hang)
       (bindR (modify (\<lambda>s. s\<lparr>gMutexDma := 1\<rparr>)) (\<lambda>_.
        bindR (syscall_data e (Ioctl fd DMA_RD offset)) (\<lambda>(r, d).
        bindR (modify (\<lambda>s. s\<lparr>rxmem := (rxmem s)(n := patch (rxmem s n) (unat offset) d)\<rparr>)) (\<lambda>_.
        if r = int DMA_TRANS_SIZE then
          bindR (modify (\<lambda>s. s\<lparr>dma_rd_count := bump n (dma_rd_count s), gMutexDma := 0\<rparr>))
            (\<lambda>_. int_add acc (int DMA_TRANS_SIZE))
        else bindR (modify (\<lambda>s. s\<lparr>gMutexDma := 0\<rparr>)) (\<lambda>_. ret acc)))))))"

definition dma_ioctl_read ::
  "env \<Rightarrow> nat \<Rightarrow> int \<Rightarrow> u64 \<Rightarrow> int \<Rightarrow> ('m udma_state_scheme, int) prog" where
  "dma_ioctl_read e n fd pos len = for_blocks len 0 (dma_ioctl_read_block e n fd pos) 0"

definition dma_ioctl_write ::
  "env \<Rightarrow> nat \<Rightarrow> int \<Rightarrow> u64 \<Rightarrow> int \<Rightarrow> ('m udma_state_scheme, int) prog" where
  "dma_ioctl_write e n fd pos len = for_blocks len 0 (\<lambda>bs acc.
     bindR (dma_buf_writable e (int n)) (\<lambda>w.
       if w = 0 then ret acc
       else if 2 ^ 63 \<le> sint pos + bs \<or> 3 \<le> n then abort_with Undefined
       else bindR (modify (\<lambda>s. s\<lparr>dma_writable_count := bump n (dma_writable_count s)\<rparr>)) (\<lambda>_.
         bindR (syscall e (Ioctl fd DMA_WR (pos + word_of_int bs))) (\<lambda>r.
           if r = int DMA_TRANS_SIZE then
             bindR (modify (\<lambda>s. s\<lparr>dma_written_count := bump n (dma_written_count s)\<rparr>))
               (\<lambda>_. int_add acc (int DMA_TRANS_SIZE))
           else ret acc)))) 0"

text \<open>The caller's buffer is the memory \<open>buf\<close>; \<open>dma_read\<close> returns it as it leaves it.\<close>

definition dma_read ::
  "env \<Rightarrow> nat \<Rightarrow> int \<Rightarrow> (nat \<Rightarrow> u8) \<Rightarrow> int \<Rightarrow> ('m udma_state_scheme, int \<times> (nat \<Rightarrow> u8)) prog" where
  "dma_read e n fd buf len = for_blocks len 0 (\<lambda>bs (acc, m).
     bindR (dma_buf_readable e (int n)) (\<lambda>b.
       if b = 0 then ret (acc, m)
       else bindR (syscall_data e (Read fd DMA_TRANS_SIZE)) (\<lambda>(r, d).
         let m' = patch m (nat bs) (take (nat r) d) in
         if r = int DMA_TRANS_SIZE then
           bindR (int_add acc (int DMA_TRANS_SIZE)) (\<lambda>acc'.
             bindR (dma_buf_clear e (int n)) (\<lambda>_. ret (acc', m')))
         else ret (acc, m')))) (0, buf)"

text \<open>\<open>bytes_written\<close> is never updated: \<open>dma_write\<close> returns 0.\<close>

definition dma_write ::
  "env \<Rightarrow> nat \<Rightarrow> int \<Rightarrow> (nat \<Rightarrow> u8) \<Rightarrow> int \<Rightarrow> ('m udma_state_scheme, int) prog" where
  "dma_write e n fd buf len = bindR (for_blocks len 0 (\<lambda>bs _.
     bindR (dma_buf_writable e (int n)) (\<lambda>w.
       if w = 0 then ret ()
       else if 3 \<le> n then abort_with Undefined
       else bindR (modify (\<lambda>s. s\<lparr>dma_writable_count := bump n (dma_writable_count s)\<rparr>)) (\<lambda>_.
         bindR (syscall e (Write fd (mem_bytes buf (nat bs) DMA_TRANS_SIZE))) (\<lambda>r.
           if r = int DMA_TRANS_SIZE then
             modify (\<lambda>s. s\<lparr>dma_written_count := bump n (dma_written_count s)\<rparr>)
           else ret ())))) ()) (\<lambda>_. ret 0)"

definition dma_fwrite :: "env \<Rightarrow> nat \<Rightarrow> int \<Rightarrow> int \<Rightarrow> int \<Rightarrow> ('m udma_state_scheme, int) prog" where
  "dma_fwrite e n dh fd len = bindR (dma_ioctl_read e n dh 0 len) (\<lambda>_. ret 0)"

section \<open>Durations\<close>

text \<open>
  The normalised difference of two \<open>struct timeval\<close> that \<open>calc_duration\<close> (and
  \<open>print_diff_time\<close> of udmabuf.c) computes before converting it to a \<open>double\<close>.
\<close>

definition timeval_diff :: "int \<times> int \<Rightarrow> int \<times> int \<Rightarrow> int \<times> int" where
  "timeval_diff start stop =
     (if snd stop < snd start
      then (fst stop - fst start - 1, snd stop - snd start + 1000 * 1000)
      else (fst stop - fst start, snd stop - snd start))"

section \<open>One block read\<close>

text \<open>The state after one block request, and what it returned.\<close>

definition block_ok :: "env \<Rightarrow> int \<Rightarrow> u64 \<Rightarrow> 'm machine_scheme \<Rightarrow> bool" where
  "block_ok e fd off s \<longleftrightarrow> k_ret e (hist s) (Ioctl fd DMA_RD off) = 0x8000"

definition block_data :: "env \<Rightarrow> int \<Rightarrow> u64 \<Rightarrow> 'm machine_scheme \<Rightarrow> bytes" where
  "block_data e fd off s = k_data e (hist s) (Ioctl fd DMA_RD off)"

definition block_read :: "env \<Rightarrow> nat \<Rightarrow> int \<Rightarrow> u64 \<Rightarrow> 'm udma_state_scheme \<Rightarrow> 'm udma_state_scheme" where
  "block_read e n fd off s =
     emit (Ioctl fd DMA_RD off) (k_ret e (hist s) (Ioctl fd DMA_RD off)) (block_data e fd off s)
       (s\<lparr>dma_rdable_count := bump n (dma_rdable_count s),
          dma_rd_count := if block_ok e fd off s then bump n (dma_rd_count s) else dma_rd_count s,
          rxmem := (rxmem s)(n := patch (rxmem s n) (unat off) (block_data e fd off s)),
          gMutexDma := 0\<rparr>)"

lemma block_read_simps [simp]:
  "hist (block_read e n fd off s) = hist s @ [(Ioctl fd DMA_RD off,
     k_ret e (hist s) (Ioctl fd DMA_RD off), block_data e fd off s)]"
  "bram_ps (block_read e n fd off s) = bram_ps s"
  "gMutexDma (block_read e n fd off s) = 0"
  "axidma (block_read e n fd off s) = axidma s"
  "dma_mode (block_read e n fd off s) = dma_mode s"
  "rxmem (block_read e n fd off s) =
     (rxmem s)(n := patch (rxmem s n) (unat off) (block_data e fd off s))"
  "udma_state.more (block_read e n fd off s) = udma_state.more s"
  by (simp_all add: block_read_def emit_def)

lemma dma_ioctl_read_block_eq:
  assumes "n < 3" and "gMutexDma s = 0" and "sint pos + bs < 2 ^ 63" and "0 \<le> acc" and "acc + 0x8000 < 2 ^ 31"
  shows "dma_ioctl_read_block e n fd pos bs acc s =
    Ok (if block_ok e fd (pos + word_of_int bs) s then acc + 0x8000 else acc)
      (block_read e n fd (pos + word_of_int bs) s)"
  using assms
  by (cases s) (simp add: dma_ioctl_read_block_def block_read_def block_ok_def block_data_def
      run_simps ops Let_def DMA_TRANS_SIZE_def emit_def int_add_def int_fits_def)

text \<open>The steps of the loop over blocks.\<close>

lemma for_blocks_end: "len \<le> bs \<Longrightarrow> for_blocks len bs f acc s = Ok acc s"
  by (simp add: for_blocks.simps)

lemma for_blocks_step:
  assumes "bs < len" and "f bs acc s = Ok acc' s'" and "0 \<le> bs" and "bs + 0x8000 < 2 ^ 31"
  shows "for_blocks len bs f acc s = for_blocks len (bs + 0x8000) f acc' s'"
  using assms by (subst for_blocks.simps) (simp add: DMA_TRANS_SIZE_def int_fits_def)

lemma for_blocks_overflow:
  assumes "bs < len" and "f bs acc s = Ok acc' s'" and "2 ^ 31 \<le> bs + 0x8000"
  shows "for_blocks len bs f acc s = Fail Undefined s'"
  using assms by (subst for_blocks.simps) (simp add: DMA_TRANS_SIZE_def int_fits_def)

text \<open>A request for exactly one block, as the recording threads make it.\<close>

lemma sint_long: "sint (w :: u64) < 2 ^ 63"
  using sint_lt [of w] by simp

lemma sint_low: "unat (w :: u64) < 2 ^ 63 \<Longrightarrow> sint w = int (unat w)"
proof -
  assume "unat w < 2 ^ 63"
  then have "int (unat w) < int (2 ^ 63)" by (simp only: of_nat_less_iff)
  then have "uint w < 2 ^ 63" by simp
  then have "signed_take_bit 63 (uint w) = uint w"
    by (intro signed_take_bit_int_eq_self order_trans [OF _ uint_ge_0]) simp_all
  moreover have "sint w = signed_take_bit 63 (uint w)" unfolding sint_uint by simp
  ultimately show ?thesis by simp
qed

lemma sint_low_less: "unat (w :: u64) + k < 2 ^ 63 \<Longrightarrow> sint w + int k < 2 ^ 63"
proof -
  assume *: "unat w + k < 2 ^ 63"
  then have "sint w = int (unat w)" by (intro sint_low) simp
  moreover have "int (unat w + k) < int (2 ^ 63)" using * by (simp only: of_nat_less_iff)
  ultimately show ?thesis by (simp del: uint_nat of_nat_unat)
qed

lemma dma_ioctl_read_one:
  assumes "n < 3" and "gMutexDma s = 0"
  shows "dma_ioctl_read e n fd pos 0x8000 s =
    Ok (if block_ok e fd pos s then 0x8000 else 0) (block_read e n fd pos s)"
proof -
  have "sint pos + 0 < 2 ^ 63" using sint_long [of pos] by simp
  from dma_ioctl_read_block_eq [OF assms this, of 0 e fd] show ?thesis
    by (simp add: dma_ioctl_read_def for_blocks_step for_blocks_end)
qed

lemma wp_dma_read_one:
  "n < 3 \<Longrightarrow> gMutexDma s = 0 \<Longrightarrow> wp (dma_ioctl_read e n fd pos 0x8000) Q A s =
     Q (if block_ok e fd pos s then 0x8000 else 0) (block_read e n fd pos s)"
  by (simp add: wp_def dma_ioctl_read_one)

lemma patch_before: "k < off \<Longrightarrow> patch m off d k = m k"
  by (simp add: patch_def)

lemma length_mem_bytes [simp]: "length (mem_bytes m off n) = n"
  by (simp add: mem_bytes_def)

lemma nth_mem_bytes: "k < n \<Longrightarrow> mem_bytes m off n ! k = m (off + k)"
  by (simp add: mem_bytes_def)

lemma mem_bytes_0 [simp]: "mem_bytes m off 0 = []"
  by (simp add: mem_bytes_def)

lemma mem_bytes_add: "mem_bytes m off (n + k) = mem_bytes m off n @ mem_bytes m (off + n) k"
  by (rule nth_equalityI) (auto simp: nth_mem_bytes nth_append)

lemma mem_bytes_cong:
  "(\<And>k. off \<le> k \<Longrightarrow> k < off + n \<Longrightarrow> m k = m' k) \<Longrightarrow> mem_bytes m off n = mem_bytes m' off n"
  by (simp add: mem_bytes_def)

lemma mem_bytes_patch: "mem_bytes (patch m off d) off (length d) = d"
  by (rule nth_equalityI) (simp_all add: nth_mem_bytes patch_def)

lemma mem_bytes_patch_before:
  "a + n \<le> off \<Longrightarrow> mem_bytes (patch m off d) a n = mem_bytes m a n"
  by (rule mem_bytes_cong) (simp add: patch_def)

text \<open>Appending a block to the bytes collected so far.\<close>

lemma mem_bytes_patch_append:
  "length d = k \<Longrightarrow> mem_bytes (patch m n d) 0 (n + k) = mem_bytes m 0 n @ d"
  using mem_bytes_patch [of m n d] by (simp add: mem_bytes_add mem_bytes_patch_before)

section \<open>Properties\<close>

text \<open>The data delivered by the calls made since history length \<open>n\<close>.\<close>

definition delivered :: "nat \<Rightarrow> history \<Rightarrow> bytes" where
  "delivered n h = concat (map (snd \<circ> snd) (drop n h))"

lemma for_blocks_returns:
  assumes "n < 3" and "gMutexDma s = 0" and "0 \<le> acc" and "acc \<le> 0x8000 * int i"
    and "len \<le> 0x8000 * int (i + m)" and "0 < m \<Longrightarrow> 0x8000 * int (i + m) < len + 0x8000"
    and "0x8000 * int (i + m) < 2 ^ 31" and "sint pos + 0x8000 * int (i + m) < 2 ^ 63"
  shows "\<exists>j t. for_blocks len (0x8000 * int i) (dma_ioctl_read_block e n fd pos) acc s
      = Ok (acc + 0x8000 * int j) t \<and>
    j \<le> m \<and> gMutexDma t = 0 \<and> length (hist t) = length (hist s) + m \<and>
    bram_ps t = bram_ps s \<and> udma_state.more t = udma_state.more s"
  using assms(2-)
proof (induction m arbitrary: i acc s)
  case 0
  then show ?case by (auto simp: for_blocks_end intro: exI [of _ 0])
next
  case (Suc m)
  let ?b = "0x8000 * int i" let ?o = "pos + word_of_int ?b"
  let ?acc = "if block_ok e fd ?o s then acc + 0x8000 else acc"
  have step: "dma_ioctl_read_block e n fd pos ?b acc s = Ok ?acc (block_read e n fd ?o s)"
    by (rule dma_ioctl_read_block_eq) (use assms(1) Suc.prems in simp_all)
  have "for_blocks len ?b (dma_ioctl_read_block e n fd pos) acc s
      = for_blocks len (?b + 0x8000) (dma_ioctl_read_block e n fd pos) ?acc (block_read e n fd ?o s)"
    by (rule for_blocks_step [where f = "dma_ioctl_read_block e n fd pos", OF _ step])
      (use Suc.prems in simp_all)
  then have go: "for_blocks len ?b (dma_ioctl_read_block e n fd pos) acc s
      = for_blocks len (0x8000 * int (Suc i)) (dma_ioctl_read_block e n fd pos) ?acc (block_read e n fd ?o s)"
    by (simp add: algebra_simps)
  have "\<exists>j t. for_blocks len (0x8000 * int (Suc i)) (dma_ioctl_read_block e n fd pos) ?acc (block_read e n fd ?o s)
      = Ok (?acc + 0x8000 * int j) t \<and> j \<le> m \<and> gMutexDma t = 0 \<and>
      length (hist t) = length (hist (block_read e n fd ?o s)) + m \<and>
      bram_ps t = bram_ps (block_read e n fd ?o s) \<and> udma_state.more t = udma_state.more (block_read e n fd ?o s)"
    by (rule Suc.IH) (use Suc.prems in simp_all)
  then obtain j t where "for_blocks len (0x8000 * int (Suc i)) (dma_ioctl_read_block e n fd pos) ?acc
        (block_read e n fd ?o s) = Ok (?acc + 0x8000 * int j) t" "j \<le> m" "gMutexDma t = 0"
      "length (hist t) = length (hist s) + Suc m" "bram_ps t = bram_ps s"
      "udma_state.more t = udma_state.more s"
    by auto
  then show ?case unfolding go
    by (intro exI [of _ "if block_ok e fd ?o s then Suc j else j"] exI [of _ t]) simp
qed

text \<open>The bytes at \<open>pos\<close> grow by each delivered block.\<close>

lemma for_blocks_data:
  assumes "n < 3" and "gMutexDma s = 0" and "0 \<le> acc" and "acc \<le> 0x8000 * int i"
    and ok: "\<And>h off. k_ret e h (Ioctl fd DMA_RD off) = 0x8000"
    and len: "\<And>h off. length (k_data e h (Ioctl fd DMA_RD off)) = 0x8000"
    and "0 < m \<Longrightarrow> 0x8000 * int (i + m) < len + 0x8000" and "0x8000 * int (i + m) < 2 ^ 31"
    and "unat pos + 0x8000 * (i + m) < 2 ^ 63"
  shows "\<exists>t. for_blocks len (0x8000 * int i) (dma_ioctl_read_block e n fd pos) acc s
      = for_blocks len (0x8000 * int (i + m)) (dma_ioctl_read_block e n fd pos) (acc + 0x8000 * int m) t \<and>
    gMutexDma t = 0 \<and> length (hist t) = length (hist s) + m \<and>
    (\<forall>k < unat pos + 0x8000 * i. rxmem t n k = rxmem s n k) \<and>
    mem_bytes (rxmem t n) (unat pos + 0x8000 * i) (0x8000 * m)
      = delivered (length (hist s)) (hist t) \<and> (\<exists>h. hist t = hist s @ h)"
  using assms(2-4,7-)
proof (induction m arbitrary: i acc s)
  case 0
  then show ?case by (intro exI [of _ s]) (simp add: delivered_def)
next
  case (Suc m)
  let ?f = "dma_ioctl_read_block e n fd pos"
  let ?b = "0x8000 * int i" let ?o = "pos + word_of_int ?b"
  let ?d = "block_data e fd ?o s"
  let ?p = "unat pos + 0x8000 * i"
  have "word_of_int ?b = (of_nat (0x8000 * i) :: u64)" by simp
  moreover have "unat (of_nat (0x8000 * i) :: u64) = 0x8000 * i"
    using Suc.prems(6) by (simp only: unat_of_nat) simp
  ultimately have "unat (word_of_int ?b :: u64) = 0x8000 * i" by (simp only:)
  then have off: "unat ?o = ?p" using Suc.prems(6) by (simp add: unat_word_ariths)
  have "unat pos + 0x8000 * i < 2 ^ 63" using Suc.prems(6) by simp
  then have "sint pos + ?b < 2 ^ 63" using sint_low_less [of pos "0x8000 * i"] by simp
  then have step: "?f ?b acc s = Ok (acc + 0x8000) (block_read e n fd ?o s)"
    using assms(1) Suc.prems(1,2,3,5) by (simp add: dma_ioctl_read_block_eq block_ok_def ok)
  have "for_blocks len ?b ?f acc s = for_blocks len (?b + 0x8000) ?f (acc + 0x8000) (block_read e n fd ?o s)"
    by (rule for_blocks_step [where f = ?f, OF _ step]) (use Suc.prems in simp_all)
  then have go: "for_blocks len ?b ?f acc s
      = for_blocks len (0x8000 * int (Suc i)) ?f (acc + 0x8000) (block_read e n fd ?o s)"
    by (simp add: algebra_simps)
  have ld: "length ?d = 0x8000" by (simp add: block_data_def len)
  obtain t h where t: "for_blocks len (0x8000 * int (Suc i)) ?f (acc + 0x8000) (block_read e n fd ?o s)
      = for_blocks len (0x8000 * int (Suc i + m)) ?f (acc + 0x8000 + 0x8000 * int m) t"
      "gMutexDma t = 0" "length (hist t) = length (hist s) + Suc m"
    and keep: "\<forall>k < unat pos + 0x8000 * Suc i. rxmem t n k = rxmem (block_read e n fd ?o s) n k"
    and rest: "mem_bytes (rxmem t n) (unat pos + 0x8000 * Suc i) (0x8000 * m)
      = delivered (length (hist s) + 1) (hist t)"
    and h: "hist t = hist (block_read e n fd ?o s) @ h"
    using Suc.IH [of "block_read e n fd ?o s" "acc + 0x8000" "Suc i"] Suc.prems by auto
  have "mem_bytes (rxmem t n) ?p 0x8000 = mem_bytes (patch (rxmem s n) ?p ?d) ?p 0x8000"
    using keep off by (intro mem_bytes_cong) simp
  then have first: "mem_bytes (rxmem t n) ?p 0x8000 = ?d"
    using mem_bytes_patch [of "rxmem s n" ?p ?d] ld by simp
  have "delivered (length (hist s)) (hist t) = ?d @ delivered (length (hist s) + 1) (hist t)"
    by (simp add: delivered_def h)
  moreover have "mem_bytes (rxmem t n) ?p (0x8000 * Suc m)
      = mem_bytes (rxmem t n) ?p 0x8000 @ mem_bytes (rxmem t n) (unat pos + 0x8000 * Suc i) (0x8000 * m)"
    using mem_bytes_add [of "rxmem t n" ?p "0x8000" "0x8000 * m"] by (simp add: algebra_simps)
  ultimately have data: "mem_bytes (rxmem t n) ?p (0x8000 * Suc m)
      = delivered (length (hist s)) (hist t)"
    using first rest by simp
  have below: "\<forall>k < ?p. rxmem t n k = rxmem s n k"
    using keep off by (simp add: patch_before)
  have "for_blocks len ?b ?f acc s = for_blocks len (0x8000 * int (i + Suc m)) ?f (acc + 0x8000 * int (Suc m)) t"
    unfolding go t(1) by (simp add: algebra_simps)
  moreover have "\<exists>h. hist t = hist s @ h" using h by simp
  ultimately show ?case using t(2,3) data below by blast
qed

text \<open>The number of blocks that are started for \<open>len\<close> bytes.\<close>

lemma blocks_bounds:
  assumes "m = nat ((len + 0x7FFF) div 0x8000)"
  shows "len \<le> 0x8000 * int m" and "0 < m \<Longrightarrow> 0x8000 * int m < len + 0x8000"
    and "len \<le> 0x7FFF8000 \<Longrightarrow> 0x8000 * int m < 2 ^ 31" and "0x7FFF8000 < len \<Longrightarrow> 0x10000 \<le> m"
proof -
  show "len \<le> 0x8000 * int m" "0 < m \<Longrightarrow> 0x8000 * int m < len + 0x8000" using assms by linarith+
  show "len \<le> 0x7FFF8000 \<Longrightarrow> 0x8000 * int m < 2 ^ 31" using assms by simp linarith
  show "0x7FFF8000 < len \<Longrightarrow> 0x10000 \<le> m" using assms by linarith
qed

text \<open>\<open>dma_ioctl_read\<close> on an engine with counters returns, with the lock released, after
  one request per started block of \<open>len\<close>; the result is a whole number of blocks and not
  larger than \<open>len\<close> rounded up.\<close>

theorem dma_ioctl_read_returns:
  assumes "n < 3" and "gMutexDma s = 0" and "len \<le> 0x7FFF8000" and m: "m = nat ((len + 0x7FFF) div 0x8000)"
    and "sint pos + 0x8000 * int m < 2 ^ 63"
  shows "\<exists>j t. dma_ioctl_read e n fd pos len s = Ok (0x8000 * int j) t \<and>
    j \<le> m \<and> gMutexDma t = 0 \<and> length (hist t) = length (hist s) + m \<and>
    bram_ps t = bram_ps s \<and> udma_state.more t = udma_state.more s"
  using for_blocks_returns [of n s 0 0 len m pos e fd] assms blocks_bounds [OF m]
  by (simp add: dma_ioctl_read_def)

definition udma0 :: udma_state where
  "udma0 = \<lparr>hist = [], bram_ps = (\<lambda>_. 0), bram_vptr = (\<lambda>_. 0), index_aligned_buffer = 0,
     dma_mode = 0, axidma = axidma_init, rxmem = (\<lambda>_ _. 0), aligned_buffer = 0,
     dma_rdable_count = [0, 0, 0], dma_rd_count = [0, 0, 0], dma_writable_count = [0, 0, 0],
     dma_written_count = [0, 0, 0], gMutexDma = 0\<rparr>"

lemma udma0_simps [simp]: "gMutexDma udma0 = 0" "hist udma0 = []" "bram_ps udma0 = (\<lambda>_. 0)"
  by (simp_all add: udma0_def)

theorem dma_ioctl_read_returns_witness:
  "\<exists>j t. dma_ioctl_read env0 1 3 0 0x18000 udma0 = Ok (0x8000 * int j) t \<and> j \<le> 3 \<and>
    length (hist t) = 3 \<and> gMutexDma t = 0"
proof -
  have m: "(3 :: nat) = nat ((0x18000 + 0x7FFF) div 0x8000)" by simp
  have p: "sint (0 :: u64) + 0x8000 * int 3 < 2 ^ 63" by simp
  have "(1 :: nat) < 3" "(0x18000 :: int) \<le> 0x7FFF8000" by simp_all
  from dma_ioctl_read_returns [OF this(1) udma0_simps(1) this(2) m p, of env0 3]
  obtain j t where "dma_ioctl_read env0 1 3 0 0x18000 udma0 = Ok (0x8000 * int j) t" "j \<le> 3"
      "gMutexDma t = 0" "length (hist t) = length (hist udma0) + 3"
    by blast
  then show ?thesis by (intro exI [of _ j] exI [of _ t]) simp
qed

text \<open>A driver that completes every read request on \<open>fd\<close>.\<close>

definition dma_ready :: "env \<Rightarrow> int \<Rightarrow> bool" where
  "dma_ready e fd \<longleftrightarrow> (\<forall>h off. k_ret e h (Ioctl fd DMA_RD off) = 0x8000 \<and>
     length (k_data e h (Ioctl fd DMA_RD off)) = 0x8000)"

text \<open>C25: when every request completes, \<open>dma_ioctl_read\<close> returns \<open>len\<close> rounded up to whole blocks,
  and the receive buffer from \<open>pos\<close> on holds exactly the delivered blocks in order, with
  everything below \<open>pos\<close> unchanged, provided \<open>len\<close> is at most \<open>0x7FFF8000\<close>; for a larger \<open>len\<close> its
  \<open>int\<close> counters overflow.\<close>

theorem dma_ioctl_read_data:
  assumes "n < 3" and "gMutexDma s = 0" and "dma_ready e fd"
    and m: "m = nat ((len + 0x7FFF) div 0x8000)" and "unat pos + 0x8000 * m < 2 ^ 63"
  shows "if len \<le> 0x7FFF8000
    then \<exists>t. dma_ioctl_read e n fd pos len s = Ok (0x8000 * int m) t \<and>
      (\<forall>k < unat pos. rxmem t n k = rxmem s n k) \<and>
      mem_bytes (rxmem t n) (unat pos) (0x8000 * m) = delivered (length (hist s)) (hist t)
    else \<exists>t. dma_ioctl_read e n fd pos len s = Fail Undefined t"
proof (cases "len \<le> 0x7FFF8000")
  case True
  with for_blocks_data [of n s 0 0 e fd m len pos] assms(1-3,5) blocks_bounds [OF m] show ?thesis
    by (auto simp: dma_ioctl_read_def dma_ready_def for_blocks_end)
next
  case False
  let ?f = "dma_ioctl_read_block e n fd pos"
  have big: "0x10000 \<le> m" using False blocks_bounds(4) [OF m] by simp
  then obtain t where t: "for_blocks len 0 ?f 0 s = for_blocks len 0x7FFF8000 ?f 0x7FFF8000 t" "gMutexDma t = 0"
    using for_blocks_data [of n s 0 0 e fd "0xFFFF" len pos] assms(1-3,5) False by (auto simp: dma_ready_def)
  have "unat pos + 0x7FFF8000 < 2 ^ 63" using assms(5) big by simp
  then have "sint pos + 0x7FFF8000 < 2 ^ 63" using sint_low_less [of pos "0x7FFF8000"] by simp
  then have "\<exists>u. ?f 0x7FFF8000 0x7FFF8000 t = Fail Undefined u"
    using assms(1,3) t(2)
    by (simp add: dma_ioctl_read_block_def run_simps ops Let_def DMA_TRANS_SIZE_def int_add_def int_fits_def
        dma_ready_def)
  then obtain u where "?f 0x7FFF8000 0x7FFF8000 t = Fail Undefined u" ..
  then have "for_blocks len 0x7FFF8000 ?f 0x7FFF8000 t = Fail Undefined u"
    using False by (subst for_blocks.simps) simp
  with False t(1) show ?thesis by (simp add: dma_ioctl_read_def)
qed

lemma dma_ready_env0: "dma_ready env0 fd"
  by (simp add: dma_ready_def)

theorem dma_ioctl_read_data_witness:
  "\<exists>t. dma_ioctl_read env0 1 3 0x8000 0x10000 udma0 = Ok 0x10000 t \<and>
    mem_bytes (rxmem t 1) 0x8000 0x10000 = delivered 0 (hist t)"
proof -
  have m: "(2 :: nat) = nat ((0x10000 + 0x7FFF) div 0x8000)" by simp
  have p: "unat (0x8000 :: u64) + 0x8000 * 2 < 2 ^ 63" by simp
  have "(1 :: nat) < 3" by simp
  from dma_ioctl_read_data [OF this udma0_simps(1) dma_ready_env0 m p, of 3]
  obtain t where "dma_ioctl_read env0 1 3 0x8000 0x10000 udma0 = Ok (0x8000 * int 2) t"
      "mem_bytes (rxmem t 1) (unat (0x8000 :: u64)) (0x8000 * 2) =
        delivered (length (hist udma0)) (hist t)"
    by auto
  then show ?thesis by (intro exI [of _ t]) simp
qed

section \<open>The lock around the request\<close>

text \<open>
  \<open>gMutexDma\<close> as the threads see it: \<open>while (gMutexDma > 0)\<close>, \<open>gMutexDma = 1\<close>, the \<open>ioctl\<close> and
  \<open>gMutexDma = 0\<close> are separate steps, and another thread may run between any two of them.
\<close>

datatype lock_pc = Outside | Testing | Entering | Transfer | Leaving

record lock_sys =
  mutex :: u8
  pc :: "nat \<Rightarrow> lock_pc"

definition lock_init :: lock_sys where
  "lock_init = \<lparr>mutex = 0, pc = (\<lambda>_. Outside)\<rparr>"

inductive lock_step :: "lock_sys \<Rightarrow> lock_sys \<Rightarrow> bool" where
  call: "pc s i = Outside \<Longrightarrow> lock_step s (s\<lparr>pc := (pc s)(i := Testing)\<rparr>)"
| spin: "pc s i = Testing \<Longrightarrow> mutex s > 0 \<Longrightarrow> lock_step s s"
| pass: "pc s i = Testing \<Longrightarrow> \<not> mutex s > 0 \<Longrightarrow> lock_step s (s\<lparr>pc := (pc s)(i := Entering)\<rparr>)"
| take: "pc s i = Entering \<Longrightarrow> lock_step s (s\<lparr>mutex := 1, pc := (pc s)(i := Transfer)\<rparr>)"
| complete: "pc s i = Transfer \<Longrightarrow> lock_step s (s\<lparr>pc := (pc s)(i := Leaving)\<rparr>)"
| release: "pc s i = Leaving \<Longrightarrow> lock_step s (s\<lparr>mutex := 0, pc := (pc s)(i := Outside)\<rparr>)"

inductive lock_reach :: "lock_sys \<Rightarrow> bool" where
  init: "lock_reach lock_init"
| step: "lock_reach s \<Longrightarrow> lock_step s t \<Longrightarrow> lock_reach t"

text \<open>What keeps the waiters alive: a set lock has a holder that will release it.\<close>

definition lock_held :: "lock_sys \<Rightarrow> bool" where
  "lock_held s \<longleftrightarrow> (mutex s \<noteq> 0 \<longrightarrow> (\<exists>i. pc s i = Transfer \<or> pc s i = Leaving))"

lemma lock_step_held: "lock_step s t \<Longrightarrow> lock_held s \<Longrightarrow> lock_held t"
proof (induction rule: lock_step.induct)
  case (call s i)
  then show ?case by (auto simp: lock_held_def) (metis lock_pc.distinct)+
next
  case (pass s i)
  then show ?case by (simp add: lock_held_def word_gt_0)
next
  case (complete s i)
  then show ?case by (auto simp: lock_held_def)
qed (auto simp: lock_held_def)

text \<open>The DMA lock is never left set behind its users: in every reachable state with
  \<open>gMutexDma\<close> set some thread is between taking and releasing it, so a thread that waits always
  waits for one that has still to release the lock.\<close>

theorem dma_lock_has_holder:
  assumes "lock_reach s" and "mutex s \<noteq> 0"
  shows "\<exists>i. pc s i = Transfer \<or> pc s i = Leaving"
proof -
  from assms(1) have "lock_held s"
  proof induction
    case init
    show ?case by (simp add: lock_held_def lock_init_def)
  next
    case (step s t)
    then show ?case by (blast intro: lock_step_held)
  qed
  with assms(2) show ?thesis by (simp add: lock_held_def)
qed

text \<open>The run in which both recording threads pass the test before either sets the lock.\<close>

lemma lock_race_run:
  "lock_reach \<lparr>mutex = 1, pc = (\<lambda>_. Outside)(0 := Transfer, 1 := Transfer)\<rparr>"
proof -
  let ?s = "\<lambda>m a b. \<lparr>mutex = m, pc = (\<lambda>_. Outside)(0 := a, 1 := b)\<rparr>"
  have "lock_reach (?s 0 Outside Outside)"
    using lock_reach.init by (simp add: lock_init_def fun_upd_idem)
  then have "lock_reach (?s 0 Testing Outside)"
    by (rule lock_reach.step) (use lock_step.call [of "?s 0 Outside Outside" 0] in
        \<open>simp add: fun_upd_twist\<close>)
  then have "lock_reach (?s 0 Testing Testing)"
    by (rule lock_reach.step) (use lock_step.call [of "?s 0 Testing Outside" 1] in simp)
  then have "lock_reach (?s 0 Entering Testing)"
    by (rule lock_reach.step) (use lock_step.pass [of "?s 0 Testing Testing" 0] in
        \<open>simp add: fun_upd_twist\<close>)
  then have "lock_reach (?s 0 Entering Entering)"
    by (rule lock_reach.step) (use lock_step.pass [of "?s 0 Entering Testing" 1] in simp)
  then have "lock_reach (?s 1 Transfer Entering)"
    by (rule lock_reach.step) (use lock_step.take [of "?s 0 Entering Entering" 0] in
        \<open>simp add: fun_upd_twist\<close>)
  then show ?thesis
    by (rule lock_reach.step) (use lock_step.take [of "?s 1 Transfer Entering" 1] in simp)
qed

theorem dma_lock_has_holder_witness:
  "\<exists>s i. lock_reach s \<and> mutex s \<noteq> 0 \<and> (pc s i = Transfer \<or> pc s i = Leaving)"
  using dma_lock_has_holder [OF lock_race_run] lock_race_run
  by (intro exI [of _ "\<lparr>mutex = 1, pc = (\<lambda>_. Outside)(0 := Transfer, 1 := Transfer)\<rparr>"]) simp

text \<open>C33: the lock does not exclude: a reachable state has both recording threads inside their
  DMA request at once, because testing and setting \<open>gMutexDma\<close> are two steps.\<close>

theorem dma_lock_not_exclusive:
  "\<exists>s. lock_reach s \<and> pc s 0 = Transfer \<and> pc s 1 = Transfer"
  using lock_race_run by force

end
