(* ===== verification/Serport.thy ===== *)
theory Serport
  imports History
begin

text \<open>
  \<open>serport.c\<close>: the serial line of the heartbeat.  The flags are the bit values of the Linux
  \<open>termios\<close> interface; the speed is kept as the \<open>B\<close> constant passed to \<open>cfsetispeed\<close> and
  \<open>cfsetospeed\<close>.
\<close>

definition CLOCAL :: u32 where "CLOCAL = 0x800"
definition CREAD :: u32 where "CREAD = 0x80"
definition CRTSCTS :: u32 where "CRTSCTS = 0x80000000"
definition CSIZE :: u32 where "CSIZE = 0x30"
definition CS5 :: u32 where "CS5 = 0"
definition CS6 :: u32 where "CS6 = 0x10"
definition CS7 :: u32 where "CS7 = 0x20"
definition CS8 :: u32 where "CS8 = 0x30"
definition PARENB :: u32 where "PARENB = 0x100"
definition PARODD :: u32 where "PARODD = 0x200"
definition CSTOPB :: u32 where "CSTOPB = 0x40"
definition INPCK :: u32 where "INPCK = 0x10"
definition ICRNL :: u32 where "ICRNL = 0x100"
definition IXON :: u32 where "IXON = 0x400"
definition IXOFF :: u32 where "IXOFF = 0x1000"
definition IXANY :: u32 where "IXANY = 0x800"
definition OPOST :: u32 where "OPOST = 1"
definition ICANON :: u32 where "ICANON = 2"
definition ECHO :: u32 where "ECHO = 8"
definition ECHOE :: u32 where "ECHOE = 0x10"
definition ISIG :: u32 where "ISIG = 1"

lemmas termios_flags = CLOCAL_def CREAD_def CRTSCTS_def CSIZE_def CS5_def CS6_def CS7_def CS8_def
  PARENB_def PARODD_def CSTOPB_def INPCK_def ICRNL_def IXON_def IXOFF_def IXANY_def OPOST_def
  ICANON_def ECHO_def ECHOE_def ISIG_def

section \<open>Line settings\<close>

text \<open>The parallel arrays \<open>name_arr\<close> and \<open>speed_arr\<close>.\<close>

definition speed_arr :: "(int \<times> nat) list" where
  "speed_arr = [(115200, 0x1002), (19200, 0xe), (9600, 0xd), (4800, 0xc), (2400, 0xb),
     (1200, 0x9), (300, 0x7)]"

definition set_speed :: "int \<Rightarrow> termios \<Rightarrow> termios" where
  "set_speed speed opt = foldl (\<lambda>opt (nm, b).
     if speed = nm then opt\<lparr>c_ispeed := b, c_ospeed := b\<rparr> else opt) opt speed_arr"

definition set_flow :: "int \<Rightarrow> termios \<Rightarrow> termios" where
  "set_flow flow_ctrl opt =
     (if flow_ctrl = 0 then opt\<lparr>c_cflag := c_cflag opt AND NOT CRTSCTS\<rparr>
      else if flow_ctrl = 1 then opt\<lparr>c_cflag := c_cflag opt OR CRTSCTS\<rparr>
      else if flow_ctrl = 2 then opt\<lparr>c_cflag := c_cflag opt OR (IXON OR IXOFF OR IXANY)\<rparr>
      else opt)"

definition set_databits :: "int \<Rightarrow> termios \<Rightarrow> termios option" where
  "set_databits databits opt =
     (let opt = opt\<lparr>c_cflag := c_cflag opt AND NOT CSIZE\<rparr>;
          bits = (\<lambda>b. Some (opt\<lparr>c_cflag := c_cflag opt OR b\<rparr>)) in
      if databits = 5 then bits CS5
      else if databits = 6 then bits CS6
      else if databits = 7 then bits CS7
      else if databits = 8 then bits CS8
      else None)"

definition set_parity :: "char \<Rightarrow> termios \<Rightarrow> termios option" where
  "set_parity parity opt =
     (if parity = CHR ''n'' \<or> parity = CHR ''N'' then
        Some (opt\<lparr>c_cflag := c_cflag opt AND NOT PARENB,
          c_iflag := c_iflag opt AND NOT INPCK AND NOT ICRNL AND NOT IXON\<rparr>)
      else if parity = CHR ''o'' \<or> parity = CHR ''O'' then
        Some (opt\<lparr>c_cflag := c_cflag opt OR (PARODD OR PARENB), c_iflag := c_iflag opt OR INPCK\<rparr>)
      else if parity = CHR ''e'' \<or> parity = CHR ''E'' then
        Some (opt\<lparr>c_cflag := (c_cflag opt OR PARENB) AND NOT PARODD,
          c_iflag := c_iflag opt OR INPCK\<rparr>)
      else if parity = CHR ''s'' \<or> parity = CHR ''S'' then
        Some (opt\<lparr>c_cflag := c_cflag opt AND NOT PARENB AND NOT CSTOPB\<rparr>)
      else None)"

definition set_stopbits :: "int \<Rightarrow> termios \<Rightarrow> termios option" where
  "set_stopbits stopbits opt =
     (if stopbits = 1 then Some (opt\<lparr>c_cflag := c_cflag opt AND NOT CSTOPB\<rparr>)
      else if stopbits = 2 then Some (opt\<lparr>c_cflag := c_cflag opt OR CSTOPB\<rparr>)
      else None)"

text \<open>The flags set before and after the switches; the input flags are cleared with a mask of
  local flags, as in the code.\<close>

definition set_receiver :: "termios \<Rightarrow> termios" where
  "set_receiver opt = opt\<lparr>c_cflag := c_cflag opt OR CLOCAL OR CREAD\<rparr>"

definition set_raw :: "termios \<Rightarrow> termios" where
  "set_raw opt = opt\<lparr>c_oflag := c_oflag opt AND NOT OPOST,
     c_lflag := c_lflag opt AND NOT (ICANON OR ECHO OR ECHOE OR ISIG), c_vtime := 10, c_vmin := 1,
     c_iflag := c_iflag opt AND NOT (ICANON OR ECHO OR ECHOE OR ISIG)\<rparr>"

definition serial_options ::
  "int \<Rightarrow> int \<Rightarrow> int \<Rightarrow> int \<Rightarrow> char \<Rightarrow> termios \<Rightarrow> termios option" where
  "serial_options speed flow_ctrl databits stopbits parity opt =
     (case set_databits databits (set_flow flow_ctrl (set_receiver (set_speed speed opt))) of
        None \<Rightarrow> None
      | Some o1 \<Rightarrow> (case set_parity parity o1 of
          None \<Rightarrow> None
        | Some o2 \<Rightarrow> (case set_stopbits stopbits o2 of
            None \<Rightarrow> None
          | Some o3 \<Rightarrow> Some (set_raw o3))))"

definition serial_set ::
  "env \<Rightarrow> int \<Rightarrow> int \<Rightarrow> int \<Rightarrow> int \<Rightarrow> int \<Rightarrow> char \<Rightarrow> ('m machine_scheme, int) prog" where
  "serial_set e fd speed flow_ctrl databits stopbits parity =
     bindR (gets (\<lambda>s. k_termios e (hist s))) (\<lambda>opt.
     bindR (syscall e (Tty (Tcgetattr fd))) (\<lambda>r.
       if r \<noteq> 0 then ret (-1)
       else case serial_options speed flow_ctrl databits stopbits parity opt of
         None \<Rightarrow> ret (-1)
       | Some opt' \<Rightarrow>
           bindR (sysdo e (Tty (Tcflush fd))) (\<lambda>_.
           bindR (syscall e (Tty (Tcsetattr fd opt'))) (\<lambda>r'.
             if r' \<noteq> 0 then ret (-1) else ret 0))))"

section \<open>Operations\<close>

definition serial_open :: "env \<Rightarrow> string \<Rightarrow> ('m machine_scheme, int) prog" where
  "serial_open e port = syscall e (Open port [O_RDWR, O_NOCTTY, O_NDELAY] 0)"

definition serial_init :: "env \<Rightarrow> int \<Rightarrow> ('m machine_scheme, int) prog" where
  "serial_init e fd = serial_set e fd 115200 0 8 1 (CHR ''N'')"

text \<open>After a timeout \<open>len\<close> is returned without having been assigned.\<close>

definition serial_recv :: "env \<Rightarrow> int \<Rightarrow> nat \<Rightarrow> ('m machine_scheme, int \<times> bytes) prog" where
  "serial_recv e fd data_len =
     bindR (syscall e (Tty (Select (fd + 1) 3))) (\<lambda>fs_sel.
       if fs_sel \<noteq> 0 then
         bindR (syscall_data e (Read fd data_len)) (\<lambda>(len, d). ret (len, take (nat len) d))
       else abort_with Undefined)"

definition serial_send :: "env \<Rightarrow> int \<Rightarrow> bytes \<Rightarrow> ('m machine_scheme, int) prog" where
  "serial_send e fd buf = syscall e (Write fd buf)"

definition serial_close :: "env \<Rightarrow> int \<Rightarrow> ('m machine_scheme, int) prog" where
  "serial_close e fd = bindR (sysdo e (Close fd)) (\<lambda>_. ret 0)"

section \<open>Properties\<close>

text \<open>The line settings a \<open>termios\<close> describes.\<close>

definition eight_n_one :: "termios \<Rightarrow> bool" where
  "eight_n_one opt \<longleftrightarrow> c_cflag opt AND CSIZE = CS8 \<and> c_cflag opt AND PARENB = 0 \<and>
     c_cflag opt AND CSTOPB = 0"

definition raw_line :: "termios \<Rightarrow> bool" where
  "raw_line opt \<longleftrightarrow> c_lflag opt AND (ICANON OR ECHO OR ECHOE OR ISIG) = 0 \<and>
     c_oflag opt AND OPOST = 0 \<and> c_iflag opt AND (ICRNL OR IXON OR INPCK) = 0"

definition line_flags :: u32 where
  "line_flags = CLOCAL OR CREAD OR CRTSCTS OR CSIZE OR PARENB OR CSTOPB"

text \<open>Fields of a flag word: masks that were cleared, set, or left alone.\<close>

lemma flag_eqI: "(\<And>n. n < 32 \<Longrightarrow> bit a n = bit b n) \<Longrightarrow> a = (b :: u32)"
  by (rule bit_eqI) (simp add: possible_bit_word)

lemma flags_cleared:
  fixes k :: u32
  assumes "k AND NOT m = 0"
  shows "(x AND NOT m) AND k = 0"
proof (rule flag_eqI)
  fix n :: nat assume "n < 32"
  moreover have "bit (k AND NOT m) n = bit (0 :: u32) n" using assms by simp
  ultimately show "bit ((x AND NOT m) AND k) n = bit (0 :: u32) n" by (auto simp: bit_simps)
qed

lemma flags_set:
  fixes k :: u32
  assumes "k AND NOT m = 0" and "k AND n = 0"
  shows "(((x AND NOT m) OR c) AND NOT n) AND k = c AND k"
proof (rule flag_eqI)
  fix i :: nat assume "i < 32"
  moreover have "bit (k AND NOT m) i = bit (0 :: u32) i" "bit (k AND n) i = bit (0 :: u32) i"
    using assms by simp_all
  ultimately show "bit ((((x AND NOT m) OR c) AND NOT n) AND k) i = bit (c AND k) i"
    by (auto simp: bit_simps)
qed

lemma flags_kept:
  fixes k :: u32
  assumes "k AND (a OR m OR c OR n) = 0"
  shows "((((x OR a) AND NOT m) OR c) AND NOT n) AND k = x AND k"
proof (rule flag_eqI)
  fix i :: nat assume "i < 32"
  moreover have "bit (k AND (a OR m OR c OR n)) i = bit (0 :: u32) i" using assms by simp
  ultimately show "bit (((((x OR a) AND NOT m) OR c) AND NOT n) AND k) i = bit (x AND k) i"
    by (auto simp: bit_simps)
qed

lemma flags_raised:
  fixes k :: u32
  assumes "k AND NOT a = 0" and "k AND m = 0" and "k AND n = 0"
  shows "((((x OR a) AND NOT m) OR c) AND NOT n) AND k = k"
proof (rule flag_eqI)
  fix i :: nat assume "i < 32"
  moreover have "bit (k AND NOT a) i = bit (0 :: u32) i" "bit (k AND m) i = bit (0 :: u32) i"
      "bit (k AND n) i = bit (0 :: u32) i"
    using assms by simp_all
  ultimately show "bit (((((x OR a) AND NOT m) OR c) AND NOT n) AND k) i = bit k i"
    by (auto simp: bit_simps)
qed

lemma serial_options_8N1:
  "\<exists>o'. serial_options 115200 0 8 1 (CHR ''N'') opt = Some o' \<and> eight_n_one o' \<and> raw_line o' \<and>
    c_cflag o' AND NOT line_flags = c_cflag opt AND NOT line_flags \<and>
    c_cflag o' AND CREAD = CREAD \<and> c_ispeed o' = 0x1002 \<and> c_ospeed o' = 0x1002"
proof -
  let ?c = "((((c_cflag opt OR 0x880) AND NOT 0x80000030) OR 0x30) AND NOT 0x140) :: u32"
  have eq: "serial_options 115200 0 8 1 (CHR ''N'') opt =
    Some (opt\<lparr>c_ispeed := 0x1002, c_ospeed := 0x1002, c_cflag := ?c,
      c_iflag := c_iflag opt AND NOT 0x51B, c_oflag := c_oflag opt AND NOT 1,
      c_lflag := c_lflag opt AND NOT 0x1B, c_vtime := 10, c_vmin := 1\<rparr>)"
    by (cases opt) (simp add: serial_options_def set_speed_def speed_arr_def set_receiver_def
        set_flow_def set_databits_def set_parity_def set_stopbits_def set_raw_def
        termios_flags and.assoc or.assoc)
  have "?c AND 0x30 = 0x30" by (subst flags_set) simp_all
  moreover have "?c AND 0x100 = 0" "?c AND 0x40 = 0" by (rule flags_cleared, simp)+
  moreover have "?c AND NOT line_flags = c_cflag opt AND NOT line_flags"
    by (rule flags_kept) (simp add: line_flags_def termios_flags)
  moreover have "?c AND 0x80 = 0x80" by (rule flags_raised) simp_all
  moreover have "(c_lflag opt AND NOT 0x1B) AND 0x1B = 0" "(c_oflag opt AND NOT 1) AND 1 = 0"
      "(c_iflag opt AND NOT 0x51B) AND 0x510 = 0"
    by (rule flags_cleared, simp)+
  ultimately show ?thesis unfolding eq
    by (simp add: eight_n_one_def raw_line_def termios_flags)
qed

text \<open>C40: \<open>serial_init\<close> returns 0 or -1, and 0 exactly when the kernel reads and sets the line
  attributes; then what it set is a raw line with 8 data bits, no parity and one stop bit at
  115200 baud, receiver on, with the control flags it does not name left as they were.  When
  the attributes cannot be read it sets nothing.\<close>

theorem serial_init_8N1:
  "\<exists>r t. serial_init e fd s = Ok r t \<and> (r = 0 \<or> r = -1) \<and>
    (if k_ret e (hist s) (Tty (Tcgetattr fd)) \<noteq> 0
     then r = -1 \<and> length (hist t) = Suc (length (hist s))
     else \<exists>opt h x. hist t = hist s @ h @ [(Tty (Tcsetattr fd opt), x)] \<and>
       (r = 0 \<longleftrightarrow> fst x = 0) \<and> eight_n_one opt \<and> raw_line opt \<and> c_ispeed opt = 0x1002 \<and>
       c_ospeed opt = 0x1002 \<and> c_cflag opt AND CREAD = CREAD \<and>
       c_cflag opt AND NOT line_flags = c_cflag (k_termios e (hist s)) AND NOT line_flags)"
proof -
  obtain opt where "serial_options 115200 0 8 1 (CHR ''N'') (k_termios e (hist s)) = Some opt"
      "eight_n_one opt" "raw_line opt" "c_ispeed opt = 0x1002" "c_ospeed opt = 0x1002"
      "c_cflag opt AND CREAD = CREAD"
      "c_cflag opt AND NOT line_flags = c_cflag (k_termios e (hist s)) AND NOT line_flags"
    using serial_options_8N1 by blast
  then show ?thesis
    by (simp add: serial_init_def serial_set_def run_simps ops)
qed

text \<open>Settings outside the documented ranges are refused with -1 before anything is sent to the
  line.\<close>

theorem serial_set_refuses:
  assumes "databits \<notin> {5..8} \<or> parity \<notin> set ''nNoOeEsS'' \<or> stopbits \<notin> {1, 2}"
  shows "\<exists>t. serial_set e fd speed flow_ctrl databits stopbits parity s = Ok (-1) t \<and>
    hist t = hist s @ [(Tty (Tcgetattr fd), k_ret e (hist s) (Tty (Tcgetattr fd)),
      k_data e (hist s) (Tty (Tcgetattr fd)))]"
proof -
  have d: "set_databits databits opt = None" if "databits \<notin> {5..8}" for opt
    using that by (auto simp: set_databits_def Let_def)
  have p: "set_parity parity opt = None" if "parity \<notin> set ''nNoOeEsS''" for opt
    using that by (simp add: set_parity_def)
  have b: "set_stopbits stopbits opt = None" if "stopbits \<notin> {1, 2}" for opt
    using that by (simp add: set_stopbits_def)
  have "serial_options speed flow_ctrl databits stopbits parity opt = None" for opt
    using assms by (elim disjE) (simp_all add: serial_options_def d p b split: option.split)
  then show ?thesis by (simp add: serial_set_def run_simps ops)
qed

theorem serial_set_refuses_witness:
  "\<exists>t. serial_set env0 3 9600 0 9 1 (CHR ''N'') machine0 = Ok (-1) t \<and> length (hist t) = 1"
  using serial_set_refuses [of 9 "CHR ''N''" 1 env0 3 9600 0 machine0]
  by (auto simp: machine0_def)

end
