(* ===== verification/Store.thy ===== *)
theory Store
  imports Udma Serport
begin

text \<open>
  \<open>store.c\<close>, shared part: the globals of the recorder, the locals of its threads, the names
  of the record files, and the control loop that slices the recording.  The recording
  threads themselves are in the theories Store_Mn, Store_Ls and Store_Sy.

  The locals of a thread are a field of the state.  Files are numbered by unbounded integers
  (the code uses \<open>int\<close>).  The rows of \<open>file_name_all\<close> and the names of files are strings; a
  \<open>sprintf\<close> that does not fit its array is undefined.  The flags in BRAM words 18 to 24 lie in
  the PS half and are read as memory.
\<close>

text \<open>Locals of \<open>chan_recv_routine\<close>.\<close>

record mn_locals =
  mn_file_name :: string
  mn_read_bytes :: u32
  mn_file_read_bytes :: u32
  mn_ret_bytes :: u32
  mn_write_disk_bytes :: u64
  mn_start_time :: "int \<times> int"
  mn_end_time :: "int \<times> int"

text \<open>Locals of \<open>chan1_recv\<close>.\<close>

record ls_locals =
  ls_file_name :: string
  ls_fd :: int
  ls_read_bytes :: u32
  ls_ret_bytes :: u32
  ls_ad_buffer :: bytes
  ls_start_time :: "int \<times> int"
  ls_end_time :: "int \<times> int"

text \<open>Locals of \<open>index_recv_routine\<close>.\<close>

record sy_locals =
  sy_file_name :: string
  sy_fd :: int
  sy_recv_bytes :: u32
  sy_ret_bytes :: u32
  sy_index_buffer :: "nat \<Rightarrow> u8"

text \<open>\<open>struct _axidma_buffer\<close>: only ever cleared.\<close>

record dma_buffer =
  rev_mark :: u8
  rev_num :: u8

record store_state = udma_state +
  chan_slice :: "nat \<Rightarrow> u8"
  chan_slice_alt :: "nat \<Rightarrow> u8"
  chan_stored :: "nat \<Rightarrow> u8"
  chan0_index :: u8
  chan0_index_alt :: u8
  chan0_indexed :: u8
  st_fd :: "nat \<Rightarrow> u32"
  time_bram :: u32
  time_sec :: u32
  time_min :: u32
  time_hor :: u32
  time_day :: u32
  time_mon :: u32
  time_yer :: u32
  file_name_all :: "nat \<Rightarrow> string"
  file_name_sys :: bytes
  zero_mark :: u32
  num_ls :: u32
  num_mn :: u32
  index_count :: u32
  ls_file_num :: int
  mn_file_num :: int
  sy_file_num :: int
  dma_buff :: "nat \<Rightarrow> dma_buffer"
  slice_count :: "nat \<Rightarrow> int"
  data_buffer_begin :: u64
  data_buffer_end :: u64
  mn :: mn_locals
  ls :: ls_locals
  sy :: sy_locals

lemma store_emit [simp]:
  "chan_slice (emit c r d s) = chan_slice s"
  "chan_slice_alt (emit c r d s) = chan_slice_alt s"
  "chan_stored (emit c r d s) = chan_stored s"
  "chan0_index (emit c r d s) = chan0_index s"
  "chan0_index_alt (emit c r d s) = chan0_index_alt s"
  "chan0_indexed (emit c r d s) = chan0_indexed s"
  "st_fd (emit c r d s) = st_fd s"
  "time_bram (emit c r d s) = time_bram s"
  "time_sec (emit c r d s) = time_sec s"
  "time_min (emit c r d s) = time_min s"
  "time_hor (emit c r d s) = time_hor s"
  "time_day (emit c r d s) = time_day s"
  "time_mon (emit c r d s) = time_mon s"
  "time_yer (emit c r d s) = time_yer s"
  "file_name_all (emit c r d s) = file_name_all s"
  "file_name_sys (emit c r d s) = file_name_sys s"
  "zero_mark (emit c r d s) = zero_mark s"
  "num_ls (emit c r d s) = num_ls s"
  "num_mn (emit c r d s) = num_mn s"
  "index_count (emit c r d s) = index_count s"
  "ls_file_num (emit c r d s) = ls_file_num s"
  "mn_file_num (emit c r d s) = mn_file_num s"
  "sy_file_num (emit c r d s) = sy_file_num s"
  "dma_buff (emit c r d s) = dma_buff s"
  "slice_count (emit c r d s) = slice_count s"
  "data_buffer_begin (emit c r d s) = data_buffer_begin s"
  "data_buffer_end (emit c r d s) = data_buffer_end s"
  "mn (emit c r d s) = mn s"
  "ls (emit c r d s) = ls s"
  "sy (emit c r d s) = sy s"
  by (simp_all add: emit_def)

lemma store_bram_upd [simp]:
  "chan_slice (bram_upd w i v s) = chan_slice s"
  "chan_slice_alt (bram_upd w i v s) = chan_slice_alt s"
  "chan_stored (bram_upd w i v s) = chan_stored s"
  "chan0_index (bram_upd w i v s) = chan0_index s"
  "chan0_index_alt (bram_upd w i v s) = chan0_index_alt s"
  "chan0_indexed (bram_upd w i v s) = chan0_indexed s"
  "st_fd (bram_upd w i v s) = st_fd s"
  "time_bram (bram_upd w i v s) = time_bram s"
  "time_sec (bram_upd w i v s) = time_sec s"
  "time_min (bram_upd w i v s) = time_min s"
  "time_hor (bram_upd w i v s) = time_hor s"
  "time_day (bram_upd w i v s) = time_day s"
  "time_mon (bram_upd w i v s) = time_mon s"
  "time_yer (bram_upd w i v s) = time_yer s"
  "file_name_all (bram_upd w i v s) = file_name_all s"
  "file_name_sys (bram_upd w i v s) = file_name_sys s"
  "zero_mark (bram_upd w i v s) = zero_mark s"
  "num_ls (bram_upd w i v s) = num_ls s"
  "num_mn (bram_upd w i v s) = num_mn s"
  "index_count (bram_upd w i v s) = index_count s"
  "ls_file_num (bram_upd w i v s) = ls_file_num s"
  "mn_file_num (bram_upd w i v s) = mn_file_num s"
  "sy_file_num (bram_upd w i v s) = sy_file_num s"
  "dma_buff (bram_upd w i v s) = dma_buff s"
  "slice_count (bram_upd w i v s) = slice_count s"
  "data_buffer_begin (bram_upd w i v s) = data_buffer_begin s"
  "data_buffer_end (bram_upd w i v s) = data_buffer_end s"
  "mn (bram_upd w i v s) = mn s"
  "ls (bram_upd w i v s) = ls s"
  "sy (bram_upd w i v s) = sy s"
  by (simp_all add: bram_upd_def emit_def)

lemma store_block_read [simp]:
  "chan_slice (block_read e n fd off s) = chan_slice s"
  "chan_slice_alt (block_read e n fd off s) = chan_slice_alt s"
  "chan_stored (block_read e n fd off s) = chan_stored s"
  "chan0_index (block_read e n fd off s) = chan0_index s"
  "chan0_index_alt (block_read e n fd off s) = chan0_index_alt s"
  "chan0_indexed (block_read e n fd off s) = chan0_indexed s"
  "st_fd (block_read e n fd off s) = st_fd s"
  "file_name_all (block_read e n fd off s) = file_name_all s"
  "zero_mark (block_read e n fd off s) = zero_mark s"
  "file_name_sys (block_read e n fd off s) = file_name_sys s"
  "ls_file_num (block_read e n fd off s) = ls_file_num s"
  "mn_file_num (block_read e n fd off s) = mn_file_num s"
  "sy_file_num (block_read e n fd off s) = sy_file_num s"
  "mn (block_read e n fd off s) = mn s"
  "ls (block_read e n fd off s) = ls s"
  "sy (block_read e n fd off s) = sy s"
  by (simp_all add: block_read_def emit_def)

text \<open>An operation that leaves the globals alone leaves each of them alone.\<close>

lemma same_globals:
  assumes "machine.more t = machine.more s"
  shows
  "axidma t = axidma s"
  "rxmem t = rxmem s"
  "aligned_buffer t = aligned_buffer s"
  "dma_rdable_count t = dma_rdable_count s"
  "dma_rd_count t = dma_rd_count s"
  "dma_writable_count t = dma_writable_count s"
  "dma_written_count t = dma_written_count s"
  "gMutexDma t = gMutexDma s"
  "chan_slice t = chan_slice s"
  "chan_slice_alt t = chan_slice_alt s"
  "chan_stored t = chan_stored s"
  "chan0_index t = chan0_index s"
  "chan0_index_alt t = chan0_index_alt s"
  "chan0_indexed t = chan0_indexed s"
  "st_fd t = st_fd s"
  "time_bram t = time_bram s"
  "time_sec t = time_sec s"
  "time_min t = time_min s"
  "time_hor t = time_hor s"
  "time_day t = time_day s"
  "time_mon t = time_mon s"
  "time_yer t = time_yer s"
  "file_name_all t = file_name_all s"
  "file_name_sys t = file_name_sys s"
  "zero_mark t = zero_mark s"
  "num_ls t = num_ls s"
  "num_mn t = num_mn s"
  "index_count t = index_count s"
  "ls_file_num t = ls_file_num s"
  "mn_file_num t = mn_file_num s"
  "sy_file_num t = sy_file_num s"
  "dma_buff t = dma_buff s"
  "slice_count t = slice_count s"
  "data_buffer_begin t = data_buffer_begin s"
  "data_buffer_end t = data_buffer_end s"
  "mn t = mn s"
  "ls t = ls s"
  "sy t = sy s"
  using assms by (cases s, cases t, simp)+

abbreviation upd_mn :: "(mn_locals \<Rightarrow> mn_locals) \<Rightarrow> ('m store_state_scheme, unit) prog" where
  "upd_mn f \<equiv> modify (\<lambda>s. s\<lparr>mn := f (mn s)\<rparr>)"

abbreviation upd_ls :: "(ls_locals \<Rightarrow> ls_locals) \<Rightarrow> ('m store_state_scheme, unit) prog" where
  "upd_ls f \<equiv> modify (\<lambda>s. s\<lparr>ls := f (ls s)\<rparr>)"

abbreviation upd_sy :: "(sy_locals \<Rightarrow> sy_locals) \<Rightarrow> ('m store_state_scheme, unit) prog" where
  "upd_sy f \<equiv> modify (\<lambda>s. s\<lparr>sy := f (sy s)\<rparr>)"

section \<open>Constants\<close>

definition MAX_FILE_COUNT :: int where "MAX_FILE_COUNT = 1000000"
definition DMA_SIZE :: int where "DMA_SIZE = 0x8000"
definition DMA_PREREAD :: u32 where "DMA_PREREAD = 0x80"
definition IFD_WRITE_MN :: u32 where "IFD_WRITE_MN = 0x60000"
definition IDX_WRITE_THRESHOLD :: u32 where "IDX_WRITE_THRESHOLD = 0x2000"
definition cyc_mark :: int where "cyc_mark = 128"

text \<open>The macros naming words of BRAM window 1.\<close>

definition STAR_STORE :: nat where "STAR_STORE = 18"
definition FILE_MARK :: nat where "FILE_MARK = 19"
definition SPEED :: nat where "SPEED = 20"
definition LS_STOP_STORE :: nat where "LS_STOP_STORE = 22"
definition MN_STOP_STORE :: nat where "MN_STOP_STORE = 23"
definition SY_STOP_STORE :: nat where "SY_STOP_STORE = 24"

lemmas store_words = STAR_STORE_def FILE_MARK_def SPEED_def LS_STOP_STORE_def MN_STOP_STORE_def
  SY_STOP_STORE_def

text \<open>The open flags and mode of the record files (udma.h).\<close>

definition FLAGS :: "oflag list" where "FLAGS = [O_RDWR, O_CREAT, O_TRUNC, O_DIRECT]"
definition MODE :: nat where "MODE = 448 + 8 + 4 + 1"

section \<open>File and directory names\<close>

text \<open>A \<open>sprintf\<close> of the string \<open>v\<close> into an array of \<open>size\<close> bytes.\<close>

definition sprintf_fits :: "nat \<Rightarrow> string \<Rightarrow> ('s, string) prog" where
  "sprintf_fits sz v = (if length v < sz then ret v else abort_with Undefined)"

text \<open>\<open>"%s20%02x%02x%02x%02x%02x%02x_%d"\<close> of the directory, the time and the file number.\<close>

definition record_name :: "string \<Rightarrow> int \<Rightarrow> 'm store_state_scheme \<Rightarrow> string" where
  "record_name dir n s = dir @ ''20'' @ hex02 (time_yer s) @ hex02 (time_mon s)
     @ hex02 (time_day s) @ hex02 (time_hor s) @ hex02 (time_min s) @ hex02 (time_sec s)
     @ ''_'' @ sdec n"

definition set_times :: "bytes \<Rightarrow> ('m store_state_scheme, unit) prog" where
  "set_times b = modify (\<lambda>s. s\<lparr>time_sec := ucast (b ! 4104), time_min := ucast (b ! 4105),
     time_hor := ucast (b ! 4106), time_day := ucast (b ! 4107), time_mon := ucast (b ! 4108),
     time_yer := ucast (b ! 4109)\<rparr>)"

definition read_time :: "env \<Rightarrow> ('m store_state_scheme, unit) prog" where
  "read_time e =
     bindR (ubram_read e 1 0x2000) (\<lambda>(r, b). seqR
       [modify (\<lambda>s. s\<lparr>time_bram := word_of_int r\<rparr>), set_times b])"

definition gettimeofday :: "env \<Rightarrow> ('m machine_scheme, int \<times> int) prog" where
  "gettimeofday e = bindR (gets (\<lambda>s. k_time e (hist s))) (\<lambda>tv.
     bindR (sysdo e (Time Gettimeofday)) (\<lambda>_. ret tv))"

section \<open>Directories\<close>

text \<open>
  The loop of \<open>CreateDir\<close> over the positions of the path: at every \<open>/\<close> the prefix before it
  is created if it does not exist; a failing \<open>mkdir\<close> is the early return.
\<close>

fun create_dirs :: "env \<Rightarrow> string \<Rightarrow> nat list \<Rightarrow> ('m machine_scheme, int) prog" where
  "create_dirs e p [] s = Ok 0 s"
| "create_dirs e p (i # is) s =
     (if p ! i \<noteq> CHR ''/'' then create_dirs e p is s
      else bindR (syscall e (Access (take i p) 0)) (\<lambda>r.
        if r \<noteq> 0 then
          bindR (syscall e (Mkdir (take i p) 511)) (\<lambda>r'.
            if r' = -1 then ret (-1)
            else bindR (sysdo e (Chmod (take i p) 511)) (\<lambda>_. create_dirs e p is))
        else create_dirs e p is) s)"

definition CreateDir :: "env \<Rightarrow> string \<Rightarrow> ('m machine_scheme, int) prog" where
  "CreateDir e p =
     (if 256 \<le> length p then abort_with Undefined else create_dirs e p [1..<length p])"

lemma wp_create_dirs_Cons:
  "wp (create_dirs e p (i # is)) Q A s =
    (if p ! i \<noteq> CHR ''/'' then wp (create_dirs e p is) Q A s
     else wp (bindR (syscall e (Access (take i p) 0)) (\<lambda>r.
        if r \<noteq> 0 then
          bindR (syscall e (Mkdir (take i p) 511)) (\<lambda>r'.
            if r' = -1 then ret (-1)
            else bindR (sysdo e (Chmod (take i p) 511)) (\<lambda>_. create_dirs e p is))
        else create_dirs e p is)) Q A s)"
  by (simp add: wp_def)

lemma wp_create_dirs: "wp (create_dirs e p is) (\<lambda>_ t. quiet_ext s t) A u" if "quiet_ext s u"
  using that
proof (induction "is" arbitrary: u)
  case Nil
  then show ?case by (simp add: wp_def)
next
  case (Cons i "is")
  then show ?case unfolding wp_create_dirs_Cons by (auto intro!: Cons.IH quiet_ext_emit)
qed

lemma wp_CreateDir:
  "wp (CreateDir e p) (\<lambda>_ t. quiet_ext s t) (\<lambda>a. a = Undefined \<and> 256 \<le> length p) s"
  by (simp add: CreateDir_def wp_create_dirs)

section \<open>Slicing control\<close>

definition wait_slice :: "env \<Rightarrow> ('m store_state_scheme, unit) prog" where
  "wait_slice e = seqR
     [bindR (chan_cut_req e 0) (\<lambda>r. if r = 0 then ret () else seqR
        [chan_cut_ack e 0,
         modify (\<lambda>s. s\<lparr>chan0_index := 1, chan_slice := (chan_slice s)(0 := 1), num_mn := num_mn s + 1\<rparr>)]),
      bindR (chan_cut_req e 1) (\<lambda>r. if r = 0 then ret () else seqR
        [chan_cut_ack e 1,
         modify (\<lambda>s. s\<lparr>chan_slice := (chan_slice s)(1 := 1), num_ls := num_ls s + 1\<rparr>)])]"

text \<open>
  Re-arming channel 0 (after both its recording and its index are stored) and channel 1.
\<close>

definition rearm0 :: "'m store_state_scheme \<Rightarrow> 'm store_state_scheme" where
  "rearm0 s = s\<lparr>chan0_index_alt := 1, chan_slice_alt := (chan_slice_alt s)(0 := 1), chan0_indexed := 0,
     chan_stored := (chan_stored s)(0 := 0), slice_count := (slice_count s)(0 := slice_count s 0 + 1)\<rparr>"

definition rearm1 :: "'m store_state_scheme \<Rightarrow> 'm store_state_scheme" where
  "rearm1 s = s\<lparr>chan_slice_alt := (chan_slice_alt s)(1 := 1), chan_stored := (chan_stored s)(1 := 0),
     slice_count := (slice_count s)(1 := slice_count s 1 + 1)\<rparr>"

definition store_control_enter :: "('m store_state_scheme, unit) prog" where
  "store_control_enter = modify (\<lambda>s. s\<lparr>slice_count := (\<lambda>_. 1)\<rparr>)"

text \<open>One iteration of the loop of \<open>store_control\<close>.\<close>

definition store_control :: "env \<Rightarrow> ('m store_state_scheme, unit) prog" where
  "store_control e = seqR
     [whenR (\<lambda>s. chan0_indexed s \<noteq> 0 \<and> chan_stored s 0 \<noteq> 0) (whenR (\<lambda>s. slice_count s 0 < MAX_FILE_COUNT)
        (bindR (flow_ctrl_req e 0) (\<lambda>r. if r = 0 then ret ()
           else seqR [flow_ctrl_ack e 0, modify rearm0]))),
      whenR (\<lambda>s. chan_stored s 1 \<noteq> 0)
        (whenR (\<lambda>s. slice_count s 1 < MAX_FILE_COUNT) (modify rearm1)),
      sysdo e (Usleep 10),
      wait_slice e]"

section \<open>Start-up and heartbeat\<close>

definition posix_memalign :: "env \<Rightarrow> nat \<Rightarrow> nat \<Rightarrow> ('m machine_scheme, u64 option) prog" where
  "posix_memalign e al sz =
     bindR (syscall_data e (Mem (Memalign al sz))) (\<lambda>(r, d).
       ret (if r = 0 then Some (le_val d) else None))"

definition store_init :: "env \<Rightarrow> ('m store_state_scheme, int) prog" where
  "store_init e = bindR (seqR
     [gpio_init e 80,
      reset_pl e,
      ubram_init e,
      bram_st 1 STAR_STORE 0,
      bram_st 1 19 1,
      modify (\<lambda>s. s\<lparr>dma_buff := (dma_buff s)(1 := \<lparr>rev_mark = 0, rev_num = 0\<rparr>,
        2 := \<lparr>rev_mark = 0, rev_num = 0\<rparr>, 3 := \<lparr>rev_mark = 0, rev_num = 0\<rparr>,
        4 := (dma_buff s 4)\<lparr>rev_mark := 0\<rparr>)\<rparr>),
      sysdo e (Time (Sleep 0)),
      bindR (posix_memalign e (page_size e) 0x3000000) (\<lambda>p. modify (\<lambda>s.
        case p of None \<Rightarrow> s | Some b \<Rightarrow> s\<lparr>data_buffer_begin := b\<rparr>)),
      bindR (posix_memalign e (page_size e) 0x3000000) (\<lambda>p. modify (\<lambda>s.
        case p of None \<Rightarrow> s | Some b \<Rightarrow> s\<lparr>data_buffer_end := b\<rparr>)),
      drop_val (dma_init e),
      use_dma_buf_flag e 0,
      select_frame_length e 0,
      select_frame_count e 3,
      select_data_source e 0,
      check_en e 1,
      enable_data_source e 0]) (\<lambda>_. ret 0)"

definition store_prepare_recv :: "env \<Rightarrow> ('m machine_scheme, int) prog" where
  "store_prepare_recv e = bindR (seqR
     [sysdo e (Net (Pthread_create ''chan0_recv_routine'')),
      sysdo e (Net (Pthread_create ''chan1_recv_routine'')),
      sysdo e (Net (Pthread_create ''index_recv_routine'')),
      sysdo e (Net (Pthread_create ''net_routine''))]) (\<lambda>_. ret 0)"

text \<open>\<open>heartbeat_routine\<close> before its loop (\<open>None\<close> is the return of -1), and one iteration.\<close>

definition heartbeat_open :: "env \<Rightarrow> ('m machine_scheme, int option) prog" where
  "heartbeat_open e = bindR (serial_open e ''/dev/ttyPS1'') (\<lambda>fd.
     if fd < 0 then ret None
     else bindR (serial_init e fd) (\<lambda>r. ret (if r < 0 then None else Some fd)))"

definition heartbeat_beat :: "env \<Rightarrow> int \<Rightarrow> ('m machine_scheme, unit) prog" where
  "heartbeat_beat e fd = seqR
     [drop_val (serial_send e fd (str_bytes ''1'' @ [13, 10])),
      bindR (syscall e (Statfs ''/dev/md127p1'')) (\<lambda>r.
        if r = -1 then drop_val (serial_send e fd (str_bytes ''2'' @ [13, 10])) else ret ()),
      sysdo e (Time (Sleep 10))]"

definition start_heartbeat :: "env \<Rightarrow> ('m machine_scheme, unit) prog" where
  "start_heartbeat e = sysdo e (Net (Pthread_create ''heartbeat_routine''))"

section \<open>What the recording threads rely on\<close>

text \<open>
  What the recording threads rely on: record files can be opened, writes to open files and DMA blocks
  are complete.
\<close>

definition record_opens :: "env \<Rightarrow> bool" where
  "record_opens e \<longleftrightarrow> (\<forall>h p. 0 < k_ret e h (Open p FLAGS MODE) \<and> k_ret e h (Open p FLAGS MODE) < 2 ^ 31)"

definition recorder_env :: "env \<Rightarrow> bool" where
  "recorder_env e \<longleftrightarrow> full_writes e \<and> dma_blocks e \<and> seek_ends e \<and> record_opens e"

lemma sint_fd: "0 \<le> r \<Longrightarrow> r < 2 ^ 31 \<Longrightarrow> sint (word_of_int r :: u32) = r"
  by (simp add: signed_take_bit_int_eq_self signed_of_int)

text \<open>Writing to the open file is complete.\<close>

lemma write_all:
  assumes "recorder_env e" and "fd \<in> open_fds h"
  shows "k_ret e h (Write fd b) = int (length b)"
  using assms by (simp add: recorder_env_def full_writes_def)

section \<open>The initial values of the globals\<close>

definition store0 :: store_state where
  "store0 = \<lparr>hist = [], bram_ps = (\<lambda>_. 0), bram_vptr = (\<lambda>_. 0), index_aligned_buffer = 0,
     dma_mode = 0, axidma = axidma_init, rxmem = (\<lambda>_ _. 0), aligned_buffer = 0,
     dma_rdable_count = [0, 0, 0], dma_rd_count = [0, 0, 0], dma_writable_count = [0, 0, 0],
     dma_written_count = [0, 0, 0], gMutexDma = 0,
     chan_slice = (\<lambda>_. 0), chan_slice_alt = (\<lambda>_. 1), chan_stored = (\<lambda>_. 0), chan0_index = 0,
     chan0_index_alt = 1, chan0_indexed = 0, st_fd = (\<lambda>_. 0), time_bram = 0, time_sec = 0,
     time_min = 0, time_hor = 0, time_day = 0, time_mon = 0, time_yer = 0,
     file_name_all = (\<lambda>_. ''''), file_name_sys = replicate 320 0, zero_mark = 0, num_ls = 1,
     num_mn = 1, index_count = 0, ls_file_num = 0, mn_file_num = 0, sy_file_num = 0,
     dma_buff = (\<lambda>_. \<lparr>rev_mark = 0, rev_num = 0\<rparr>), slice_count = (\<lambda>_. 1),
     data_buffer_begin = 0, data_buffer_end = 0,
     mn = \<lparr>mn_file_name = '''', mn_read_bytes = 0, mn_file_read_bytes = 0, mn_ret_bytes = 0,
       mn_write_disk_bytes = 0, mn_start_time = (0, 0), mn_end_time = (0, 0)\<rparr>,
     ls = \<lparr>ls_file_name = '''', ls_fd = 0, ls_read_bytes = 0, ls_ret_bytes = 0,
       ls_ad_buffer = replicate 0x2000 0, ls_start_time = (0, 0), ls_end_time = (0, 0)\<rparr>,
     sy = \<lparr>sy_file_name = '''', sy_fd = 0, sy_recv_bytes = 0, sy_ret_bytes = 0,
       sy_index_buffer = (\<lambda>_. 0)\<rparr>\<rparr>"

text \<open>A PL that always has data: 1024 units of 32 bytes in every FIFO, every flag raised.\<close>

definition env_on :: env where
  "env_on = env0\<lparr>pl_word := (\<lambda>_ _ _. 0x400)\<rparr>"

lemma env_on_simps [simp]:
  "k_ret env_on = ret0" "k_data env_on = data0" "pl_word env_on h w i = 0x400"
  "k_time env_on h = (0, 0)"
  by (simp_all add: env_on_def)

lemma store0_simps [simp]:
  "hist store0 = []" "bram_ps store0 = (\<lambda>_. 0)" "axidma store0 = axidma_init" "gMutexDma store0 = 0"
  "chan_slice store0 = (\<lambda>_. 0)" "chan_slice_alt store0 = (\<lambda>_. 1)" "chan_stored store0 = (\<lambda>_. 0)"
  "chan0_index store0 = 0" "chan0_index_alt store0 = 1" "chan0_indexed store0 = 0"
  "file_name_all store0 = (\<lambda>_. '''')" "mn_file_num store0 = 0" "ls_file_num store0 = 0"
  "sy_file_num store0 = 0" "mn_read_bytes (mn store0) = 0" "ls_read_bytes (ls store0) = 0"
  "sy_recv_bytes (sy store0) = 0" "slice_count store0 = (\<lambda>_. 1)" "dma_mode store0 = 0"
  by (simp_all add: store0_def)

lemma axidma_init_simps [simp]:
  "dma_num (axidma_init ! 0) = 0" "dma_num (axidma_init ! 1) = 1"
  "dma_fd (axidma_init ! 0) = 0" "dma_fd (axidma_init ! 1) = 0" "length axidma_init = 4"
  by (simp_all add: axidma_init_def)

lemma recorder_env_on: "recorder_env env_on"
  by (simp add: recorder_env_def full_writes_def dma_blocks_def record_opens_def seek_ends_def
      ret0_def)

end
