(* ===== verification/Store_Mn.thy ===== *)
theory Store_Mn
  imports Store
begin

text \<open>
  \<open>chan_recv_routine\<close> of store.c, the thread that records the data of channel 0 (the files
  \<open>.bxsldmn\<close>): one definition for each part of its loop, the loop body composed of them, and
  the invariant of the loop under interference of the other threads.
\<close>

section \<open>The loop body\<close>

text \<open>The stop request (word 23): whatever has not been written yet is dropped.\<close>

definition mn_stop :: "env \<Rightarrow> nat \<Rightarrow> ('m store_state_scheme, unit) prog" where
  "mn_stop e chan_num = seqR
     [sysdo e (Usleep 500),
      whenR (\<lambda>s. zero_mark s = 1 \<and> mn_file_num s = ls_file_num s)
        (bindR (gets (\<lambda>s. mn_file_name (mn s))) (\<lambda>f. sysdo e (Remove f))),
      upd_mn (\<lambda>l. l\<lparr>mn_read_bytes := 0, mn_ret_bytes := 0\<rparr>),
      modify (\<lambda>s. s\<lparr>chan_slice := (chan_slice s)(chan_num := 0),
        chan_stored := (chan_stored s)(chan_num := 1)\<rparr>),
      upd_mn (\<lambda>l. l\<lparr>mn_file_read_bytes := 0, mn_write_disk_bytes := 0\<rparr>),
      bram_st 1 MN_STOP_STORE 0,
      bindR (gets (\<lambda>s. st_fd s chan_num)) (\<lambda>fd. sysdo e (Close (sint fd)))]"

text \<open>
  A new file.  The descriptor is stored in a \<open>uint32_t\<close>, so the test for a failed \<open>open\<close> never
  succeeds; \<open>False\<close> would be its \<open>continue\<close>.
\<close>

definition mn_open :: "env \<Rightarrow> nat \<Rightarrow> ('m store_state_scheme, bool) prog" where
  "mn_open e chan_num =
     bindR (gets (\<lambda>s. file_name_all s (nat (mn_file_num s mod cyc_mark)))) (\<lambda>nm.
     bindR (sprintf_fits 128 (nm @ ''.bxsldmn'')) (\<lambda>f.
     bindR (upd_mn (\<lambda>l. l\<lparr>mn_file_name := f\<rparr>)) (\<lambda>_.
     bindR (modify (\<lambda>s. s\<lparr>mn_file_num := mn_file_num s + 1\<rparr>)) (\<lambda>_.
     bindR (syscall e (Open f FLAGS MODE)) (\<lambda>r.
     bindR (modify (\<lambda>s. s\<lparr>st_fd := (st_fd s)(chan_num := word_of_int r)\<rparr>)) (\<lambda>_.
     ifR (\<lambda>s. st_fd s chan_num < 0) (ret False)
       (bindR (modify (\<lambda>s. s\<lparr>chan_slice_alt := (chan_slice_alt s)(chan_num := 0)\<rparr>)) (\<lambda>_.
        bindR (bram_st 1 FILE_MARK 1) (\<lambda>_.
        bindR (gettimeofday e) (\<lambda>tv.
        bindR (upd_mn (\<lambda>l. l\<lparr>mn_start_time := tv\<rparr>)) (\<lambda>_. ret True)))))))))))"

text \<open>One block from the DMA engine, when the PL holds enough and a file is open.\<close>

definition mn_fetch :: "env \<Rightarrow> nat \<Rightarrow> ('m store_state_scheme, unit) prog" where
  "mn_fetch e chan_num =
     bindR (chan_fifo_count e 0) (\<lambda>n.
       whenR (\<lambda>s. n \<ge> of_nat DMA_TRANS_SIZE - DMA_PREREAD \<and> chan_slice_alt s chan_num = 0)
         (bindR (gets (\<lambda>s. (axidma s ! chan_num, mn_read_bytes (mn s)))) (\<lambda>(a, rb).
          bindR (dma_ioctl_read e (nat (dma_num a)) (dma_fd a) (ucast rb) DMA_SIZE) (\<lambda>r.
          upd_mn (\<lambda>l. l\<lparr>mn_ret_bytes := word_of_int r,
            mn_file_read_bytes := mn_file_read_bytes l + word_of_int r,
            mn_read_bytes := mn_read_bytes l + word_of_int r\<rparr>)))))"

text \<open>Writing the first \<open>n\<close> bytes of the receive buffer to the file.\<close>

definition mn_write :: "env \<Rightarrow> nat \<Rightarrow> nat \<Rightarrow> ('m store_state_scheme, unit) prog" where
  "mn_write e chan_num n =
     bindR (gets (\<lambda>s. (st_fd s chan_num, mem_bytes (rxmem s chan_num) 0 n))) (\<lambda>(fd, d).
       sysdo e (Write (sint fd) d))"

definition mn_flush :: "env \<Rightarrow> nat \<Rightarrow> ('m store_state_scheme, unit) prog" where
  "mn_flush e chan_num =
     whenR (\<lambda>s. mn_read_bytes (mn s) = IFD_WRITE_MN) (seqR
       [whenR (\<lambda>s. chan_slice_alt s chan_num = 0) (mn_write e chan_num (unat IFD_WRITE_MN)),
        upd_mn (\<lambda>l. l\<lparr>mn_read_bytes := 0,
          mn_write_disk_bytes := mn_write_disk_bytes l + ucast IFD_WRITE_MN\<rparr>)])"

text \<open>The cut: the rest of the data, the file closed, the throughput reported to word 20.\<close>

definition mn_cut :: "env \<Rightarrow> nat \<Rightarrow> ('m store_state_scheme, unit) prog" where
  "mn_cut e chan_num = seqR
     [whenR (\<lambda>s. mn_read_bytes (mn s) > 0)
        (bindR (gets (\<lambda>s. mn_read_bytes (mn s))) (\<lambda>rb. seqR
          [mn_write e chan_num (unat rb),
           upd_mn (\<lambda>l. l\<lparr>mn_write_disk_bytes := mn_write_disk_bytes l + ucast rb\<rparr>)])),
      bindR (gets (\<lambda>s. st_fd s chan_num)) (\<lambda>fd. sysdo e (Close (sint fd))),
      bindR (gettimeofday e) (\<lambda>tv. upd_mn (\<lambda>l. l\<lparr>mn_end_time := tv\<rparr>)),
      bindR (gets mn) (\<lambda>l. bram_st 1 SPEED
        (fpu e SPEED (mn_write_disk_bytes l) (timeval_diff (mn_start_time l) (mn_end_time l)))),
      upd_mn (\<lambda>l. l\<lparr>mn_read_bytes := 0, mn_ret_bytes := 0\<rparr>),
      modify (\<lambda>s. s\<lparr>chan_slice := (chan_slice s)(chan_num := 0),
        chan_stored := (chan_stored s)(chan_num := 1)\<rparr>),
      upd_mn (\<lambda>l. l\<lparr>mn_file_read_bytes := 0, mn_write_disk_bytes := 0\<rparr>)]"

definition mn_record :: "env \<Rightarrow> nat \<Rightarrow> ('m store_state_scheme, unit) prog" where
  "mn_record e chan_num =
     bindR (ifR (\<lambda>s. chan_slice_alt s chan_num \<noteq> 0 \<and> bram_ps s FILE_MARK = 0)
        (mn_open e chan_num) (ret True)) (\<lambda>go.
     if go then seqR [mn_fetch e chan_num, mn_flush e chan_num,
       whenR (\<lambda>s. chan_slice s chan_num \<noteq> 0) (mn_cut e chan_num)]
     else ret ())"

definition chan_recv_body :: "env \<Rightarrow> nat \<Rightarrow> ('m store_state_scheme, unit) prog" where
  "chan_recv_body e chan_num = seqR
     [whenR (\<lambda>s. bram_ps s MN_STOP_STORE = 1) (mn_stop e chan_num),
      whenR (\<lambda>s. chan_stored s chan_num = 0) (mn_record e chan_num)]"

text \<open>
  \<open>chan0_recv_routine\<close> before it enters the recording loop: one poll of the flow control
  request; \<open>True\<close> leaves the wait.
\<close>

definition chan0_recv_wait :: "env \<Rightarrow> ('m machine_scheme, bool) prog" where
  "chan0_recv_wait e = bindR (flow_ctrl_req e 0) (\<lambda>r.
     if r \<noteq> 0 then bindR (flow_ctrl_ack e 0) (\<lambda>_. ret True) else ret False)"

definition chan_recv_enter :: "('m store_state_scheme, unit) prog" where
  "chan_recv_enter = upd_mn (\<lambda>l. l\<lparr>mn_file_name := '''', mn_read_bytes := 0,
     mn_file_read_bytes := 0, mn_ret_bytes := 0, mn_write_disk_bytes := 0\<rparr>)"

section \<open>The invariant of the loop\<close>

abbreviation mn_fd :: "'m store_state_scheme \<Rightarrow> int" where
  "mn_fd s \<equiv> sint (st_fd s 0)"

abbreviation mn_dma :: "'m store_state_scheme \<Rightarrow> int" where
  "mn_dma s \<equiv> dma_fd (axidma s ! 0)"

abbreviation mn_pending :: "'m store_state_scheme \<Rightarrow> nat" where
  "mn_pending s \<equiv> unat (mn_read_bytes (mn s))"

definition mn_recording :: "'m store_state_scheme \<Rightarrow> bool" where
  "mn_recording s \<longleftrightarrow> chan_stored s 0 = 0 \<and> chan_slice_alt s 0 = 0"

text \<open>
  The bytes the engine delivered since the file was opened are those in the file followed by
  those still in the receive buffer.
\<close>

definition mn_stream :: "'m store_state_scheme \<Rightarrow> bool" where
  "mn_stream s \<longleftrightarrow> mn_fd s \<in> open_fds (hist s) \<and>
     received (mn_dma s) (mn_fd s) (hist s)
       = written (mn_fd s) (hist s) @ mem_bytes (rxmem s 0) 0 (mn_pending s)"

definition mn_inv_upto :: "nat \<Rightarrow> 'm store_state_scheme \<Rightarrow> bool" where
  "mn_inv_upto n s \<longleftrightarrow> gMutexDma s = 0 \<and> dma_num (axidma s ! 0) = 0 \<and>
     dma_within (mn_dma s) 0x60000 (hist s) \<and> 0x8000 dvd mn_pending s \<and> mn_pending s \<le> n \<and>
     (if mn_recording s then mn_stream s else mn_pending s = 0)"

definition mn_inv :: "'m store_state_scheme \<Rightarrow> bool" where
  "mn_inv s = mn_inv_upto 0x58000 s"

text \<open>
  What the other threads may do between two iterations: they leave the thread's locals, its
  descriptor and its engine alone, and they clear \<open>chan_stored\<close> only together with asking for
  a new file.
\<close>

definition mn_rely :: "'m store_state_scheme \<Rightarrow> 'm store_state_scheme \<Rightarrow> bool" where
  "mn_rely s t \<longleftrightarrow> mn t = mn s \<and> st_fd t 0 = st_fd s 0 \<and> rxmem t 0 = rxmem s 0 \<and>
     axidma t = axidma s \<and> gMutexDma t = 0 \<and>
     (dma_within (mn_dma s) 0x60000 (hist s) \<longrightarrow> dma_within (mn_dma s) 0x60000 (hist t)) \<and>
     (mn_recording t \<longrightarrow> mn_recording s) \<and>
     (mn_recording s \<longrightarrow> mn_recording t \<and>
        (mn_fd s \<in> open_fds (hist s) \<longrightarrow> mn_fd s \<in> open_fds (hist t)) \<and>
        written (mn_fd s) (hist t) = written (mn_fd s) (hist s) \<and>
        received (mn_dma s) (mn_fd s) (hist t) = received (mn_dma s) (mn_fd s) (hist s))"

lemma mn_rely_inv: "mn_inv s \<Longrightarrow> mn_rely s t \<Longrightarrow> mn_inv t"
  by (auto simp: mn_inv_def mn_inv_upto_def mn_rely_def mn_stream_def split: if_splits)

lemma mn_inv_idle:
  assumes "mn_inv s" and "gMutexDma t = gMutexDma s" and "axidma t = axidma s"
    and "mn_pending t = 0"
    and "dma_within (mn_dma s) 0x60000 (hist s) \<Longrightarrow> dma_within (mn_dma s) 0x60000 (hist t)"
    and "\<not> mn_recording t"
  shows "mn_inv t"
  using assms by (auto simp: mn_inv_def mn_inv_upto_def split: if_splits)

lemma wp_mn_stop:
  assumes "mn_inv s"
  shows "wp (mn_stop e 0) (\<lambda>_ t. mn_inv t \<and> chan_stored t 0 = 1) A s"
  by (simp add: mn_stop_def)
    (auto intro!: mn_inv_idle [OF assms] simp: mn_recording_def hist_simps)

definition mn_name :: "'m store_state_scheme \<Rightarrow> string" where
  "mn_name s = file_name_all s (nat (mn_file_num s mod cyc_mark)) @ ''.bxsldmn''"

lemma wp_mn_open:
  assumes "recorder_env e" and "mn_inv s" and "chan_slice_alt s 0 \<noteq> 0"
  shows "wp (mn_open e 0) (\<lambda>v t. v \<and> mn_inv t \<and> chan_stored t 0 = chan_stored s 0 \<and>
      chan_slice t = chan_slice s \<and> chan_slice_alt t 0 = 0)
    (\<lambda>a. a = Undefined \<and> 128 \<le> length (mn_name s)) s"
proof -
  have op: "0 \<le> k_ret e h (Open f FLAGS MODE)" "k_ret e h (Open f FLAGS MODE) < 0x80000000" for h f
    using assms(1) by (auto simp: recorder_env_def record_opens_def intro: less_imp_le)
  show ?thesis using assms(2,3) op
    by (simp add: mn_open_def sprintf_fits_def gettimeofday_def mn_inv_def mn_inv_upto_def
        mn_name_def mn_recording_def mn_stream_def sint_fd hist_simps)
qed

text \<open>The state of the thread after asking the engine for one block.\<close>

lemma mn_block:
  assumes "recorder_env e" and "mn_inv s" and "mn_recording s"
    and n: "n = (if block_ok e (mn_dma s) (ucast (mn_read_bytes (mn s))) s then 0x8000 else 0)"
    and t: "mn_read_bytes (mn t) = mn_read_bytes (mn s) + n"
      "hist t = hist (block_read e 0 (mn_dma s) (ucast (mn_read_bytes (mn s))) s)"
      "gMutexDma t = 0" "axidma t = axidma s" "st_fd t = st_fd s"
      "chan_stored t = chan_stored s" "chan_slice_alt t = chan_slice_alt s"
      "rxmem t = rxmem (block_read e 0 (mn_dma s) (ucast (mn_read_bytes (mn s))) s)"
  shows "mn_inv_upto 0x60000 t"
proof -
  let ?rb = "mn_read_bytes (mn s)" and ?d = "mn_dma s"
  have inv: "0x8000 dvd unat ?rb" "unat ?rb \<le> 0x58000" "mn_stream s" "dma_num (axidma s ! 0) = 0"
      "dma_within ?d 0x60000 (hist s)"
    using assms(2,3) by (simp_all add: mn_inv_def mn_inv_upto_def)
  have off: "unat (ucast ?rb :: u64) = unat ?rb"
    using unsigned_less [of ?rb, where ?'a = nat]
    by (simp add: unsigned_ucast_eq take_bit_nat_eq_self)
  have len: "length (block_data e ?d (ucast ?rb) s) = 0x8000" if "n \<noteq> 0"
    using assms(1) that n
    by (auto simp: recorder_env_def dma_blocks_def block_ok_def block_data_def split: if_splits)
  have nat_rb: "unat (?rb + n) = unat ?rb + unat n"
    using inv(2) n by (auto simp: unat_word_ariths)
  have "mn_stream t"
  proof (cases "n = 0")
    case True
    with n inv(3) show ?thesis
      by (auto simp: mn_stream_def t hist_simps block_ok_def off mem_bytes_patch_before
          split: if_splits)
  next
    case False
    then have n8: "n = 0x8000" using n by (simp split: if_splits)
    with nat_rb have "unat (?rb + 0x8000) = unat ?rb + 0x8000" by simp
    with False n n8 inv(3) show ?thesis
      by (auto simp: mn_stream_def t hist_simps block_ok_def off len
          mem_bytes_patch_append split: if_splits)
  qed
  moreover have "mn_pending t = unat ?rb + unat n" by (simp add: t nat_rb)
  then have "0x8000 dvd mn_pending t" "mn_pending t \<le> 0x60000"
    using inv(1,2) n by (auto split: if_splits)
  moreover have "dma_within ?d 0x60000 (hist t)"
    using inv(2,5) by (simp add: t hist_simps off)
  moreover have "mn_recording t" using assms(3) by (simp add: mn_recording_def t)
  ultimately show ?thesis using inv(4) by (simp add: mn_inv_upto_def t)
qed

text \<open>What fetching and flushing leave alone.\<close>

definition mn_frame :: "'m store_state_scheme \<Rightarrow> 'm store_state_scheme \<Rightarrow> bool" where
  "mn_frame s t \<longleftrightarrow> chan_stored t = chan_stored s \<and> chan_slice t = chan_slice s \<and>
     chan_slice_alt t = chan_slice_alt s \<and> st_fd t = st_fd s \<and> axidma t = axidma s"

lemma wp_mn_fetch:
  assumes "recorder_env e" and "mn_inv s" and "chan_stored s 0 = 0"
  shows "wp (mn_fetch e 0) (\<lambda>_ t. mn_inv_upto 0x60000 t \<and> mn_frame s t) (\<lambda>_. False) s"
proof -
  define s1 where "s1 = emit (BramLd 1 515) (uint (bram_word e 1 515 s)) [] s"
  have s1: "mn_inv s1" "chan_stored s1 0 = 0" "gMutexDma s1 = 0"  "dma_num (axidma s1 ! 0) = 0"
    using assms(2,3)
    by (auto simp: s1_def mn_inv_def mn_inv_upto_def mn_recording_def mn_stream_def hist_simps)
  have frame: "mn_frame s s1" "mn_frame s1 t \<Longrightarrow> mn_frame s t" for t
    by (simp_all add: mn_frame_def s1_def)
  have up: "mn_inv_upto 0x60000 s1" using s1(1) by (auto simp: mn_inv_def mn_inv_upto_def)
  show ?thesis using s1 up frame(1)
    by (auto simp: mn_fetch_def chan_fifo_count_def s1_def [simplified, symmetric] DMA_SIZE_def
        wp_dma_read_one mn_recording_def intro!: mn_block [OF assms(1) s1(1)] frame(2))
      (simp_all add: mn_frame_def)
qed

lemma wp_mn_flush:
  assumes "recorder_env e" and "mn_inv_upto 0x60000 s" and "chan_stored s 0 = 0"
  shows "wp (mn_flush e 0) (\<lambda>_ t. mn_inv t \<and> mn_frame s t) (\<lambda>_. False) s"
proof (cases "mn_read_bytes (mn s) = IFD_WRITE_MN")
  case True
  then have "mn_pending s = 0x60000" by (simp add: IFD_WRITE_MN_def)
  with assms(2) have rec: "mn_recording s" "mn_stream s"
    by (auto simp: mn_inv_upto_def split: if_splits)
  show ?thesis
    using assms(2,3) rec True
    by (simp add: mn_flush_def mn_write_def mn_inv_def mn_inv_upto_def mn_recording_def
        IFD_WRITE_MN_def mn_stream_def mn_frame_def hist_simps write_all [OF assms(1)])
next
  case False
  then have "mn_pending s \<noteq> 0x60000"
    by (simp add: IFD_WRITE_MN_def word_unat_eq_iff)
  moreover have "n \<le> 0x58000" if "0x8000 dvd n" "n \<le> 0x60000" "n \<noteq> 0x60000" for n :: nat
    using that by (auto elim!: dvdE)
  ultimately show ?thesis using assms(2,3) False
    by (simp add: mn_flush_def mn_inv_def mn_inv_upto_def mn_frame_def)
qed

lemma wp_mn_cut:
  assumes "recorder_env e" and "mn_inv s" and "chan_stored s 0 = 0"
  shows "wp (mn_cut e 0) (\<lambda>_ t. mn_inv t \<and> chan_stored t 0 = 1 \<and> chan_slice t 0 = 0 \<and>
    mn_fd t = mn_fd s \<and> mn_dma t = mn_dma s \<and> (mn_recording s \<longrightarrow>
      received (mn_dma s) (mn_fd s) (hist t) = written (mn_fd s) (hist t))) (\<lambda>_. False) s"
  using assms
  by (auto simp: mn_cut_def mn_write_def mn_inv_def mn_inv_upto_def mn_recording_def
        gettimeofday_def mn_stream_def hist_simps write_all [OF assms(1)] word_gt_0)

section \<open>The loop\<close>

text \<open>Fetch, flush and cut, with what a cut leaves in the file.\<close>

definition mn_cut_done :: "'m store_state_scheme \<Rightarrow> 'm store_state_scheme \<Rightarrow> bool" where
  "mn_cut_done s t \<longleftrightarrow> chan_stored t 0 = 1 \<and> chan_slice t 0 = 0 \<and> (mn_recording s \<longrightarrow>
     received (mn_dma s) (mn_fd s) (hist t) = written (mn_fd s) (hist t))"

lemma wp_mn_transfer:
  assumes "recorder_env e" and "mn_inv s" and "chan_stored s 0 = 0"
  shows "wp (seqR [mn_fetch e 0, mn_flush e 0, whenR (\<lambda>s. chan_slice s 0 \<noteq> 0) (mn_cut e 0)])
    (\<lambda>_ t. mn_inv t \<and> (if chan_slice s 0 \<noteq> 0 then mn_cut_done s t else mn_frame s t))
    (\<lambda>_. False) s"
proof -
  have flush: "wp (mn_flush e 0) (\<lambda>_ u. mn_inv u \<and> mn_frame s u) (\<lambda>_. False) t"
    if "mn_inv_upto 0x60000 t" "mn_frame s t" for t :: "'a store_state_scheme"
    by (rule wp_mono [OF wp_mn_flush [OF assms(1) that(1)]])
      (use that(2) assms(3) in \<open>auto simp: mn_frame_def\<close>)
  have cut: "wp (mn_cut e 0) (\<lambda>_ u. mn_inv u \<and> mn_cut_done s u) (\<lambda>_. False) t"
    if "mn_inv t" "mn_frame s t" for t :: "'a store_state_scheme"
    by (rule wp_mono [OF wp_mn_cut [OF assms(1) that(1)]])
      (use that(2) assms(3) in \<open>auto simp: mn_frame_def mn_cut_done_def mn_recording_def\<close>)
  show ?thesis
    by (simp, rule wp_mono [OF wp_mn_fetch [OF assms]], elim conjE,
        rule wp_mono [OF flush]) (auto simp: mn_frame_def intro: wp_mono [OF cut])
qed

lemma wp_mn_record:
  assumes "recorder_env e" and "mn_inv s" and "chan_stored s 0 = 0"
  shows "wp (mn_record e 0) (\<lambda>_ t. mn_inv t \<and>
      (if chan_slice s 0 \<noteq> 0 then mn_recording s \<longrightarrow> mn_cut_done s t
       else mn_recording s \<or> bram_ps s FILE_MARK = 0 \<longrightarrow> mn_recording t))
    (\<lambda>a. a = Undefined \<and> 128 \<le> length (mn_name s)) s"
proof (cases "chan_slice_alt s 0 \<noteq> 0 \<and> bram_ps s FILE_MARK = 0")
  case True
  then have "\<not> mn_recording s" by (simp add: mn_recording_def)
  with True show ?thesis
    using wp_mn_open [OF assms(1,2)] assms(3)
    by (auto simp: mn_record_def mn_recording_def mn_frame_def simp del: wp_statement
        elim!: wp_mono intro!: wp_mono [OF wp_mn_transfer [OF assms(1)]])
next
  case False
  then show ?thesis using assms(3)
    by (auto simp: mn_record_def mn_recording_def mn_frame_def simp del: wp_statement
        split: if_splits intro!: wp_mono [OF wp_mn_transfer [OF assms]])
qed

lemma wp_chan_recv_body:
  assumes "recorder_env e" and "mn_inv s"
  shows "wp (chan_recv_body e 0) (\<lambda>_ t. mn_inv t \<and>
      (bram_ps s MN_STOP_STORE \<noteq> 1 \<and> chan_stored s 0 = 0 \<longrightarrow>
        (if chan_slice s 0 \<noteq> 0 then mn_recording s \<longrightarrow> mn_cut_done s t
         else mn_recording s \<or> bram_ps s FILE_MARK = 0 \<longrightarrow> mn_recording t)))
    (\<lambda>a. a = Undefined \<and> 128 \<le> length (mn_name s)) s"
proof (cases "bram_ps s MN_STOP_STORE = 1")
  case True
  then show ?thesis
    by (auto simp: chan_recv_body_def intro: wp_mono [OF wp_mn_stop [OF assms(2)]])
next
  case False
  then show ?thesis using wp_mn_record [OF assms]
    by (auto simp: chan_recv_body_def assms(2) mn_recording_def elim!: wp_mono)
qed

interpretation mn_loop: rely_loop "chan_recv_body e 0" mn_rely "\<lambda>s. recorder_env e \<and> mn_inv s" for e
  by unfold_locales (auto dest: wp_Ok [OF wp_chan_recv_body] intro: mn_rely_inv)

text \<open>The state in which the thread enters its loop: nothing read, no file open.\<close>

definition mn_begin :: "'m store_state_scheme \<Rightarrow> bool" where
  "mn_begin s \<longleftrightarrow> gMutexDma s = 0 \<and> dma_num (axidma s ! 0) = 0 \<and> mn_pending s = 0 \<and>
     \<not> mn_recording s \<and> dma_within (mn_dma s) 0x60000 (hist s)"

lemma mn_begin_inv: "mn_begin s \<Longrightarrow> mn_inv s"
  by (simp add: mn_begin_def mn_inv_def mn_inv_upto_def)

text \<open>A first iteration, which opens a file and reads one block.\<close>

lemma mn_begin_store0: "mn_begin store0"
  by (simp add: mn_begin_def mn_recording_def dma_within_def)

lemma mn_first:
  "\<exists>t. chan_recv_body env_on 0 store0 = Ok () t \<and> mn_recording t \<and> mn_inv t \<and>
    (\<exists>x. (Ioctl (mn_dma t) DMA_RD 0, x) \<in> set (hist t)) \<and>
    file_name_all t = file_name_all store0"
proof -
  have inv: "mn_inv store0" by (rule mn_begin_inv [OF mn_begin_store0])
  have a: "wp (chan_recv_body env_on 0) (\<lambda>_ t. mn_inv t \<and> mn_recording t) (\<lambda>_. False) store0"
    using wp_chan_recv_body [OF recorder_env_on inv]
    by (rule wp_mono) (simp_all add: mn_name_def)
  have b: "wp (chan_recv_body env_on 0)
      (\<lambda>_ t. (\<exists>x. (Ioctl (mn_dma t) DMA_RD 0, x) \<in> set (hist t)) \<and>
        file_name_all t = file_name_all store0) (\<lambda>_. False) store0"
    by (simp add: chan_recv_body_def mn_record_def mn_open_def sprintf_fits_def gettimeofday_def
        mn_fetch_def chan_fifo_count_def mn_flush_def store_words DMA_SIZE_def wp_dma_read_one
        block_ok_def bram_word_pl DMA_TRANS_SIZE_def DMA_PREREAD_def IFD_WRITE_MN_def)
  show ?thesis using wp_total [OF wp_conj [OF a b]] by (elim exE conjE, intro exI conjI) auto
qed

text \<open>Interference that a run may meet: another thread sets a flag.\<close>

lemma mn_rely_flags:
  assumes "mn_inv s"
  shows "mn_rely s (s\<lparr>chan_slice := f, bram_ps := m\<rparr>)"
  using assms by (simp add: mn_rely_def mn_inv_def mn_inv_upto_def mn_recording_def)

lemma mn_second:
  obtains t where "interleave (chan_recv_body env_on 0) mn_rely store0 t" and "mn_recording t"
    and "mn_inv t" and "chan_slice t = f" and "bram_ps t = m" and "length (mn_name t) < 128"
proof -
  obtain t where t: "chan_recv_body env_on 0 store0 = Ok () t" "mn_recording t" "mn_inv t"
      "file_name_all t = file_name_all store0"
    using mn_first by blast
  let ?u = "t\<lparr>chan_slice := f, bram_ps := m\<rparr>"
  have run: "interleave (chan_recv_body env_on 0) mn_rely store0 ?u"
    using t(1) mn_rely_flags [OF t(3)] by (blast intro: interleave_once interleave.others)
  show thesis
    by (rule that [OF run]) (use t mn_rely_inv [OF t(3) mn_rely_flags [OF t(3)]] in
        \<open>simp_all add: mn_recording_def mn_name_def\<close>)
qed


section \<open>Properties\<close>

text \<open>C1: the recorder of channel 0 loses and duplicates nothing.  However its iterations interleave
  with the other threads, the PL and the kernel, whenever it is recording the bytes the DMA
  engine delivered since the file was opened are exactly the bytes in the file followed by the
  bytes still in its buffer, which are whole blocks, fewer than one flush; when it is not
  recording nothing is pending.\<close>

theorem mn_lossless:
  assumes "recorder_env e" and "mn_begin s" and "interleave (chan_recv_body e 0) mn_rely s t"
  shows "if mn_recording t
    then received (mn_dma t) (mn_fd t) (hist t)
        = written (mn_fd t) (hist t) @ mem_bytes (rxmem t 0) 0 (mn_pending t) \<and>
      mn_fd t \<in> open_fds (hist t) \<and> 0x8000 dvd mn_pending t \<and> mn_pending t < unat IFD_WRITE_MN
    else mn_pending t = 0"
  using mn_loop.interleave_inv [OF assms(3)] mn_begin_inv [OF assms(2)] assms(1)
  by (auto simp: mn_inv_def mn_inv_upto_def mn_stream_def IFD_WRITE_MN_def split: if_splits)

theorem mn_lossless_witness:
  "\<exists>t. interleave (chan_recv_body env_on 0) mn_rely store0 t \<and> mn_recording t \<and>
    received (mn_dma t) (mn_fd t) (hist t)
      = written (mn_fd t) (hist t) @ mem_bytes (rxmem t 0) 0 (mn_pending t)"
proof -
  obtain t where "interleave (chan_recv_body env_on 0) mn_rely store0 t" "mn_recording t"
    by (rule mn_second)
  with mn_lossless [OF recorder_env_on mn_begin_store0 this(1)] show ?thesis by auto
qed

text \<open>Every block the recorder of channel 0 requests fits the receive buffer of its engine.\<close>

theorem mn_dma_in_buffer:
  assumes "recorder_env e" and "mn_begin s" and "interleave (chan_recv_body e 0) mn_rely s t"
    and "(Ioctl (mn_dma t) DMA_RD off, x) \<in> set (hist t)"
  shows "unat off + DMA_TRANS_SIZE \<le> BUFFER_SIZE"
proof -
  have "dma_within (mn_dma t) 0x60000 (hist t)"
    using mn_loop.interleave_inv [OF assms(3)] mn_begin_inv [OF assms(2)] assms(1)
    by (simp add: mn_inv_def mn_inv_upto_def)
  with assms(4) have "unat off + 0x8000 \<le> 0x60000"
    by (auto simp: dma_within_def dest!: bspec)
  then show ?thesis by (simp add: DMA_TRANS_SIZE_def BUFFER_SIZE_def)
qed

theorem mn_dma_in_buffer_witness:
  "\<exists>t x. interleave (chan_recv_body env_on 0) mn_rely store0 t \<and>
    (Ioctl (mn_dma t) DMA_RD 0, x) \<in> set (hist t) \<and> unat (0 :: u64) + DMA_TRANS_SIZE \<le> BUFFER_SIZE"
proof -
  obtain t x where t: "chan_recv_body env_on 0 store0 = Ok () t"
      "(Ioctl (mn_dma t) DMA_RD 0, x) \<in> set (hist t)"
    using mn_first by blast
  have run: "interleave (chan_recv_body env_on 0) mn_rely store0 t"
    using t(1) by (rule interleave_once)
  show ?thesis using mn_dma_in_buffer [OF recorder_env_on mn_begin_store0 run t(2)] run t(2) by blast
qed

text \<open>C11: an iteration that finds a slice request while recording ends the file with everything the
  engine delivered for it in the file, and marks the channel stored.\<close>

theorem mn_cut_complete:
  assumes "recorder_env e" and "mn_begin s" and "interleave (chan_recv_body e 0) mn_rely s t"
    and "mn_recording t" and "chan_slice t 0 \<noteq> 0" and "bram_ps t MN_STOP_STORE \<noteq> 1"
    and "chan_recv_body e 0 t = Ok () u"
  shows "received (mn_dma t) (mn_fd t) (hist u) = written (mn_fd t) (hist u) \<and>
    chan_stored u 0 = 1 \<and> chan_slice u 0 = 0 \<and> mn_pending u = 0"
proof -
  have inv: "mn_inv t"
    using mn_loop.interleave_inv [OF assms(3)] mn_begin_inv [OF assms(2)] assms(1) by blast
  have "mn_inv u \<and> mn_cut_done t u"
    using wp_Ok [OF wp_chan_recv_body [OF assms(1) inv] assms(7)] assms(4,5,6)
    by (simp add: mn_recording_def)
  then show ?thesis using assms(4)
    by (auto simp: mn_cut_done_def mn_inv_def mn_inv_upto_def mn_recording_def)
qed

theorem mn_cut_complete_witness:
  "\<exists>t u. interleave (chan_recv_body env_on 0) mn_rely store0 t \<and> mn_recording t \<and>
    chan_recv_body env_on 0 t = Ok () u \<and>
    received (mn_dma t) (mn_fd t) (hist u) = written (mn_fd t) (hist u)"
proof -
  obtain t where t: "interleave (chan_recv_body env_on 0) mn_rely store0 t" "mn_recording t"
      "mn_inv t" "chan_slice t = (\<lambda>_. 1)" "bram_ps t = (\<lambda>_. 0)" "length (mn_name t) < 128"
    by (rule mn_second)
  obtain u where u: "chan_recv_body env_on 0 t = Ok () u"
    using wp_total [OF wp_mono [OF wp_chan_recv_body [OF recorder_env_on t(3)]]] t(6) by auto
  have "chan_slice t 0 \<noteq> 0" "bram_ps t MN_STOP_STORE \<noteq> 1" using t(4,5) by simp_all
  from mn_cut_complete [OF recorder_env_on mn_begin_store0 t(1,2) this u] t(1,2) u
  show ?thesis by blast
qed

text \<open>C18: no iteration of the recorder of channel 0 hangs or ends the process: it returns whenever
  the name of the next file fits its array, and only such a name can make it fail.\<close>

theorem mn_body_returns:
  assumes "recorder_env e" and "mn_begin s" and "interleave (chan_recv_body e 0) mn_rely s t"
  shows "(\<exists>u. chan_recv_body e 0 t = Ok () u) \<or>
    (\<exists>u. chan_recv_body e 0 t = Fail Undefined u) \<and> 128 \<le> length (mn_name t)"
proof -
  have inv: "mn_inv t"
    using mn_loop.interleave_inv [OF assms(3)] mn_begin_inv [OF assms(2)] assms(1) by blast
  show ?thesis using wp_chan_recv_body [OF assms(1) inv]
    by (cases "chan_recv_body e 0 t") (auto simp: wp_def)
qed

theorem mn_body_returns_witness:
  "(\<exists>u. chan_recv_body env_on 0 store0 = Ok () u) \<or>
    (\<exists>u. chan_recv_body env_on 0 store0 = Fail Undefined u) \<and> 128 \<le> length (mn_name store0)"
  using mn_body_returns [OF recorder_env_on mn_begin_store0 interleave.start] .

text \<open>C32: a stop request ends the recording of channel 0 without writing the pending bytes: the file
  keeps its contents and the bytes in the buffer are lost.\<close>

theorem mn_stop_drops:
  assumes "mn_begin s" and "recorder_env e" and "interleave (chan_recv_body e 0) mn_rely s t"
    and "mn_recording t" and "bram_ps t MN_STOP_STORE = 1"
  shows "\<exists>u. chan_recv_body e 0 t = Ok () u \<and> written (mn_fd t) (hist u) = written (mn_fd t) (hist t) \<and>
    received (mn_dma t) (mn_fd t) (hist u)
      = written (mn_fd t) (hist u) @ mem_bytes (rxmem t 0) 0 (mn_pending t) \<and>
    mn_pending u = 0 \<and> chan_stored u 0 = 1 \<and> mn_fd t \<notin> open_fds (hist u)"
proof -
  have "mn_stream t"
    using mn_loop.interleave_inv [OF assms(3)] mn_begin_inv [OF assms(1)] assms(2,4)
    by (auto simp: mn_inv_def mn_inv_upto_def)
  then have "wp (chan_recv_body e 0) (\<lambda>_ u. written (mn_fd t) (hist u) = written (mn_fd t) (hist t) \<and>
    received (mn_dma t) (mn_fd t) (hist u)
      = written (mn_fd t) (hist u) @ mem_bytes (rxmem t 0) 0 (mn_pending t) \<and>
    mn_pending u = 0 \<and> chan_stored u 0 = 1 \<and> mn_fd t \<notin> open_fds (hist u)) (\<lambda>_. False) t"
    using assms(5) by (simp add: chan_recv_body_def mn_stop_def mn_stream_def hist_simps)
  then show ?thesis by (auto dest: wp_total)
qed

theorem mn_stop_drops_witness:
  "\<exists>t u. interleave (chan_recv_body env_on 0) mn_rely store0 t \<and> mn_recording t \<and>
    chan_recv_body env_on 0 t = Ok () u \<and>
    written (mn_fd t) (hist u) = written (mn_fd t) (hist t) \<and> chan_stored u 0 = 1"
proof -
  obtain t where t: "interleave (chan_recv_body env_on 0) mn_rely store0 t" "mn_recording t"
      "bram_ps t = (\<lambda>_. 1)"
    by (rule mn_second)
  then have "bram_ps t MN_STOP_STORE = 1" by simp
  from mn_stop_drops [OF mn_begin_store0 recorder_env_on t(1,2) this] t(1,2) show ?thesis by blast
qed

text \<open>A failing \<open>open\<close> of a record file goes unnoticed: the thread takes the file as opened, with
  -1 as its descriptor, and goes on to record into it.\<close>

theorem mn_open_failure:
  assumes "length (mn_name s) < 128" and "k_ret e (hist s) (Open (mn_name s) FLAGS MODE) = -1"
  shows "\<exists>t. mn_open e 0 s = Ok True t \<and> mn_fd t = -1 \<and> chan_slice_alt t 0 = 0 \<and>
    bram_ps t FILE_MARK = 1"
proof -
  have "wp (mn_open e 0) (\<lambda>v t. v \<and> mn_fd t = -1 \<and> chan_slice_alt t 0 = 0 \<and>
    bram_ps t FILE_MARK = 1) (\<lambda>_. False) s"
    using assms
    by (simp add: mn_open_def sprintf_fits_def mn_name_def gettimeofday_def store_words)
  then show ?thesis by (auto dest: wp_total)
qed

theorem mn_open_failure_witness:
  "\<exists>t. mn_open (env0\<lparr>k_ret := \<lambda>_ _. -1\<rparr>) 0 store0 = Ok True t \<and> mn_fd t = -1"
  using mn_open_failure [of store0 "env0\<lparr>k_ret := \<lambda>_ _. -1\<rparr>"] by (auto simp: mn_name_def)

end
