(* ===== verification/Store_Ls.thy ===== *)
theory Store_Ls
  imports Store
begin

text \<open>
  \<open>chan1_recv\<close> of store.c, the thread that records the data of channel 1 (the files
  \<open>.bxsldpls\<close>), starts a recording (directory and file names) and ends it.
\<close>

section \<open>The loop body\<close>

definition copy_file_name :: "bytes \<Rightarrow> bytes \<Rightarrow> bytes" where
  "copy_file_name ad sys =
     overwrite 10 (take 256 (drop 240 ad)) (overwrite 0 (str_bytes ''/smbshare/'' @ [0]) sys)"

text \<open>
  \<open>sprintf(file_name_sys, "%s/", file_name_sys)\<close>: source and destination overlap, and the
  code relies on the result being the string with a slash appended.
\<close>

definition append_slash :: "bytes \<Rightarrow> bytes option" where
  "append_slash sys =
     (let p = cstr sys in
      if 0 \<in> set sys \<and> length p + 1 < 320 then Some (overwrite 0 (str_bytes (p @ ''/'') @ [0]) sys)
      else None)"

text \<open>The name of the recording with number \<open>ls_file_num\<close> and of the file of this thread.\<close>

definition ls_new_name :: "('m store_state_scheme, unit) prog" where
  "ls_new_name =
     bindR (gets (\<lambda>s. record_name (cstr (file_name_sys s)) (ls_file_num s) s)) (\<lambda>nm.
     bindR (sprintf_fits 256 nm) (\<lambda>nm.
     bindR (modify (\<lambda>s. s\<lparr>file_name_all :=
       (file_name_all s)(nat (ls_file_num s mod cyc_mark) := nm)\<rparr>)) (\<lambda>_.
     bindR (sprintf_fits 128 (nm @ ''.bxsldpls'')) (\<lambda>f.
     upd_ls (\<lambda>l. l\<lparr>ls_file_name := f\<rparr>)))))"

text \<open>Opening the file; \<open>False\<close> is the \<open>continue\<close> after a failure.\<close>

definition ls_open :: "env \<Rightarrow> ('m store_state_scheme, bool) prog" where
  "ls_open e =
     bindR (gets (\<lambda>s. ls_file_name (ls s))) (\<lambda>f.
     bindR (syscall e (Open f FLAGS MODE)) (\<lambda>r.
     bindR (upd_ls (\<lambda>l. l\<lparr>ls_fd := r\<rparr>)) (\<lambda>_. ret (\<not> r < 0))))"

definition ls_read_time :: "env \<Rightarrow> ('m store_state_scheme, unit) prog" where
  "ls_read_time e = bindR (ubram_read e 1 0x2000) (\<lambda>(r, b). seqR
     [modify (\<lambda>s. s\<lparr>time_bram := word_of_int r\<rparr>), upd_ls (\<lambda>l. l\<lparr>ls_ad_buffer := b\<rparr>)])"

text \<open>The start request (word 18): time and directory, then names and file.\<close>

definition ls_directory :: "env \<Rightarrow> ('m store_state_scheme, unit) prog" where
  "ls_directory e = seqR
     [upd_ls (\<lambda>l. l\<lparr>ls_read_bytes := 0, ls_ret_bytes := 0\<rparr>),
      modify (\<lambda>s. s\<lparr>zero_mark := 0\<rparr>),
      ls_read_time e,
      bindR (ubram_read e 1 0x300) (\<lambda>(r, _). modify (\<lambda>s. s\<lparr>time_bram := word_of_int r\<rparr>)),
      bindR (gets (\<lambda>s. ls_ad_buffer (ls s))) (\<lambda>ad.
      bindR (set_times ad) (\<lambda>_.
      bindR (gets (\<lambda>s. append_slash (copy_file_name ad (file_name_sys s)))) (\<lambda>sys.
        case sys of None \<Rightarrow> abort_with Undefined
        | Some sys \<Rightarrow> seqR [modify (\<lambda>s. s\<lparr>file_name_sys := sys\<rparr>), drop_val (CreateDir e (cstr sys))])))]"

definition ls_started_flags :: "env \<Rightarrow> ('m store_state_scheme, unit) prog" where
  "ls_started_flags e = seqR
     [modify (\<lambda>s. s\<lparr>sy_file_num := ls_file_num s, mn_file_num := ls_file_num s,
        ls_file_num := ls_file_num s + 1\<rparr>),
      sysdo e (Usleep 10),
      bram_st 1 STAR_STORE 0,
      bram_st 1 FILE_MARK 0]"

definition ls_start :: "env \<Rightarrow> ('m store_state_scheme, bool) prog" where
  "ls_start e =
     bindR (seqR [ls_directory e, modify (\<lambda>s. s\<lparr>ls_file_num := 0\<rparr>), ls_new_name]) (\<lambda>_.
     bindR (ls_open e) (\<lambda>ok.
     if \<not> ok then ret False else bindR (ls_started_flags e) (\<lambda>_. ret True)))"

text \<open>
  The stop request (word 22): an empty recording is removed.  The condition of the second
  removal, \<open>ls_file_num > ls_file_num\<close>, is as in the code.
\<close>

definition ls_stop :: "env \<Rightarrow> ('m store_state_scheme, unit) prog" where
  "ls_stop e =
     bindR (gets (\<lambda>s. (ls_fd (ls s), ls_file_name (ls s)))) (\<lambda>(fd, f).
     bindR (syscall e (Lseek fd 0 SEEK_END)) (\<lambda>fd_length. seqR
       [if fd_length = 0 then seqR [modify (\<lambda>s. s\<lparr>zero_mark := 1\<rparr>), sysdo e (Remove f)]
        else whenR (\<lambda>s. ls_file_num s > ls_file_num s) (sysdo e (Remove f)),
        bram_st 1 LS_STOP_STORE 0,
        sysdo e (Close fd)]))"

definition ls_fetch :: "env \<Rightarrow> nat \<Rightarrow> ('m store_state_scheme, unit) prog" where
  "ls_fetch e chan_num =
     bindR (chan_fifo_count e (of_nat chan_num)) (\<lambda>n.
       if n \<ge> of_nat DMA_TRANS_SIZE - DMA_PREREAD then
         bindR (gettimeofday e) (\<lambda>tv.
         bindR (upd_ls (\<lambda>l. l\<lparr>ls_start_time := tv\<rparr>)) (\<lambda>_.
         bindR (gets (\<lambda>s. (axidma s ! chan_num, ls_read_bytes (ls s)))) (\<lambda>(a, rb).
         bindR (dma_ioctl_read e (nat (dma_num a)) (dma_fd a) (ucast rb) (int DMA_TRANS_SIZE)) (\<lambda>r.
         upd_ls (\<lambda>l. l\<lparr>ls_ret_bytes := word_of_int r,
           ls_read_bytes := ls_read_bytes l + word_of_int r\<rparr>)))))
       else ret ())"

definition ls_write :: "env \<Rightarrow> nat \<Rightarrow> nat \<Rightarrow> ('m store_state_scheme, unit) prog" where
  "ls_write e chan_num n =
     bindR (gets (\<lambda>s. (ls_fd (ls s), mem_bytes (rxmem s chan_num) 0 n))) (\<lambda>(fd, d).
       sysdo e (Write fd d))"

definition ls_flush :: "env \<Rightarrow> nat \<Rightarrow> ('m store_state_scheme, unit) prog" where
  "ls_flush e chan_num =
     whenR (\<lambda>s. ls_read_bytes (ls s) = IFD_WRITE_MN) (seqR
       [whenR (\<lambda>s. ls_fd (ls s) > 0) (ls_write e chan_num (unat IFD_WRITE_MN)),
        upd_ls (\<lambda>l. l\<lparr>ls_read_bytes := 0\<rparr>)])"

text \<open>
  The end of a file: the rest of the data, then a whole buffer written and cut off again (a
  direct-I/O flush), and the file closed.
\<close>

definition ls_tail :: "env \<Rightarrow> nat \<Rightarrow> ('m store_state_scheme, unit) prog" where
  "ls_tail e chan_num = seqR
     [whenR (\<lambda>s. ls_read_bytes (ls s) > 0)
        (bindR (gets (\<lambda>s. ls_read_bytes (ls s))) (\<lambda>rb. ls_write e chan_num (unat rb))),
      bindR (gets (\<lambda>s. ls_fd (ls s))) (\<lambda>fd.
      bindR (syscall e (Lseek fd 0 SEEK_END)) (\<lambda>len. seqR
        [ls_write e chan_num (unat IFD_WRITE_MN), sysdo e (Ftruncate fd len)]))]"

definition ls_finish :: "env \<Rightarrow> nat \<Rightarrow> ('m store_state_scheme, unit) prog" where
  "ls_finish e chan_num = seqR
     [ls_tail e chan_num, bindR (gets (\<lambda>s. ls_fd (ls s))) (\<lambda>fd. sysdo e (Close fd))]"

definition ls_cut :: "env \<Rightarrow> nat \<Rightarrow> ('m store_state_scheme, unit) prog" where
  "ls_cut e chan_num =
     bindR (seqR
       [ls_finish e chan_num,
        bindR (gets ls) (\<lambda>l. bram_st 1 21
          (fpu e 21 (ucast IFD_WRITE_MN) (timeval_diff (ls_start_time l) (ls_end_time l)))),
        ls_read_time e,
        bindR (gets (\<lambda>s. ls_ad_buffer (ls s))) set_times,
        ls_new_name,
        modify (\<lambda>s. s\<lparr>ls_file_num := ls_file_num s + 1\<rparr>)]) (\<lambda>_.
     bindR (ls_open e) (\<lambda>ok.
     if \<not> ok then ret ()
     else seqR
       [bram_st 1 FILE_MARK 0,
        upd_ls (\<lambda>l. l\<lparr>ls_read_bytes := 0, ls_ret_bytes := 0\<rparr>),
        modify (\<lambda>s. s\<lparr>chan_slice := (chan_slice s)(chan_num := 0),
          chan_stored := (chan_stored s)(chan_num := 1)\<rparr>)]))"

definition ls_record :: "env \<Rightarrow> nat \<Rightarrow> ('m store_state_scheme, unit) prog" where
  "ls_record e chan_num = seqR
     [ls_fetch e chan_num,
      ls_flush e chan_num,
      bindR (gettimeofday e) (\<lambda>tv. upd_ls (\<lambda>l. l\<lparr>ls_end_time := tv\<rparr>)),
      whenR (\<lambda>s. chan_slice s chan_num \<noteq> 0) (ls_cut e chan_num)]"

definition chan1_recv_body :: "env \<Rightarrow> nat \<Rightarrow> ('m store_state_scheme, unit) prog" where
  "chan1_recv_body e chan_num =
     bindR (ifR (\<lambda>s. bram_ps s STAR_STORE = 1) (ls_start e) (ret True)) (\<lambda>go.
     if \<not> go then ret ()
     else seqR
       [whenR (\<lambda>s. bram_ps s LS_STOP_STORE = 1) (ls_stop e),
        whenR (\<lambda>s. chan_stored s chan_num = 0) (ls_record e chan_num)])"

text \<open>Entering \<open>chan1_recv\<close>: \<open>fd\<close> and the allocated buffer are indeterminate.\<close>

definition chan1_recv_enter :: "int \<Rightarrow> bytes \<Rightarrow> ('m store_state_scheme, unit) prog" where
  "chan1_recv_enter fd ad = upd_ls (\<lambda>l. l\<lparr>ls_ret_bytes := 0, ls_read_bytes := 0, ls_fd := fd,
     ls_file_name := '''', ls_ad_buffer := ad\<rparr>)"

section \<open>The invariant of the loop\<close>

text \<open>The channel number stays 1 in the proofs below.\<close>

declare One_nat_def [simp del]

abbreviation ls_dma :: "'m store_state_scheme \<Rightarrow> int" where
  "ls_dma s \<equiv> dma_fd (axidma s ! 1)"

abbreviation ls_file :: "'m store_state_scheme \<Rightarrow> int" where
  "ls_file s \<equiv> ls_fd (ls s)"

abbreviation ls_pending :: "'m store_state_scheme \<Rightarrow> nat" where
  "ls_pending s \<equiv> unat (ls_read_bytes (ls s))"

definition ls_is_open :: "'m store_state_scheme \<Rightarrow> bool" where
  "ls_is_open s \<longleftrightarrow> ls_file s \<in> open_fds (hist s)"

definition ls_stream :: "'m store_state_scheme \<Rightarrow> bool" where
  "ls_stream s \<longleftrightarrow> 0 < ls_file s \<and> received (ls_dma s) (ls_file s) (hist s)
     = written (ls_file s) (hist s) @ mem_bytes (rxmem s 1) 0 (ls_pending s)"

definition ls_inv_upto :: "nat \<Rightarrow> 'm store_state_scheme \<Rightarrow> bool" where
  "ls_inv_upto n s \<longleftrightarrow> gMutexDma s = 0 \<and> dma_num (axidma s ! 1) = 1 \<and>
     dma_within (ls_dma s) 0x60000 (hist s) \<and> 0x8000 dvd ls_pending s \<and> ls_pending s \<le> n \<and>
     (ls_is_open s \<longrightarrow> ls_stream s)"

definition ls_inv :: "'m store_state_scheme \<Rightarrow> bool" where
  "ls_inv s = ls_inv_upto 0x58000 s"

text \<open>
  What the other threads may do between two iterations: they leave the thread's locals, its
  engine and, while it is open, its file alone, and do not open a file under its number.
\<close>

definition ls_rely :: "'m store_state_scheme \<Rightarrow> 'm store_state_scheme \<Rightarrow> bool" where
  "ls_rely s t \<longleftrightarrow> ls t = ls s \<and> rxmem t 1 = rxmem s 1 \<and> axidma t = axidma s \<and> gMutexDma t = 0 \<and>
     (dma_within (ls_dma s) 0x60000 (hist s) \<longrightarrow> dma_within (ls_dma s) 0x60000 (hist t)) \<and>
     (ls_is_open t \<longrightarrow> ls_is_open s \<and>
        written (ls_file s) (hist t) = written (ls_file s) (hist s) \<and>
        received (ls_dma s) (ls_file s) (hist t) = received (ls_dma s) (ls_file s) (hist s))"

lemma ls_rely_inv: "ls_inv s \<Longrightarrow> ls_rely s t \<Longrightarrow> ls_inv t"
  by (auto simp: ls_inv_def ls_inv_upto_def ls_rely_def ls_stream_def)

text \<open>Quiet events preserve the invariant.\<close>

lemma ls_inv_quiet:
  assumes "quiet_ext s t"
  shows "ls_inv_upto n t = ls_inv_upto n s"
proof -
  have "machine.more t = machine.more s" using assms by (simp add: quiet_ext_def)
  note same = same_globals [OF this] quiet_ext_views [OF assms]
  show ?thesis by (simp add: ls_inv_upto_def ls_is_open_def ls_stream_def same)
qed

lemma ls_inv_emit [simp]: "quiet c \<Longrightarrow> ls_inv_upto n (emit c r d s) = ls_inv_upto n s"
  by (rule ls_inv_quiet) (simp add: quiet_ext_emit)

text \<open>Opening the next file with nothing pending.\<close>

definition ls_fresh :: "'m store_state_scheme \<Rightarrow> bool" where
  "ls_fresh s \<longleftrightarrow> gMutexDma s = 0 \<and> dma_num (axidma s ! 1) = 1 \<and>
     dma_within (ls_dma s) 0x60000 (hist s)"

lemma wp_ls_open:
  assumes "recorder_env e" and "ls_fresh s"
  shows "wp (ls_open e) (\<lambda>ok t. ok \<and> ls_fresh t \<and> ls_is_open t \<and> 0 < ls_file t \<and>
    written (ls_file t) (hist t) = [] \<and> received (ls_dma t) (ls_file t) (hist t) = [] \<and>
    ls_read_bytes (ls t) = ls_read_bytes (ls s) \<and> rxmem t = rxmem s \<and>
    chan_slice t = chan_slice s \<and> chan_stored t = chan_stored s \<and> zero_mark t = zero_mark s \<and>
    ls_file_num t = ls_file_num s \<and> (\<exists>h. hist t = hist s @ h)) A s"
proof -
  have pos: "0 < k_ret e (hist s) (Open (ls_file_name (ls s)) FLAGS MODE)"
    using assms(1) by (auto simp: recorder_env_def record_opens_def)
  show ?thesis using assms(2) pos
    by (simp add: ls_open_def ls_is_open_def ls_fresh_def hist_simps)
qed

lemma ls_fresh_inv:
  assumes "ls_fresh s" and "ls_pending s = 0" and "0 < ls_file s"
    and "written (ls_file s) (hist s) = []" and "received (ls_dma s) (ls_file s) (hist s) = []"
  shows "ls_inv s"
  using assms by (simp add: ls_fresh_def ls_inv_def ls_inv_upto_def ls_stream_def)

lemma ls_inv_fresh: "ls_inv s \<Longrightarrow> ls_fresh s"
  by (simp add: ls_inv_def ls_inv_upto_def ls_fresh_def)

lemma wp_ls_new_name:
  "(\<And>f g. Q () (s\<lparr>file_name_all := g, ls := (ls s)\<lparr>ls_file_name := f\<rparr>\<rparr>)) \<Longrightarrow>
   wp ls_new_name Q (\<lambda>a. a = Undefined) s"
  by (simp add: ls_new_name_def sprintf_fits_def)

lemma wp_set_times:
  "(\<And>a b c d g h. Q () (s\<lparr>time_sec := a, time_min := b, time_hor := c, time_day := d, time_mon := g,
     time_yer := h\<rparr>)) \<Longrightarrow> wp (set_times ad) Q A s"
  by (simp add: set_times_def)

text \<open>A recording has just started: an empty file is open, nothing is pending, all counts agree.\<close>

definition ls_started :: "'m store_state_scheme \<Rightarrow> bool" where
  "ls_started s \<longleftrightarrow> ls_inv s \<and> ls_is_open s \<and> ls_pending s = 0 \<and> written (ls_file s) (hist s) = [] \<and>
     bram_ps s STAR_STORE = 0 \<and> bram_ps s FILE_MARK = 0 \<and> zero_mark s = 0 \<and> ls_file_num s = 1 \<and>
     mn_file_num s = 0 \<and> sy_file_num s = 0"

lemma wp_ls_start_open:
  assumes "recorder_env e" and "ls_fresh s" and "ls_pending s = 0" "zero_mark s = 0" "ls_file_num s = 0"
  shows "wp (bindR (ls_open e) (\<lambda>ok.
     if \<not> ok then ret False else bindR (ls_started_flags e) (\<lambda>_. ret True)))
     (\<lambda>ok t. ok \<and> ls_started t \<and> chan_slice t = chan_slice s \<and> chan_stored t = chan_stored s) A s"
  unfolding wp_bindR
  by (rule wp_mono [OF wp_ls_open [OF assms(1,2)]])
    (use assms(3-5) in \<open>auto simp: ls_started_flags_def ls_started_def store_words ls_is_open_def
      hist_simps ls_fresh_def intro!: ls_fresh_inv\<close>)

lemma wp_ls_directory:
  assumes "ls_fresh s"
  shows "wp (ls_directory e) (\<lambda>_ t. ls_fresh t \<and> ls_pending t = 0 \<and> zero_mark t = 0 \<and>
    chan_slice t = chan_slice s \<and> chan_stored t = chan_stored s) (\<lambda>a. a = Undefined) s"
proof -
  have dir: "wp (CreateDir e p) (\<lambda>_ t. ls_fresh t \<and> ls_pending t = 0 \<and> zero_mark t = 0 \<and>
      chan_slice t = chan_slice u \<and> chan_stored t = chan_stored u) (\<lambda>a. a = Undefined) u"
    if "ls_fresh u" "ls_pending u = 0" "zero_mark u = 0" for p and u :: "'a store_state_scheme"
  proof (rule wp_mono [OF wp_CreateDir])
    fix t assume q: "quiet_ext u t"
    then have "machine.more t = machine.more u" by (simp add: quiet_ext_def)
    note same = same_globals [OF this] quiet_ext_views [OF q]
    show "ls_fresh t \<and> ls_pending t = 0 \<and> zero_mark t = 0 \<and> chan_slice t = chan_slice u \<and>
        chan_stored t = chan_stored u"
      using that by (simp add: ls_fresh_def same)
  qed simp
  show ?thesis
    using assms unfolding ls_directory_def ls_read_time_def set_times_def
    by (auto simp: ls_fresh_def hist_simps split: option.split intro!: wp_mono [OF dir])
qed

lemma wp_ls_start:
  assumes "recorder_env e" and "ls_fresh s"
  shows "wp (ls_start e) (\<lambda>ok t. ok \<and> ls_started t \<and> chan_slice t = chan_slice s \<and>
      chan_stored t = chan_stored s) (\<lambda>a. a = Undefined) s"
proof -
  have named: "wp ls_new_name (\<lambda>_. wp (bindR (ls_open e) (\<lambda>ok.
       if \<not> ok then ret False else bindR (ls_started_flags e) (\<lambda>_. ret True)))
       (\<lambda>ok t. ok \<and> ls_started t \<and> chan_slice t = chan_slice s \<and> chan_stored t = chan_stored s)
       (\<lambda>a. a = Undefined)) (\<lambda>a. a = Undefined) u"
    if "ls_fresh u" "ls_pending u = 0" "zero_mark u = 0" "ls_file_num u = 0"
      "chan_slice u = chan_slice s" "chan_stored u = chan_stored s" for u :: "'a store_state_scheme"
    by (rule wp_ls_new_name, rule wp_mono [OF wp_ls_start_open [OF assms(1)]])
      (use that in \<open>simp_all add: ls_fresh_def\<close>)
  show ?thesis
    unfolding ls_start_def wp_bindR [of "seqR _"] wp_statement
    by (rule wp_mono [OF wp_ls_directory [OF assms(2)]])
      (auto intro!: named simp: ls_fresh_def simp del: wp_bindR)
qed

definition ls_frame :: "'m store_state_scheme \<Rightarrow> 'm store_state_scheme \<Rightarrow> bool" where
  "ls_frame s t \<longleftrightarrow> chan_stored t = chan_stored s \<and> chan_slice t = chan_slice s \<and>
     ls_fd (ls t) = ls_fd (ls s) \<and> axidma t = axidma s \<and> ls_is_open t = ls_is_open s \<and>
     file_name_sys t = file_name_sys s \<and> ls_file_num t = ls_file_num s \<and> (\<exists>h. hist t = hist s @ h)"

lemma ls_frame_trans: "ls_frame s t \<Longrightarrow> ls_frame t u \<Longrightarrow> ls_frame s u"
  by (auto simp: ls_frame_def)

lemma ls_frame_refl: "ls_frame s s"
  by (simp add: ls_frame_def)

lemma wp_ls_stop:
  assumes "ls_inv s"
  shows "wp (ls_stop e) (\<lambda>_ t. ls_inv t \<and> \<not> ls_is_open t \<and> bram_ps t LS_STOP_STORE = 0) A s"
  using assms
  by (simp add: ls_stop_def ls_inv_def ls_inv_upto_def ls_is_open_def store_words hist_simps)

text \<open>The state of the thread after asking the engine for one block.\<close>

lemma ls_block:
  assumes "recorder_env e" and "ls_inv s"
    and n: "n = (if block_ok e (ls_dma s) (ucast (ls_read_bytes (ls s))) s then 0x8000 else 0)"
    and t: "ls_read_bytes (ls t) = ls_read_bytes (ls s) + n" "ls_fd (ls t) = ls_fd (ls s)"
      "hist t = hist (block_read e 1 (ls_dma s) (ucast (ls_read_bytes (ls s))) s)"
      "gMutexDma t = 0" "axidma t = axidma s"
      "rxmem t = rxmem (block_read e 1 (ls_dma s) (ucast (ls_read_bytes (ls s))) s)"
  shows "ls_inv_upto 0x60000 t"
proof -
  let ?rb = "ls_read_bytes (ls s)" and ?d = "ls_dma s"
  have inv: "0x8000 dvd unat ?rb" "unat ?rb \<le> 0x58000" "dma_num (axidma s ! 1) = 1"
      "dma_within ?d 0x60000 (hist s)" "ls_is_open s \<longrightarrow> ls_stream s"
    using assms(2) by (simp_all add: ls_inv_def ls_inv_upto_def)
  have off: "unat (ucast ?rb :: u64) = unat ?rb"
    using unsigned_less [of ?rb, where ?'a = nat]
    by (simp add: unsigned_ucast_eq take_bit_nat_eq_self)
  have len: "length (block_data e ?d (ucast ?rb) s) = 0x8000" if "n \<noteq> 0"
    using assms(1) that n
    by (auto simp: recorder_env_def dma_blocks_def block_ok_def block_data_def split: if_splits)
  have nat_rb: "unat (?rb + n) = unat ?rb + unat n"
    using inv(2) n by (auto simp: unat_word_ariths)
  have "ls_stream t" if "ls_is_open t"
  proof -
    have st: "ls_stream s" using that inv(5) by (simp add: ls_is_open_def t hist_simps)
    show ?thesis
    proof (cases "n = 0")
      case True
      with n st show ?thesis
        by (auto simp: ls_stream_def t hist_simps block_ok_def off mem_bytes_patch_before
            split: if_splits)
    next
      case False
      then have n8: "n = 0x8000" using n by (simp split: if_splits)
      with nat_rb have "unat (?rb + 0x8000) = unat ?rb + 0x8000" by simp
      with False n n8 st show ?thesis
        by (auto simp: ls_stream_def t hist_simps block_ok_def off len
            mem_bytes_patch_append split: if_splits)
    qed
  qed
  moreover have "ls_pending t = unat ?rb + unat n" by (simp add: t nat_rb)
  then have "0x8000 dvd ls_pending t" "ls_pending t \<le> 0x60000"
    using inv(1,2) n by (auto split: if_splits)
  moreover have "dma_within ?d 0x60000 (hist t)"
    using inv(2,4) by (simp add: t hist_simps off)
  ultimately show ?thesis using inv(3) by (simp add: ls_inv_upto_def t)
qed

lemma wp_ls_fetch:
  assumes "recorder_env e" and "ls_inv s"
  shows "wp (ls_fetch e 1) (\<lambda>_ t. ls_inv_upto 0x60000 t \<and> ls_frame s t) (\<lambda>_. False) s"
proof -
  define s1 where "s1 = emit (BramLd 1 516) (uint (bram_word e 1 516 s)) [] s"
  have q: "quiet_ext s s1" by (simp add: s1_def quiet_ext_emit)
  define s2 where "s2 = emit (Time Gettimeofday) (k_ret e (hist s1) (Time Gettimeofday))
    (k_data e (hist s1) (Time Gettimeofday)) s1\<lparr>ls := (ls s1)\<lparr>ls_start_time := k_time e (hist s1)\<rparr>\<rparr>"
  have s2: "ls_inv s2" "gMutexDma s2 = 0" "dma_num (axidma s2 ! 1) = 1"
    using assms(2) by (auto simp: s1_def s2_def ls_inv_def ls_inv_upto_def ls_is_open_def
        ls_stream_def hist_simps)
  have fr: "ls_frame s s1" "ls_frame s2 t \<Longrightarrow> ls_frame s t" for t
    by (auto simp: ls_frame_def s1_def s2_def ls_is_open_def hist_simps)
  have up: "ls_inv_upto 0x60000 s1"
    using assms(2) ls_inv_quiet [OF q] by (auto simp: ls_inv_def ls_inv_upto_def)
  have eq: "axidma s1 = axidma s2" "ls_read_bytes (ls s1) = ls_read_bytes (ls s2)"
    by (simp_all add: s2_def)
  show ?thesis using s2 up fr(1)
    by (auto simp: ls_fetch_def chan_fifo_count_def gettimeofday_def s1_def [symmetric]
        s2_def [symmetric] eq DMA_TRANS_SIZE_def wp_dma_read_one
        intro!: ls_block [OF assms(1) s2(1)] fr(2))
      (simp_all add: ls_frame_def ls_is_open_def hist_simps One_nat_def)
qed

lemma wp_ls_flush:
  assumes "recorder_env e" and "ls_inv_upto 0x60000 s"
  shows "wp (ls_flush e 1) (\<lambda>_ t. ls_inv t \<and> ls_frame s t) (\<lambda>_. False) s"
proof (cases "ls_read_bytes (ls s) = IFD_WRITE_MN")
  case True
  then have "ls_pending s = 0x60000" by (simp add: IFD_WRITE_MN_def)
  then show ?thesis
    using assms(2) True
    by (auto simp: ls_flush_def ls_write_def ls_inv_def ls_inv_upto_def ls_is_open_def
        IFD_WRITE_MN_def ls_stream_def ls_frame_def hist_simps write_all [OF assms(1)])
next
  case False
  then have "ls_pending s \<noteq> 0x60000"
    by (simp add: IFD_WRITE_MN_def word_unat_eq_iff)
  moreover have "n \<le> 0x58000" if "0x8000 dvd n" "n \<le> 0x60000" "n \<noteq> 0x60000" for n :: nat
    using that by (auto elim!: dvdE)
  ultimately show ?thesis using assms(2) False
    by (simp add: ls_flush_def ls_inv_def ls_inv_upto_def ls_frame_def)
qed

text \<open>
  Ending a file: at the moment it is closed the padding has been cut off again and everything
  received is in it.
\<close>

definition ls_complete :: "'m store_state_scheme \<Rightarrow> 'm store_state_scheme \<Rightarrow> bool" where
  "ls_complete s t \<longleftrightarrow> (\<exists>h x h'. hist t = (hist s @ h) @ (Close (ls_file s), x) # h' \<and>
     (ls_is_open s \<longrightarrow>
        written (ls_file s) (hist s @ h) = received (ls_dma s) (ls_file s) (hist s @ h)))"

lemma ls_complete_append: "ls_complete s t \<Longrightarrow> hist u = hist t @ h \<Longrightarrow> ls_complete s u"
  unfolding ls_complete_def by (elim exE, rename_tac h1 x h2,
    rule_tac x = h1 in exI, rule_tac x = x in exI, rule_tac x = "h2 @ h" in exI) simp

lemma ls_complete_hist: "ls_complete s t \<Longrightarrow> hist u = hist t \<Longrightarrow> ls_complete s u"
  by (simp add: ls_complete_def)

lemma wp_ls_tail:
  assumes "recorder_env e" and "ls_inv s"
  shows "wp (ls_tail e 1) (\<lambda>_ t. ls_fresh t \<and> ls_frame s t \<and>
    (ls_is_open s \<longrightarrow> written (ls_file s) (hist t) = received (ls_dma s) (ls_file s) (hist t)))
    (\<lambda>_. False) s"
proof -
  have sk: "k_ret e h (Lseek f 0 SEEK_END) = int (length (written f h))" "k_ret e h (Ftruncate f n) = 0"
    if "f \<in> open_fds h" for f h n
    using assms(1) that by (auto simp: recorder_env_def seek_ends_def)
  have nt: "nat (int a + uint w) = a + unat w" for a and w :: u32
    by (simp add: nat_add_distrib)
  show ?thesis using assms(2)
    by (auto simp: ls_tail_def ls_write_def ls_inv_def ls_inv_upto_def ls_fresh_def ls_frame_def
        ls_is_open_def ls_stream_def hist_simps write_all [OF assms(1)] sk nt word_gt_0)
qed

lemma ls_close_complete:
  assumes "ls_fresh t" and "ls_frame s t"
    and "ls_is_open s \<longrightarrow> written (ls_file s) (hist t) = received (ls_dma s) (ls_file s) (hist t)"
    and "u = emit (Close (ls_file t)) r d t"
  shows "ls_fresh u" and "ls_complete s u"
proof -
  show "ls_fresh u" using assms(1,4) by (simp add: ls_fresh_def hist_simps)
  obtain h where h: "hist t = hist s @ h" using assms(2) by (auto simp: ls_frame_def)
  then have "hist u = (hist s @ h) @ (Close (ls_file s), r, d) # []"
    using assms(2,4) by (simp add: ls_frame_def)
  then show "ls_complete s u" using assms(3) h unfolding ls_complete_def by metis
qed

lemma wp_ls_finish:
  assumes "recorder_env e" and "ls_inv s"
  shows "wp (ls_finish e 1) (\<lambda>_ t. ls_fresh t \<and> ls_complete s t) (\<lambda>_. False) s"
  unfolding ls_finish_def wp_statement
  by (rule wp_mono [OF wp_ls_tail [OF assms]]) (auto intro: ls_close_complete)

text \<open>Names that fit their arrays.\<close>

definition times_from :: "bytes \<Rightarrow> 'm store_state_scheme \<Rightarrow> bool" where
  "times_from b s \<longleftrightarrow> time_sec s = ucast (b ! 4104) \<and> time_min s = ucast (b ! 4105) \<and>
     time_hor s = ucast (b ! 4106) \<and> time_day s = ucast (b ! 4107) \<and> time_mon s = ucast (b ! 4108) \<and>
     time_yer s = ucast (b ! 4109)"

lemma times_small: "times_from b s \<Longrightarrow> unat (time_sec s) < 256 \<and> unat (time_min s) < 256 \<and>
  unat (time_hor s) < 256 \<and> unat (time_day s) < 256 \<and> unat (time_mon s) < 256 \<and> unat (time_yer s) < 256"
proof -
  have "unat (ucast (x :: u8) :: u32) < 256" for x
    using unsigned_less [of x, where ?'a = nat]
    by (simp add: unsigned_ucast_eq take_bit_nat_eq_self)
  then show "times_from b s \<Longrightarrow> ?thesis" by (simp add: times_from_def)
qed

lemma length_record_name:
  "times_from b s \<Longrightarrow> length (record_name dir n s) = length dir + 15 + length (sdec n)"
  by (frule times_small) (simp add: record_name_def length_hex02)

definition ls_short :: "'m store_state_scheme \<Rightarrow> bool" where
  "ls_short s \<longleftrightarrow> length (cstr (file_name_sys s)) + length (sdec (ls_file_num s)) < 104"

lemma wp_ls_new_name_fits:
  assumes "length (cstr (file_name_sys s)) + 15 + length (sdec (ls_file_num s)) + 9 < 128"
    and "times_from b s"
    and "\<And>nm. nm = record_name (cstr (file_name_sys s)) (ls_file_num s) s \<Longrightarrow>
      Q () (s\<lparr>file_name_all := (file_name_all s)(nat (ls_file_num s mod cyc_mark) := nm),
        ls := (ls s)\<lparr>ls_file_name := nm @ ''.bxsldpls''\<rparr>\<rparr>)"
  shows "wp ls_new_name Q A s"
  using assms by (simp add: ls_new_name_def sprintf_fits_def length_record_name)

lemma ls_finish_names:
  "wp (ls_finish e n) (\<lambda>_ t. file_name_sys t = file_name_sys s \<and> ls_file_num t = ls_file_num s) A s"
  by (simp add: ls_finish_def ls_tail_def ls_write_def)

lemma wp_ls_cut_names:
  assumes "ls_short s" and "file_name_sys t = file_name_sys s" and "ls_file_num t = ls_file_num s"
    and "\<And>f g. Q () (t\<lparr>file_name_all := g, ls := (ls t)\<lparr>ls_file_name := f\<rparr>\<rparr>)" and "times_from b t"
  shows "wp ls_new_name Q A t"
  by (rule wp_ls_new_name_fits [OF _ assms(5)]) (use assms in \<open>simp_all add: ls_short_def\<close>)

lemma wp_ls_cut:
  assumes "recorder_env e" and "ls_inv s"
  shows "wp (ls_cut e 1) (\<lambda>_ t. ls_inv t \<and> ls_is_open t \<and> ls_pending t = 0 \<and> chan_slice t 1 = 0 \<and>
      chan_stored t 1 = 1 \<and> bram_ps t FILE_MARK = 0 \<and> ls_complete s t)
    (\<lambda>a. a = Undefined \<and> \<not> ls_short s) s"
proof -
  let ?A = "\<lambda>a. a = Undefined \<and> \<not> ls_short s"
  let ?Q = "\<lambda>_ t. ls_inv t \<and> ls_is_open t \<and> ls_pending t = 0 \<and> chan_slice t 1 = 0 \<and>
      chan_stored t 1 = 1 \<and> bram_ps t FILE_MARK = 0 \<and> ls_complete s t"
  define m :: "('a store_state_scheme, unit) prog" where "m = bindR (ls_open e) (\<lambda>ok.
     if \<not> ok then ret ()
     else seqR
       [bram_st 1 FILE_MARK 0,
        upd_ls (\<lambda>l. l\<lparr>ls_read_bytes := 0, ls_ret_bytes := 0\<rparr>),
        modify (\<lambda>s. s\<lparr>chan_slice := (chan_slice s)(1 := 0), chan_stored := (chan_stored s)(1 := 1)\<rparr>)])"
  have opn: "wp m ?Q ?A u" if u: "ls_fresh u" "ls_complete s u" for u :: "'a store_state_scheme"
    unfolding m_def wp_bindR
  proof (rule wp_mono [OF wp_ls_open [OF assms(1) u(1)]], elim conjE exE)
    fix ok h and t :: "'a store_state_scheme"
    assume ok: "ok" and t: "ls_fresh t" "ls_is_open t" "0 < ls_file t"
      "written (ls_file t) (hist t) = []" "received (ls_dma t) (ls_file t) (hist t) = []"
      "hist t = hist u @ h"
    show "wp (if \<not> ok then ret ()
     else seqR
       [bram_st 1 FILE_MARK 0,
        upd_ls (\<lambda>l. l\<lparr>ls_read_bytes := 0, ls_ret_bytes := 0\<rparr>),
        modify (\<lambda>s. s\<lparr>chan_slice := (chan_slice s)(1 := 0), chan_stored := (chan_stored s)(1 := 1)\<rparr>)])
     ?Q ?A t"
      using t(1-5) ok
      by (auto simp: ls_is_open_def ls_fresh_def hist_simps store_words t(6)
          intro!: ls_fresh_inv ls_complete_append [OF u(2)])
  qed simp
  have named: "wp ls_new_name (\<lambda>_. wp (modify (\<lambda>s. s\<lparr>ls_file_num := ls_file_num s + 1\<rparr>))
      (\<lambda>_. wp m ?Q ?A) ?A) ?A u"
    if u: "ls_fresh u" "ls_complete s u" "file_name_sys u = file_name_sys s"
      "ls_file_num u = ls_file_num s" "times_from b u" for b and u :: "'a store_state_scheme"
  proof -
    have later: "wp (modify (\<lambda>s. s\<lparr>ls_file_num := ls_file_num s + 1\<rparr>)) (\<lambda>_. wp m ?Q ?A) ?A
        (u\<lparr>file_name_all := g, ls := (ls u)\<lparr>ls_file_name := f\<rparr>\<rparr>)" for f g
      using u(1)
      by (auto intro!: opn ls_complete_hist [OF u(2)] simp: ls_fresh_def)
    show ?thesis
    proof (cases "ls_short s")
      case True
      then show ?thesis using later u(3-5) by (intro wp_ls_cut_names)
    next
      case False
      then have "?A = (\<lambda>a. a = Undefined)" by simp
      then show ?thesis using later by (auto intro!: wp_ls_new_name)
    qed
  qed
  show ?thesis
    unfolding ls_cut_def m_def [symmetric] wp_bindR [of "seqR _"] wp_statement(4)
    by (rule wp_mono [OF wp_total_conj [OF wp_ls_finish [OF assms] ls_finish_names]])
      (auto simp: ls_read_time_def set_times_def ls_fresh_def hist_simps times_from_def
        intro!: named elim!: ls_complete_append)
qed

lemma ls_complete_frame:
  assumes "ls_frame s t" and "ls_complete t u"
  shows "ls_complete s u"
proof -
  obtain h0 where h0: "hist t = hist s @ h0" and eq: "ls_file t = ls_file s" "ls_dma t = ls_dma s"
      "ls_is_open t = ls_is_open s"
    using assms(1) by (auto simp: ls_frame_def)
  obtain h x h' where h: "hist u = (hist t @ h) @ (Close (ls_file t), x) # h'"
    and c: "ls_is_open t \<longrightarrow> written (ls_file t) (hist t @ h) = received (ls_dma t) (ls_file t) (hist t @ h)"
    using assms(2) by (auto simp: ls_complete_def)
  show ?thesis unfolding ls_complete_def
    by (rule exI [of _ "h0 @ h"], rule exI [of _ x], rule exI [of _ h'])
      (use h c in \<open>simp add: h0 eq\<close>)
qed

section \<open>The loop\<close>

definition ls_cut_done :: "'m store_state_scheme \<Rightarrow> 'm store_state_scheme \<Rightarrow> bool" where
  "ls_cut_done s t \<longleftrightarrow> ls_complete s t \<and> ls_is_open t \<and> ls_pending t = 0 \<and> chan_slice t 1 = 0 \<and>
     chan_stored t 1 = 1 \<and> bram_ps t FILE_MARK = 0"

lemma wp_ls_record:
  assumes "recorder_env e" and "ls_inv s"
  shows "wp (ls_record e 1) (\<lambda>_ t. ls_inv t \<and>
      (if chan_slice s 1 \<noteq> 0 then ls_cut_done s t else ls_frame s t))
    (\<lambda>a. a = Undefined \<and> chan_slice s 1 \<noteq> 0 \<and> \<not> ls_short s) s"
proof -
  let ?A = "\<lambda>a. a = Undefined \<and> chan_slice s 1 \<noteq> 0 \<and> \<not> ls_short s"
  have flush: "wp (ls_flush e 1) (\<lambda>_ u. ls_inv u \<and> ls_frame s u) ?A t"
    if "ls_inv_upto 0x60000 t" "ls_frame s t" for t :: "'a store_state_scheme"
    by (rule wp_mono [OF wp_ls_flush [OF assms(1) that(1)]])
      (use that(2) in \<open>auto intro: ls_frame_trans\<close>)
  have cut: "wp (ls_cut e 1) (\<lambda>_ u. ls_inv u \<and> ls_cut_done s u) ?A t"
    if "ls_inv t" "ls_frame s t" "chan_slice s 1 \<noteq> 0" for t :: "'a store_state_scheme"
  proof -
    have "ls_short t = ls_short s" using that(2) by (simp add: ls_short_def ls_frame_def)
    then show ?thesis using that(2,3)
      by (intro wp_mono [OF wp_ls_cut [OF assms(1) that(1)]])
        (auto simp: ls_cut_done_def intro: ls_complete_frame)
  qed
  have stamp: "wp (bindR (gettimeofday e) (\<lambda>tv. upd_ls (\<lambda>l. l\<lparr>ls_end_time := tv\<rparr>)))
      (\<lambda>_ u. ls_inv u \<and> ls_frame s u) ?A t"
    if "ls_inv t" "ls_frame s t" for t :: "'a store_state_scheme"
    using that by (auto simp: gettimeofday_def ls_inv_def ls_inv_upto_def ls_is_open_def
        ls_stream_def ls_frame_def hist_simps)
  have last: "wp (whenR (\<lambda>s. chan_slice s 1 \<noteq> 0) (ls_cut e 1)) (\<lambda>_ t. ls_inv t \<and>
      (if chan_slice s 1 \<noteq> 0 then ls_cut_done s t else ls_frame s t)) ?A t"
    if t: "ls_inv t" "ls_frame s t" for t :: "'a store_state_scheme"
    using t cut [OF t] by (auto simp: ls_frame_def elim!: wp_mono)
  show ?thesis
    unfolding ls_record_def wp_statement(3,4)
    by (rule wp_mono [OF wp_ls_fetch [OF assms]], elim conjE, rule wp_mono [OF flush],
        assumption+, elim conjE, rule wp_mono [OF stamp], assumption+)
      (auto intro: last simp del: wp_statement split del: if_split)
qed

lemma wp_chan1_recv_cut:
  assumes "recorder_env e" and "ls_inv s" and "bram_ps s STAR_STORE \<noteq> 1"
    and "bram_ps s LS_STOP_STORE \<noteq> 1" and "chan_stored s 1 = 0" and "chan_slice s 1 \<noteq> 0"
  shows "wp (chan1_recv_body e 1) (\<lambda>_. ls_cut_done s) (\<lambda>a. a = Undefined \<and> \<not> ls_short s) s"
  using assms(3-)
  by (simp add: chan1_recv_body_def)
    (rule wp_mono [OF wp_ls_record [OF assms(1,2)]], simp_all)

lemma wp_chan1_recv_body:
  assumes "recorder_env e" and "ls_inv s"
  shows "wp (chan1_recv_body e 1) (\<lambda>_. ls_inv) (\<lambda>a. a = Undefined) s"
proof -
  have rest: "wp (seqR
       [whenR (\<lambda>s. bram_ps s LS_STOP_STORE = 1) (ls_stop e),
        whenR (\<lambda>s. chan_stored s 1 = 0) (ls_record e 1)]) (\<lambda>_. ls_inv) (\<lambda>a. a = Undefined) t"
    if "ls_inv t" for t :: "'a store_state_scheme"
    using that by (auto intro!: wp_mono [OF wp_ls_stop [OF that]]
        intro: wp_mono [OF wp_ls_record [OF assms(1)]])
  have "wp (ls_start e) (\<lambda>ok t. ok \<and> ls_inv t) (\<lambda>a. a = Undefined) s"
    by (rule wp_mono [OF wp_ls_start [OF assms(1) ls_inv_fresh [OF assms(2)]]])
      (auto simp: ls_started_def)
  then show ?thesis
    using rest [OF assms(2)] rest
    by (auto simp: chan1_recv_body_def simp del: wp_statement elim!: wp_mono)
qed

interpretation ls_loop: rely_loop "chan1_recv_body e 1" ls_rely "\<lambda>s. recorder_env e \<and> ls_inv s" for e
  by unfold_locales (auto dest: wp_Ok [OF wp_chan1_recv_body] intro: ls_rely_inv)

text \<open>The state in which the thread enters its loop; its indeterminate \<open>fd\<close> names no open file.\<close>

definition ls_begin :: "'m store_state_scheme \<Rightarrow> bool" where
  "ls_begin s \<longleftrightarrow> ls_fresh s \<and> ls_pending s = 0 \<and> \<not> ls_is_open s"

lemma ls_begin_inv: "ls_begin s \<Longrightarrow> ls_inv s"
  by (simp add: ls_begin_def ls_inv_def ls_inv_upto_def ls_fresh_def)

lemma ls_begin_store0: "ls_begin store0"
  by (simp add: ls_begin_def ls_fresh_def ls_is_open_def dma_within_def open_fds_def)

section \<open>The names of a recording\<close>

text \<open>The directory name the client left in words 30 to 61.\<close>

definition dir_name_in :: "(nat \<Rightarrow> u64) \<Rightarrow> string \<Rightarrow> bool" where
  "dir_name_in m d \<longleftrightarrow> CHR 0x00 \<notin> set d \<and>
     (\<exists>rest. map (\<lambda>k. ps_byte m (240 + k)) [0..<256] = str_bytes d @ 0 # rest)"

lemma copy_file_name_cstr:
  assumes "take 256 (drop 240 ad) = str_bytes d @ 0 # rest" and "CHR 0x00 \<notin> set d"
    and "length sys = 320" and "496 \<le> length ad"
  shows "\<exists>rest'. copy_file_name ad sys = str_bytes (''/smbshare/'' @ d) @ 0 # rest' \<and>
    length (copy_file_name ad sys) = 320"
proof -
  have len: "length (str_bytes d @ 0 # rest) = 256" using assms(1,4) by (simp flip: assms(1))
  have "copy_file_name ad sys = str_bytes ''/smbshare/'' @ (str_bytes d @ 0 # rest) @ drop 266 sys"
    using assms(3) len by (simp add: copy_file_name_def overwrite_def assms(1) str_bytes_def)
  then show ?thesis using len assms(3)
    by (intro exI [of _ "rest @ drop 266 sys"]) (simp add: str_bytes_def)
qed

lemma append_slash_copy:
  assumes "take 256 (drop 240 ad) = str_bytes d @ 0 # rest" and "CHR 0x00 \<notin> set d"
    and "length sys = 320" and "496 \<le> length ad"
  shows "\<exists>sys'. append_slash (copy_file_name ad sys) = Some sys' \<and>
    cstr sys' = ''/smbshare/'' @ d @ ''/'' \<and> length sys' = 320"
proof -
  obtain rest' where c: "copy_file_name ad sys = str_bytes (''/smbshare/'' @ d) @ 0 # rest'"
      "length (copy_file_name ad sys) = 320"
    using copy_file_name_cstr [OF assms] by blast
  have "length (str_bytes d @ 0 # rest) \<le> 256" by (simp flip: assms(1))
  then have ld: "length d < 256" by simp
  have nz: "CHR 0x00 \<notin> set (''/smbshare/'' @ d)" "CHR 0x00 \<notin> set (''/smbshare/'' @ d @ ''/'')"
    using assms(2) by auto
  have p: "cstr (copy_file_name ad sys) = ''/smbshare/'' @ d"
    unfolding c(1) by (rule cstr_append_nul [OF nz(1)])
  let ?sys' = "overwrite 0 (str_bytes (''/smbshare/'' @ d @ ''/'') @ [0]) (copy_file_name ad sys)"
  have "append_slash (copy_file_name ad sys) = Some ?sys'"
    unfolding append_slash_def p Let_def using ld by (simp add: c(1))
  moreover have "cstr ?sys' = ''/smbshare/'' @ d @ ''/''"
    using cstr_append_nul [OF nz(2)] by (simp add: overwrite_def)
  moreover have "length ?sys' = 320" using c(2) ld by (simp add: overwrite_def)
  ultimately show ?thesis by blast
qed

lemma bram_dir_name:
  assumes "dir_name_in (bram_ps s) d"
  shows "\<exists>rest. take 256 (drop 240 (bram_bytes e 1 0x2000 s)) = str_bytes d @ 0 # rest"
proof -
  have "take 256 (drop 240 (bram_bytes e 1 0x2000 s)) = map (\<lambda>k. ps_byte (bram_ps s) (240 + k)) [0..<256]"
    by (rule nth_equalityI) (auto simp: bram_bytes_def ps_byte_def)
  then show ?thesis using assms by (auto simp: dir_name_in_def)
qed

lemma wp_ls_directory_any:
  assumes "dir_name_in (bram_ps s) d" and "length (file_name_sys s) = 320"
  shows "wp (ls_directory e) (\<lambda>_ t. cstr (file_name_sys t) = ''/smbshare/'' @ d @ ''/'' \<and>
    length (file_name_sys t) = 320 \<and> times_from (bram_bytes e 1 0x2000 s) t)
    (\<lambda>a. a = Undefined \<and> 91 < length d) s"
proof -
  let ?ad = "bram_bytes e 1 0x2000 s"
  define p where "p = ''/smbshare/'' @ d @ ''/''"
  have "496 \<le> length ?ad" by (simp add: bram_bytes_def)
  then obtain sys' where sys': "append_slash (copy_file_name ?ad (file_name_sys s)) = Some sys'"
      "cstr sys' = p" "length sys' = 320"
    using append_slash_copy bram_dir_name [OF assms(1)] assms(1,2)
    unfolding dir_name_in_def p_def by metis
  have dir: "wp (CreateDir e p) (\<lambda>_ t. cstr (file_name_sys t) = p \<and>
      length (file_name_sys t) = 320 \<and> times_from ?ad t) (\<lambda>a. a = Undefined \<and> 91 < length d) u"
    if u: "file_name_sys u = sys'" "times_from ?ad u" for u :: "'a store_state_scheme"
  proof (rule wp_mono [OF wp_CreateDir])
    fix t assume "quiet_ext u t"
    then have "machine.more t = machine.more u" by (simp add: quiet_ext_def)
    note same = same_globals [OF this]
    show "cstr (file_name_sys t) = p \<and> length (file_name_sys t) = 320 \<and> times_from ?ad t"
      using u sys'(2,3) by (simp add: same times_from_def)
  qed (simp add: p_def)
  have bb: "bram_bytes e 1 0x2000 (s\<lparr>ls := g, zero_mark := 0\<rparr>) = ?ad" for g
    by (simp add: bram_bytes_def bram_word_def)
  show ?thesis
    unfolding ls_directory_def ls_read_time_def set_times_def p_def [symmetric]
    by (simp add: bb sys', rule dir) (simp_all add: times_from_def)
qed

lemma wp_ls_directory_name:
  assumes "dir_name_in (bram_ps s) d" and "length d \<le> 91" and "length (file_name_sys s) = 320"
  shows "wp (ls_directory e) (\<lambda>_ t. cstr (file_name_sys t) = ''/smbshare/'' @ d @ ''/'' \<and>
    length (file_name_sys t) = 320 \<and> times_from (bram_bytes e 1 0x2000 s) t) (\<lambda>_. False) s"
  by (rule wp_mono [OF wp_ls_directory_any [OF assms(1,3)]]) (use assms(2) in simp_all)

lemma length_sdec_0: "length (sdec 0) = 1"
  by (simp add: sdec_def dec.simps)

lemma length_sdec_1: "length (sdec 1) = 1"
  by (simp add: sdec_def dec.simps)

lemma record_name_cong:
  assumes "time_yer t = time_yer s" "time_mon t = time_mon s" "time_day t = time_day s"
    "time_hor t = time_hor s" "time_min t = time_min s" "time_sec t = time_sec s"
  shows "record_name p n t = record_name p n s"
  using assms by (simp add: record_name_def)

text \<open>A start request creates the files the client asked for.\<close>

lemma wp_ls_start_open_names:
  assumes "recorder_env e"
  shows "wp (bindR (ls_open e) (\<lambda>ok.
     if \<not> ok then ret False else bindR (ls_started_flags e) (\<lambda>_. ret True)))
     (\<lambda>_ t. times_from b t = times_from b s \<and> file_name_all t = file_name_all s \<and>
       ls_file_name (ls t) = ls_file_name (ls s) \<and> file_name_sys t = file_name_sys s \<and>
       record_name p n t = record_name p n s) A s"
proof -
  have "\<not> k_ret e h (Open f FLAGS MODE) < 0" for h f
    using assms by (auto simp: recorder_env_def record_opens_def not_less intro: less_imp_le)
  then show ?thesis
    by (simp add: ls_open_def ls_started_flags_def times_from_def record_name_def)
qed

lemma wp_ls_start_names:
  assumes "recorder_env e" and "ls_fresh s" and "dir_name_in (bram_ps s) d" and "length d \<le> 91"
    and "length (file_name_sys s) = 320"
  shows "wp (ls_start e) (\<lambda>_ t. times_from (bram_bytes e 1 0x2000 s) t \<and>
      file_name_all t 0 = record_name (''/smbshare/'' @ d @ ''/'') 0 t \<and>
      ls_file_name (ls t) = file_name_all t 0 @ ''.bxsldpls'' \<and>
      cstr (file_name_sys t) = ''/smbshare/'' @ d @ ''/'') (\<lambda>_. False) s"
proof -
  define p where "p = ''/smbshare/'' @ d @ ''/''"
  let ?ad = "bram_bytes e 1 0x2000 s"
  let ?Q = "\<lambda>_ t. times_from ?ad t \<and> file_name_all t 0 = record_name p 0 t \<and>
      ls_file_name (ls t) = file_name_all t 0 @ ''.bxsldpls'' \<and> cstr (file_name_sys t) = p"
  let ?m = "bindR (ls_open e) (\<lambda>ok.
     if \<not> ok then ret False else bindR (ls_started_flags e) (\<lambda>_. ret True))"
  have named: "wp ls_new_name (\<lambda>_. wp ?m ?Q (\<lambda>_. False)) (\<lambda>_. False) (t\<lparr>ls_file_num := 0\<rparr>)"
    if "cstr (file_name_sys t) = p" "times_from ?ad t" for t :: "'a store_state_scheme"
  proof (rule wp_ls_new_name_fits)
    show "times_from ?ad (t\<lparr>ls_file_num := 0\<rparr>)" using that(2) by (simp add: times_from_def)
    show "length (cstr (file_name_sys (t\<lparr>ls_file_num := 0\<rparr>))) + 15 +
        length (sdec (ls_file_num (t\<lparr>ls_file_num := 0\<rparr>))) + 9 < 128"
      using that(1) assms(4) by (simp add: length_sdec_0 p_def)
    fix nm assume nm: "nm = record_name (cstr (file_name_sys (t\<lparr>ls_file_num := 0\<rparr>)))
      (ls_file_num (t\<lparr>ls_file_num := 0\<rparr>)) (t\<lparr>ls_file_num := 0\<rparr>)"
    then have nm': "nm = record_name p 0 t" using that(1) by (simp add: record_name_def)
    show "wp ?m ?Q (\<lambda>_. False) (t\<lparr>ls_file_num := 0, file_name_all := (file_name_all (t\<lparr>ls_file_num := 0\<rparr>))
        (nat (ls_file_num (t\<lparr>ls_file_num := 0\<rparr>) mod cyc_mark) := nm),
        ls := (ls (t\<lparr>ls_file_num := 0\<rparr>))\<lparr>ls_file_name := nm @ ''.bxsldpls''\<rparr>\<rparr>)"
      by (rule wp_mono [OF wp_ls_start_open_names [OF assms(1), where b = ?ad and p = p and n = 0]])
        (use that nm' in \<open>auto simp: times_from_def record_name_def\<close>)
  qed
  show ?thesis
    unfolding ls_start_def wp_bindR [of "seqR _"] wp_statement p_def [symmetric]
    by (rule wp_mono [OF wp_ls_directory_name [OF assms(3-5), folded p_def]])
      (use named in \<open>simp_all del: wp_bindR\<close>)
qed

text \<open>With a longer directory name the names of the recording do not fit their arrays.\<close>

lemma wp_ls_new_name_overflow:
  assumes "118 < length (cstr (file_name_sys s)) + 15 + length (sdec (ls_file_num s))" and "times_from b s"
  shows "wp ls_new_name (\<lambda>_ _. False) (\<lambda>a. a = Undefined) s"
  using assms by (simp add: ls_new_name_def sprintf_fits_def length_record_name)

lemma ls_start_overflow:
  assumes "dir_name_in (bram_ps s) d" and "91 < length d" and "length (file_name_sys s) = 320"
  shows "\<exists>t. ls_start e s = Fail Undefined t"
proof -
  have names: "wp ls_new_name (\<lambda>_ _. False) (\<lambda>a. a = Undefined) (t\<lparr>ls_file_num := 0\<rparr>)"
    if "cstr (file_name_sys t) = ''/smbshare/'' @ d @ ''/''" "times_from b t"
    for b and t :: "'a store_state_scheme"
    by (rule wp_ls_new_name_overflow [where b = b])
      (use that assms(2) in \<open>simp_all add: length_sdec_0 times_from_def\<close>)
  have "wp (seqR [ls_directory e, modify (\<lambda>s. s\<lparr>ls_file_num := 0\<rparr>), ls_new_name])
      (\<lambda>_ _. False) (\<lambda>a. a = Undefined) s"
    unfolding wp_statement
    by (rule wp_mono [OF wp_ls_directory_any [OF assms(1,3)]]) (auto intro: names)
  then obtain t where "seqR [ls_directory e, modify (\<lambda>s. s\<lparr>ls_file_num := 0\<rparr>), ls_new_name] s
      = Fail Undefined t"
    by (auto simp: wp_def split: result.splits)
  then show ?thesis by (simp add: ls_start_def bindR_def)
qed

text \<open>Runs for the witnesses: other threads set flags, then an iteration starts a recording.\<close>

definition flagged :: "(nat \<Rightarrow> u64) \<Rightarrow> (nat \<Rightarrow> u8) \<Rightarrow> 'm store_state_scheme \<Rightarrow> 'm store_state_scheme" where
  "flagged m f s = s\<lparr>chan_slice := f, bram_ps := m\<rparr>"

lemma ls_rely_flagged:
  assumes "ls_inv s"
  shows "ls_rely s (flagged m f s)"
  using assms by (simp add: ls_rely_def flagged_def ls_inv_def ls_inv_upto_def ls_is_open_def)

lemma dir_name_in_zero: "\<forall>i. m (30 + i) = 0 \<Longrightarrow> dir_name_in m ''''"
proof -
  assume z: "\<forall>i. m (30 + i) = 0"
  have "ps_byte m (240 + k) = 0" for k
  proof -
    have "(240 + k) div 8 = 30 + k div 8" by simp
    then show ?thesis using z by (simp add: ps_byte_def byte_at_def)
  qed
  then have "map (\<lambda>k. ps_byte m (240 + k)) [0..<256] = str_bytes '''' @ 0 # replicate 255 0"
    by (intro nth_equalityI) (simp_all add: str_bytes_def nth_Cons')
  then show ?thesis unfolding dir_name_in_def by auto
qed

lemma wp_ls_start_bram:
  "wp (ls_start e) (\<lambda>_ t. bram_ps t LS_STOP_STORE = bram_ps s LS_STOP_STORE) (\<lambda>_. True) s"
proof -
  have dir: "wp (CreateDir e p) (\<lambda>_ t. bram_ps t = bram_ps u) (\<lambda>_. True) u"
    for p and u :: "'a store_state_scheme"
    by (rule wp_mono [OF wp_CreateDir]) (simp_all add: quiet_ext_def)
  have rest: "wp (seqR [modify (\<lambda>s. s\<lparr>ls_file_num := 0\<rparr>), ls_new_name]) (\<lambda>_ t. bram_ps t = bram_ps u)
    (\<lambda>_. True) u" for u :: "'a store_state_scheme"
    by (simp add: ls_new_name_def sprintf_fits_def)
  have opn: "wp (bindR (ls_open e) (\<lambda>ok.
     if \<not> ok then ret False else bindR (ls_started_flags e) (\<lambda>_. ret True)))
     (\<lambda>_ t. bram_ps t LS_STOP_STORE = bram_ps s LS_STOP_STORE) (\<lambda>_. True) u"
    if "bram_ps u = bram_ps s" for u :: "'a store_state_scheme"
    using that by (simp add: ls_open_def ls_started_flags_def store_words)
  have "wp (ls_directory e) (\<lambda>_ t. bram_ps t = bram_ps s) (\<lambda>_. True) s"
    unfolding ls_directory_def ls_read_time_def set_times_def
    by (auto split: option.split intro!: wp_mono [OF dir])
  then show ?thesis
    unfolding ls_start_def wp_bindR [of "seqR _"] wp_statement(4) [of "ls_directory e"]
    by (rule wp_mono) (auto intro!: wp_mono [OF rest] opn simp del: wp_bindR wp_statement)
qed

lemma wp_chan1_first:
  assumes "recorder_env e" and "ls_fresh s" and "dir_name_in (bram_ps s) d" and "length d \<le> 91"
    and "length (file_name_sys s) = 320" and "bram_ps s STAR_STORE = 1"
    and "bram_ps s LS_STOP_STORE \<noteq> 1" and "chan_slice s 1 = 0" and "chan_stored s 1 = 0"
  shows "wp (chan1_recv_body e 1) (\<lambda>_ t. ls_inv t \<and> ls_is_open t \<and> chan_stored t 1 = 0 \<and> ls_short t)
    (\<lambda>_. False) s"
proof -
  have short: "ls_short t" if "cstr (file_name_sys t) = ''/smbshare/'' @ d @ ''/''" "ls_file_num t = 1"
    for t :: "'a store_state_scheme"
    using that assms(4) by (simp add: ls_short_def length_sdec_1)
  have "wp (ls_start e) (\<lambda>ok t. ok \<and> ls_started t \<and> chan_slice t = chan_slice s \<and>
      chan_stored t = chan_stored s \<and> bram_ps t LS_STOP_STORE \<noteq> 1 \<and> ls_short t) (\<lambda>_. False) s"
    using short wp_total_conj [OF wp_total_conj [OF wp_ls_start_names [OF assms(1-5)]
        wp_ls_start [OF assms(1,2)]] wp_ls_start_bram] assms(7)
    by (auto simp: ls_started_def elim!: wp_mono)
  then show ?thesis using assms(6,8,9)
    by (auto simp: chan1_recv_body_def ls_started_def ls_frame_def ls_short_def elim!: wp_mono
        intro!: wp_mono [OF wp_ls_record [OF assms(1)]])
qed

definition starting :: "nat \<Rightarrow> u64" where
  "starting = (\<lambda>_. 0)(18 := 1)"

lemma ls_second:
  obtains t where "interleave (chan1_recv_body env_on 1) ls_rely store0 t" and "ls_is_open t"
    and "ls_inv t" and "chan_slice t = f" and "bram_ps t = m" and "chan_stored t 1 = 0" and "ls_short t"
proof -
  let ?s = "flagged starting (\<lambda>_. 0) store0"
  note inv0 = ls_begin_inv [OF ls_begin_store0]
  have f: "ls_fresh ?s" using inv0 by (simp add: ls_fresh_def flagged_def dma_within_def)
  have d: "dir_name_in (bram_ps ?s) ''''" by (simp add: flagged_def starting_def dir_name_in_zero)
  have fs: "length (file_name_sys ?s) = 320" by (simp add: flagged_def store0_def)
  have "wp (chan1_recv_body env_on 1) (\<lambda>_ t. ls_inv t \<and> ls_is_open t \<and> chan_stored t 1 = 0 \<and> ls_short t)
      (\<lambda>_. False) ?s"
    by (rule wp_chan1_first [OF recorder_env_on f d _ fs])
      (simp_all add: flagged_def starting_def store_words)
  from wp_returns [OF this] obtain t where t: "chan1_recv_body env_on 1 ?s = Ok () t" "ls_inv t"
      "ls_is_open t" "chan_stored t 1 = 0" "ls_short t"
    by blast
  have "interleave (chan1_recv_body env_on 1) ls_rely store0 ?s"
    by (rule interleave.others, rule interleave.start, rule ls_rely_flagged [OF inv0])
  then have "interleave (chan1_recv_body env_on 1) ls_rely store0 t"
    using t(1) by (rule interleave.own)
  then have run: "interleave (chan1_recv_body env_on 1) ls_rely store0 (flagged m f t)"
    using ls_rely_flagged [OF t(2)] by (rule interleave.others)
  show thesis
    by (rule that [OF run])
      (use t ls_rely_inv [OF t(2) ls_rely_flagged [OF t(2)]] in \<open>simp_all add: flagged_def ls_is_open_def ls_short_def\<close>)
qed

section \<open>After a stop request\<close>

text \<open>
  The thread after a stop request: its file is closed, but it keeps the number \<open>f\<close> and goes on
  receiving; \<open>k\<close> blocks are pending, the first of them the bytes \<open>b\<close>.
\<close>

definition ls_closed_at :: "int \<Rightarrow> int \<Rightarrow> bytes \<Rightarrow> nat \<Rightarrow> 'm store_state_scheme \<Rightarrow> bool" where
  "ls_closed_at f g b k s \<longleftrightarrow> ls_file s = f \<and> 0 < f \<and> f \<notin> open_fds (hist s) \<and> ls_dma s = g \<and>
     gMutexDma s = 0 \<and> dma_num (axidma s ! 1) = 1 \<and> chan_stored s 1 = 0 \<and> chan_slice s 1 = 0 \<and>
     bram_ps s STAR_STORE \<noteq> 1 \<and> bram_ps s LS_STOP_STORE \<noteq> 1 \<and> ls_pending s = 0x8000 * k \<and>
     length b \<le> 0x8000 * k \<and> mem_bytes (rxmem s 1) 0 (length b) = b"

text \<open>A whole buffer that begins with \<open>b\<close> is written to \<open>f\<close> while \<open>f\<close> is closed.\<close>

definition ls_closed_write :: "int \<Rightarrow> bytes \<Rightarrow> 'm store_state_scheme \<Rightarrow> 'm store_state_scheme \<Rightarrow> bool" where
  "ls_closed_write f b s t \<longleftrightarrow> ls_file t = f \<and> (\<exists>h w x h'. hist t = hist s @ h @ (Write f w, x) # h' \<and>
     f \<notin> open_fds (hist s @ h) \<and> length w = 0x60000 \<and> take (length b) w = b)"

text \<open>A PL that always has a block to deliver, and an engine that delivers it.\<close>

definition ls_busy :: "env \<Rightarrow> int \<Rightarrow> bool" where
  "ls_busy e g \<longleftrightarrow> (\<forall>h. 0x7f80 \<le> (ucast (pl_word e h 1 516 * 0x20) :: u32)) \<and>
     (\<forall>h off. k_ret e h (Ioctl g DMA_RD off) = 0x8000)"

lemma take_mem_bytes: "k \<le> n \<Longrightarrow> take k (mem_bytes m i n) = mem_bytes m i k"
  by (simp add: mem_bytes_def take_map)

lemma ls_closed_write_later:
  assumes "ls_closed_write f b v u" and "hist v = hist s @ h" and "hist t = hist u @ h2" and "ls_file t = ls_file u"
  shows "ls_closed_write f b s t"
proof -
  obtain h1 w x h' where "ls_file u = f" "hist u = hist v @ h1 @ (Write f w, x) # h'"
      "f \<notin> open_fds (hist v @ h1)" "length w = 0x60000" "take (length b) w = b"
    using assms(1) by (auto simp: ls_closed_write_def)
  then show ?thesis using assms(2-4) unfolding ls_closed_write_def
    by (intro conjI exI [of _ "h @ h1"] exI [of _ w] exI [of _ x] exI [of _ "h' @ h2"]) simp_all
qed

lemma wp_ls_closed_fetch:
  assumes "ls_busy e g" and "ls_closed_at f g b k s" and "k \<le> 11"
  shows "wp (ls_fetch e 1) (\<lambda>_ t. ls_closed_at f g b (Suc k) t \<and> (\<exists>h. hist t = hist s @ h)) (\<lambda>_. False) s"
proof -
  let ?rb = "ls_read_bytes (ls s)"
  have p: "unat ?rb = 0x8000 * k" using assms(2) by (simp add: ls_closed_at_def)
  then have add: "unat (?rb + 0x8000) = 0x8000 * Suc k" using assms(3) by (simp add: unat_word_ariths)
  have off: "unat (ucast ?rb :: u64) = 0x8000 * k"
    using unsigned_less [of ?rb, where ?'a = nat] p
    by (simp add: unsigned_ucast_eq take_bit_nat_eq_self)
  have keep: "mem_bytes (patch m (0x8000 * k) d) 0 (length b) = mem_bytes m 0 (length b)" for m d
    using assms(2) by (simp add: mem_bytes_patch_before ls_closed_at_def)
  show ?thesis using assms add off keep
    by (simp add: ls_busy_def ls_closed_at_def ls_fetch_def chan_fifo_count_def gettimeofday_def
        wp_dma_read_one block_ok_def DMA_TRANS_SIZE_def DMA_PREREAD_def bram_word_pl hist_simps One_nat_def)
qed

lemma wp_ls_closed_flush:
  assumes "ls_closed_at f g b k s" and "k \<le> 12"
  shows "wp (ls_flush e 1) (\<lambda>_ t. chan_slice t 1 = 0 \<and> (if k < 12 then t = s
    else ls_closed_write f b s t)) (\<lambda>_. False) s"
proof -
  have full: "ls_read_bytes (ls s) = IFD_WRITE_MN \<longleftrightarrow> \<not> k < 12"
    using assms by (auto simp: IFD_WRITE_MN_def word_unat_eq_iff ls_closed_at_def)
  show ?thesis
  proof (cases "k < 12")
    case True
    then show ?thesis using assms(1) full by (simp add: ls_flush_def ls_closed_at_def)
  next
    case False
    have tk: "take (length b) (mem_bytes (rxmem s 1) 0 0x60000) = b"
      using assms by (simp add: take_mem_bytes ls_closed_at_def)
    show ?thesis using assms(1) full False tk
      by (auto simp: ls_flush_def ls_closed_at_def ls_closed_write_def ls_write_def IFD_WRITE_MN_def
          intro: exI [of _ "[]"])
  qed
qed

lemma wp_ls_closed_step:
  assumes "ls_busy e g" and "ls_closed_at f g b k s" and "k \<le> 11"
  shows "wp (chan1_recv_body e 1) (\<lambda>_ t. if k < 11 then ls_closed_at f g b (Suc k) t \<and> (\<exists>h. hist t = hist s @ h)
    else ls_closed_write f b s t) (\<lambda>_. False) s"
proof -
  have stamp: "wp (bindR (gettimeofday e) (\<lambda>tv. upd_ls (\<lambda>l. l\<lparr>ls_end_time := tv\<rparr>)))
      (\<lambda>_. wp (whenR (\<lambda>s. chan_slice s 1 \<noteq> 0) (ls_cut e 1))
        (\<lambda>_ t. if k < 11 then ls_closed_at f g b (Suc k) t \<and> (\<exists>h. hist t = hist s @ h)
          else ls_closed_write f b s t) (\<lambda>_. False)) (\<lambda>_. False) u"
    if "chan_slice u 1 = 0" "if Suc k < 12 then u = v else ls_closed_write f b v u"
      "ls_closed_at f g b (Suc k) v" "hist v = hist s @ h"
    for u v :: "'a store_state_scheme" and h
    using that assms(3) ls_closed_write_later [of f b v u s h]
    by (auto simp: gettimeofday_def ls_closed_at_def hist_simps)
  have "wp (ls_record e 1) (\<lambda>_ t. if k < 11 then ls_closed_at f g b (Suc k) t \<and> (\<exists>h. hist t = hist s @ h)
    else ls_closed_write f b s t) (\<lambda>_. False) s"
    unfolding ls_record_def wp_statement(3,4)
    by (rule wp_mono [OF wp_ls_closed_fetch [OF assms]], elim conjE exE, rule wp_mono [OF wp_ls_closed_flush],
        assumption, use assms(3) in simp, elim conjE, rule stamp, assumption+)
  then show ?thesis using assms(2) by (simp add: chan1_recv_body_def ls_closed_at_def)
qed

lemma ls_closed_iter:
  assumes "ls_busy e g"
  shows "ls_closed_at f g b k s \<Longrightarrow> k + n = 11 \<Longrightarrow>
    \<exists>t. iterR (Suc n) (chan1_recv_body e 1) s = Ok () t \<and> ls_closed_write f b s t"
proof (induction n arbitrary: k s)
  case 0
  then have k: "k = 11" by simp
  from wp_returns [OF wp_ls_closed_step [OF assms 0(1)]] k show ?case by auto
next
  case (Suc n)
  have k: "k < 11" "k \<le> 11" using Suc.prems(2) by simp_all
  from wp_returns [OF wp_ls_closed_step [OF assms Suc.prems(1) k(2)]] k(1)
  obtain t h where t: "chan1_recv_body e 1 s = Ok () t" "ls_closed_at f g b (Suc k) t" "hist t = hist s @ h"
    by auto
  from Suc.IH [OF t(2)] Suc.prems(2) obtain u where u: "iterR (Suc n) (chan1_recv_body e 1) t = Ok () u"
      "ls_closed_write f b t u"
    by auto
  have "ls_closed_write f b s u" by (rule ls_closed_write_later [OF u(2) t(3), of _ "[]"]) simp_all
  with t(1) u(1) show ?case by auto
qed

lemma ls_stop_closes_at:
  assumes "ls_is_open s" and "0 < ls_file s" and "gMutexDma s = 0" and "dma_num (axidma s ! 1) = 1"
    and "chan_stored s 1 = 0" and "chan_slice s 1 = 0" and "bram_ps s STAR_STORE \<noteq> 1"
    and "bram_ps s LS_STOP_STORE = 1" and "ls_pending s = 0x8000 * p"
  shows "\<exists>u h. ls_stop e s = Ok () u \<and> hist u = hist s @ h \<and>
    ls_closed_at (ls_file s) (ls_dma s) (mem_bytes (rxmem s 1) 0 (0x8000 * p)) p u \<and>
    chan1_recv_body e 1 s = chan1_recv_body e 1 u"
proof -
  have "wp (ls_stop e) (\<lambda>_ u. (\<exists>h. hist u = hist s @ h) \<and>
    ls_closed_at (ls_file s) (ls_dma s) (mem_bytes (rxmem s 1) 0 (0x8000 * p)) p u) (\<lambda>_. False) s"
    using assms by (simp add: ls_stop_def ls_closed_at_def hist_simps store_words One_nat_def)
  from wp_returns [OF this] obtain u h where u: "ls_stop e s = Ok () u" "hist u = hist s @ h"
      "ls_closed_at (ls_file s) (ls_dma s) (mem_bytes (rxmem s 1) 0 (0x8000 * p)) p u"
    by auto
  moreover have "chan1_recv_body e 1 s = chan1_recv_body e 1 u"
    using u assms by (simp add: chan1_recv_body_def ls_closed_at_def run_simps)
  ultimately show ?thesis by blast
qed

section \<open>Properties\<close>

text \<open>C2: the recorder of channel 1 loses and duplicates nothing.  However its iterations interleave
  with the other threads, the PL and the kernel, while its file is open the bytes the DMA engine
  delivered since it was opened are exactly the bytes in the file followed by the bytes still in
  the buffer, and those are whole blocks, fewer than one flush.\<close>

theorem ls_lossless:
  assumes "recorder_env e" and "ls_begin s" and "interleave (chan1_recv_body e 1) ls_rely s t"
  shows "0x8000 dvd ls_pending t \<and> ls_pending t < unat IFD_WRITE_MN \<and>
    (ls_is_open t \<longrightarrow> received (ls_dma t) (ls_file t) (hist t)
        = written (ls_file t) (hist t) @ mem_bytes (rxmem t 1) 0 (ls_pending t))"
  using ls_loop.interleave_inv [OF assms(3)] ls_begin_inv [OF assms(2)] assms(1)
  by (auto simp: ls_inv_def ls_inv_upto_def ls_stream_def IFD_WRITE_MN_def)

theorem ls_lossless_witness:
  "\<exists>t. interleave (chan1_recv_body env_on 1) ls_rely store0 t \<and> ls_is_open t \<and>
    received (ls_dma t) (ls_file t) (hist t)
      = written (ls_file t) (hist t) @ mem_bytes (rxmem t 1) 0 (ls_pending t)"
proof -
  obtain t where "interleave (chan1_recv_body env_on 1) ls_rely store0 t" "ls_is_open t"
    by (rule ls_second)
  with ls_lossless [OF recorder_env_on ls_begin_store0 this(1)] show ?thesis by auto
qed

text \<open>C10: an iteration that finds a slice request ends the file of channel 1 complete: at the moment it
  is closed the file holds everything the engine delivered for it and none of the padding of
  the last direct write; a new file is open afterwards and the channel is marked stored.\<close>

theorem ls_cut_complete:
  assumes "recorder_env e" and "ls_begin s" and "interleave (chan1_recv_body e 1) ls_rely s t"
    and "ls_is_open t" and "bram_ps t STAR_STORE \<noteq> 1" and "bram_ps t LS_STOP_STORE \<noteq> 1"
    and "chan_stored t 1 = 0" and "chan_slice t 1 \<noteq> 0" and "ls_short t"
  shows "\<exists>u. chan1_recv_body e 1 t = Ok () u \<and> (\<exists>h x h'. hist u = (hist t @ h) @ (Close (ls_file t), x) # h' \<and>
      written (ls_file t) (hist t @ h) = received (ls_dma t) (ls_file t) (hist t @ h)) \<and>
    ls_is_open u \<and> ls_pending u = 0 \<and> chan_slice u 1 = 0 \<and> chan_stored u 1 = 1"
proof -
  have inv: "ls_inv t"
    using ls_loop.interleave_inv [OF assms(3)] ls_begin_inv [OF assms(2)] assms(1) by blast
  have "wp (chan1_recv_body e 1) (\<lambda>_. ls_cut_done t) (\<lambda>_. False) t"
    by (rule wp_mono [OF wp_chan1_recv_cut [OF assms(1) inv assms(5-8)]]) (use assms(9) in auto)
  from wp_returns [OF this] assms(4) show ?thesis
    unfolding ls_cut_done_def ls_complete_def by blast
qed

theorem ls_cut_complete_witness:
  "\<exists>t. interleave (chan1_recv_body env_on 1) ls_rely store0 t \<and> ls_is_open t \<and>
    (\<exists>u. chan1_recv_body env_on 1 t = Ok () u \<and> ls_is_open u \<and> chan_stored u 1 = 1)"
proof -
  obtain t where t: "interleave (chan1_recv_body env_on 1) ls_rely store0 t" "ls_is_open t"
      "chan_slice t = (\<lambda>_. 1)" "bram_ps t = (\<lambda>_. 0)" "chan_stored t 1 = 0" "ls_short t"
    by (rule ls_second)
  have "bram_ps t STAR_STORE \<noteq> 1" "bram_ps t LS_STOP_STORE \<noteq> 1" "chan_slice t 1 \<noteq> 0"
    using t(3,4) by simp_all
  from ls_cut_complete [OF recorder_env_on ls_begin_store0 t(1,2) this(1,2) t(5) this(3) t(6)] t(1,2)
  show ?thesis by blast
qed

text \<open>C17: a start request with a directory name of at most 91 characters always starts a recording: the
  file names are built from the directory the client sent and the time the PL keeps, an empty
  file is open, and the file counters of the three threads agree.\<close>

theorem ls_start_recording:
  assumes "recorder_env e" and "ls_fresh s" and "dir_name_in (bram_ps s) d" and "length d \<le> 91"
    and "length (file_name_sys s) = 320"
  shows "\<exists>t. ls_start e s = Ok True t \<and> times_from (bram_bytes e 1 0x2000 s) t \<and>
    file_name_all t 0 = record_name (''/smbshare/'' @ d @ ''/'') 0 t \<and>
    ls_file_name (ls t) = file_name_all t 0 @ ''.bxsldpls'' \<and> ls_is_open t \<and>
    written (ls_file t) (hist t) = [] \<and> ls_pending t = 0 \<and> bram_ps t STAR_STORE = 0 \<and>
    bram_ps t FILE_MARK = 0 \<and> ls_file_num t = 1 \<and> mn_file_num t = 0 \<and> sy_file_num t = 0"
proof -
  obtain v t where "ls_start e s = Ok v t"
    "(times_from (bram_bytes e 1 0x2000 s) t \<and>
      file_name_all t 0 = record_name (''/smbshare/'' @ d @ ''/'') 0 t \<and>
      ls_file_name (ls t) = file_name_all t 0 @ ''.bxsldpls'' \<and>
      cstr (file_name_sys t) = ''/smbshare/'' @ d @ ''/'')" "v \<and> ls_started t"
    using wp_total [OF wp_total_conj [OF wp_ls_start_names [OF assms] wp_ls_start [OF assms(1,2)]]]
    by blast
  then show ?thesis by (intro exI [of _ t]) (simp add: ls_started_def)
qed

theorem ls_start_recording_witness:
  "\<exists>t. ls_start env_on store0 = Ok True t \<and>
    file_name_all t 0 = record_name (''/smbshare/'' @ '''' @ ''/'') 0 t \<and> ls_is_open t"
proof -
  have f: "ls_fresh store0" using ls_begin_store0 by (simp add: ls_begin_def)
  have d: "dir_name_in (bram_ps store0) ''''" by (simp add: dir_name_in_zero)
  have fs: "length (file_name_sys store0) = 320" by (simp add: store0_def)
  have "length ('''' :: string) \<le> 91" by simp
  from ls_start_recording [OF recorder_env_on f d this fs] show ?thesis by blast
qed

text \<open>C31: a stop request closes the file of channel 1 and, exactly when it is empty, removes it and marks
  the recording as empty for the other two threads.\<close>

theorem ls_stop_removes_empty:
  assumes "recorder_env e" and "ls_is_open s"
  shows "\<exists>t. ls_stop e s = Ok () t \<and> \<not> ls_is_open t \<and> bram_ps t LS_STOP_STORE = 0 \<and>
    (if written (ls_file s) (hist s) = []
     then zero_mark t = 1 \<and> (\<exists>x. (Remove (ls_file_name (ls s)), x) \<in> set (drop (length (hist s)) (hist t)))
     else zero_mark t = zero_mark s \<and>
       (\<forall>f x. (Remove f, x) \<notin> set (drop (length (hist s)) (hist t))))"
proof -
  have sk: "k_ret e (hist s) (Lseek (ls_file s) 0 SEEK_END) = int (length (written (ls_file s) (hist s)))"
    using assms by (auto simp: recorder_env_def seek_ends_def ls_is_open_def)
  have "wp (ls_stop e) (\<lambda>_ t. \<not> ls_is_open t \<and> bram_ps t LS_STOP_STORE = 0 \<and>
    (if written (ls_file s) (hist s) = []
     then zero_mark t = 1 \<and> (\<exists>x. (Remove (ls_file_name (ls s)), x) \<in> set (drop (length (hist s)) (hist t)))
     else zero_mark t = zero_mark s \<and>
       (\<forall>f x. (Remove f, x) \<notin> set (drop (length (hist s)) (hist t))))) (\<lambda>_. False) s"
    by (auto simp: ls_stop_def sk ls_is_open_def hist_simps store_words)
  from wp_returns [OF this] show ?thesis by simp
qed

theorem ls_stop_removes_empty_witness:
  "\<exists>(s :: store_state) t. ls_is_open s \<and> ls_stop env_on s = Ok () t \<and> \<not> ls_is_open t \<and> bram_ps t LS_STOP_STORE = 0"
proof -
  obtain s where s: "interleave (chan1_recv_body env_on 1) ls_rely store0 s" "ls_is_open s"
    by (rule ls_second)
  from ls_stop_removes_empty [OF recorder_env_on s(2)] s(2) show ?thesis by blast
qed

text \<open>C30: a stop request closes the file of channel 1, but the thread neither drops what it has received
  for it nor forgets its number.  It goes on receiving, and in the iteration that fills its buffer,
  the twelfth block from the start of the buffer, it writes the whole buffer to the descriptor it
  has closed, the rest of the stopped recording first.\<close>

theorem ls_writes_closed:
  assumes "ls_is_open s" and "0 < ls_file s" and "gMutexDma s = 0" and "dma_num (axidma s ! 1) = 1"
    and "chan_stored s 1 = 0" and "chan_slice s 1 = 0" and "bram_ps s STAR_STORE \<noteq> 1"
    and "bram_ps s LS_STOP_STORE = 1" and "ls_pending s = 0x8000 * p" and "p \<le> 11"
    and "ls_busy e (ls_dma s)"
  shows "\<exists>t h d x h'. iterR (12 - p) (chan1_recv_body e 1) s = Ok () t \<and> ls_file t = ls_file s \<and>
    hist t = hist s @ h @ (Write (ls_file s) d, x) # h' \<and> ls_file s \<notin> open_fds (hist s @ h) \<and>
    length d = 0x60000 \<and> take (0x8000 * p) d = mem_bytes (rxmem s 1) 0 (0x8000 * p)"
proof -
  obtain u h where u: "hist u = hist s @ h"
      "ls_closed_at (ls_file s) (ls_dma s) (mem_bytes (rxmem s 1) 0 (0x8000 * p)) p u"
      "chan1_recv_body e 1 s = chan1_recv_body e 1 u"
    using ls_stop_closes_at [OF assms(1-9), of e] by blast
  have p: "p + (11 - p) = 11" "12 - p = Suc (11 - p)" using assms(10) by simp_all
  obtain t where t: "iterR (12 - p) (chan1_recv_body e 1) u = Ok () t"
      "ls_closed_write (ls_file s) (mem_bytes (rxmem s 1) 0 (0x8000 * p)) u t"
    using ls_closed_iter [OF assms(11) u(2) p(1)] unfolding p(2) by blast
  have "iterR (12 - p) (chan1_recv_body e 1) s = Ok () t"
    using t(1) u(3) unfolding p(2) by simp
  moreover have "ls_closed_write (ls_file s) (mem_bytes (rxmem s 1) 0 (0x8000 * p)) s t"
    by (rule ls_closed_write_later [OF t(2) u(1), of _ "[]"]) simp_all
  ultimately show ?thesis unfolding ls_closed_write_def length_mem_bytes by blast
qed
text \<open>A recorder with an open file, ten blocks of it in its buffer, and a pending stop request.\<close>

definition store_stopping :: store_state where
  "store_stopping = store0\<lparr>hist := [(Open ''a'' FLAGS MODE, 7, [])], bram_ps := (\<lambda>_. 0)(22 := 1),
     ls := (ls store0)\<lparr>ls_fd := 7, ls_read_bytes := 0x50000\<rparr>\<rparr>"

theorem ls_writes_closed_witness:
  "\<exists>t h d x h'. iterR 2 (chan1_recv_body env_on 1) store_stopping = Ok () t \<and>
    hist t = hist store_stopping @ h @ (Write 7 d, x) # h' \<and> 7 \<notin> open_fds (hist store_stopping @ h) \<and>
    length d = 0x60000"
proof -
  have o: "ls_is_open store_stopping" by (simp add: ls_is_open_def store_stopping_def open_fds_def)
  have f: "ls_file store_stopping = 7" by (simp add: store_stopping_def)
  have p: "ls_pending store_stopping = 0x8000 * 10" by (simp add: store_stopping_def)
  have b: "ls_busy env_on (ls_dma store_stopping)" by (simp add: ls_busy_def)
  have m: "gMutexDma store_stopping = 0" "dma_num (axidma store_stopping ! 1) = 1"
      "chan_stored store_stopping 1 = 0" "chan_slice store_stopping 1 = 0"
      "bram_ps store_stopping STAR_STORE \<noteq> 1" "bram_ps store_stopping LS_STOP_STORE = 1"
    by (simp_all add: store_stopping_def store_words)
  have "(0 :: int) < ls_file store_stopping" "(10 :: nat) \<le> 11" by (simp_all add: f)
  from ls_writes_closed [OF o this(1) m p this(2) b] show ?thesis unfolding f by (simp, blast)
qed

end
