(* ===== verification/Store_Sy.thy ===== *)
theory Store_Sy
  imports Store
begin

text \<open>
  \<open>index_recv_routine\<close> of store.c, the thread that copies the index buffer of the PL (BRAM
  window 0) into the files \<open>.bxsldsy\<close>.
\<close>

section \<open>The loop body\<close>

text \<open>\<open>memcmp\<close> of the 32 bytes at \<open>recv_bytes\<close> with the all-zero end mark.\<close>

definition index_end :: "sy_locals \<Rightarrow> bool" where
  "index_end l \<longleftrightarrow> mem_bytes (sy_index_buffer l) (unat (sy_recv_bytes l)) 32 = replicate 32 0"

definition sy_stop :: "env \<Rightarrow> ('m store_state_scheme, unit) prog" where
  "sy_stop e = seqR
     [sysdo e (Usleep 500),
      whenR (\<lambda>s. zero_mark s = 1 \<and> sy_file_num s = ls_file_num s)
        (bindR (gets (\<lambda>s. sy_file_name (sy s))) (\<lambda>f. sysdo e (Remove f))),
      upd_sy (\<lambda>l. l\<lparr>sy_recv_bytes := 0, sy_ret_bytes := 0\<rparr>),
      modify (\<lambda>s. s\<lparr>chan0_index := 0, chan0_index_alt := 1, chan0_indexed := 1\<rparr>),
      bram_st 1 SY_STOP_STORE 0,
      bindR (gets (\<lambda>s. sy_fd (sy s))) (\<lambda>fd. sysdo e (Close fd))]"

text \<open>Copying the index buffer when the PL has filled it, and releasing it.\<close>

definition sy_fetch :: "env \<Rightarrow> ('m store_state_scheme, unit) prog" where
  "sy_fetch e = bindR (index_buf_valid e) (\<lambda>v.
     if v = 0 then ret ()
     else seqR
       [modify (\<lambda>s. s\<lparr>index_count := index_count s + 1\<rparr>),
        bindR (ubram_read e 0 (int BRAM_SIZE)) (\<lambda>(r, d). upd_sy (\<lambda>l. l\<lparr>
          sy_index_buffer := patch (sy_index_buffer l) (unat (sy_recv_bytes l)) d,
          sy_ret_bytes := word_of_int r\<rparr>)),
        index_buf_invalid e])"

text \<open>A new file; \<open>False\<close> is the \<open>continue\<close> after a failure.\<close>

definition sy_open :: "env \<Rightarrow> ('m store_state_scheme, bool) prog" where
  "sy_open e =
     bindR (gets (\<lambda>s. file_name_all s (nat (sy_file_num s mod cyc_mark)))) (\<lambda>nm.
     bindR (sprintf_fits 128 (nm @ ''.bxsldsy'')) (\<lambda>f.
     bindR (upd_sy (\<lambda>l. l\<lparr>sy_file_name := f\<rparr>)) (\<lambda>_.
     bindR (modify (\<lambda>s. s\<lparr>sy_file_num := sy_file_num s + 1\<rparr>)) (\<lambda>_.
     bindR (syscall e (Open f [O_RDWR, O_CREAT, O_TRUNC] MODE)) (\<lambda>r.
     bindR (upd_sy (\<lambda>l. l\<lparr>sy_fd := r\<rparr>)) (\<lambda>_.
     if r < 0 then ret False
     else bindR (modify (\<lambda>s. s\<lparr>chan0_index_alt := 0\<rparr>)) (\<lambda>_.
       bindR (upd_sy (\<lambda>l. l\<lparr>sy_recv_bytes := 0\<rparr>)) (\<lambda>_. ret True))))))))"

definition sy_save :: "env \<Rightarrow> ('m store_state_scheme, unit) prog" where
  "sy_save e = seqR
     [upd_sy (\<lambda>l. l\<lparr>sy_recv_bytes := sy_recv_bytes l + sy_ret_bytes l\<rparr>),
      whenR (\<lambda>s. sy_recv_bytes (sy s) = IDX_WRITE_THRESHOLD) (seqR
        [whenR (\<lambda>s. chan0_index_alt s = 0)
           (bindR (gets sy) (\<lambda>l. sysdo e (Write (sy_fd l)
             (mem_bytes (sy_index_buffer l) 0 (unat IDX_WRITE_THRESHOLD))))),
         upd_sy (\<lambda>l. l\<lparr>sy_recv_bytes := 0, sy_ret_bytes := 0\<rparr>)])]"

definition sy_cut :: "env \<Rightarrow> ('m store_state_scheme, unit) prog" where
  "sy_cut e = whenR (\<lambda>s. sy_recv_bytes (sy s) = 0 \<or> index_end (sy s)) (seqR
     [bindR (gets (\<lambda>s. sy_fd (sy s))) (\<lambda>fd. sysdo e (Close fd)),
      upd_sy (\<lambda>l. l\<lparr>sy_recv_bytes := 0, sy_ret_bytes := 0\<rparr>),
      modify (\<lambda>s. s\<lparr>chan0_index := 0, chan0_index_alt := 1, chan0_indexed := 1\<rparr>)])"

definition sy_record :: "env \<Rightarrow> ('m store_state_scheme, unit) prog" where
  "sy_record e =
     bindR (sy_fetch e) (\<lambda>_.
     bindR (ifR (\<lambda>s. chan0_index_alt s \<noteq> 0 \<and> bram_ps s FILE_MARK = 0) (sy_open e) (ret True)) (\<lambda>go.
     if \<not> go then ret ()
     else seqR [sy_save e, whenR (\<lambda>s. chan0_index s = 1) (sy_cut e)]))"

definition index_recv_body :: "env \<Rightarrow> ('m store_state_scheme, unit) prog" where
  "index_recv_body e = seqR
     [whenR (\<lambda>s. bram_ps s SY_STOP_STORE = 1) (sy_stop e),
      whenR (\<lambda>s. chan0_indexed s = 0) (sy_record e)]"

text \<open>Entering \<open>index_recv_routine\<close>: \<open>file_name\<close> and the allocated buffer are indeterminate.\<close>

definition index_recv_enter :: "string \<Rightarrow> (nat \<Rightarrow> u8) \<Rightarrow> ('m store_state_scheme, unit) prog" where
  "index_recv_enter f buf = upd_sy (\<lambda>l. l\<lparr>sy_fd := 0, sy_recv_bytes := 0, sy_ret_bytes := 0,
     sy_file_name := f, sy_index_buffer := buf\<rparr>)"

section \<open>Views\<close>

text \<open>The index buffers copied out of window 0, in order.\<close>

primrec capture_of :: "entry \<Rightarrow> bytes" where
  "capture_of (Pair c rd) = (case c of BramCp w n \<Rightarrow> if w = 0 then snd rd else [] | _ \<Rightarrow> [])"

definition captured :: "history \<Rightarrow> bytes" where
  "captured h = concat (map capture_of h)"

lemma captured_append [simp]: "captured (h @ h') = captured h @ captured h'"
  by (simp add: captured_def)

lemma captured_Nil [simp]: "captured [] = []"
  by (simp add: captured_def)

lemma captured_Cons [simp]: "captured (x # h) = capture_of x @ captured h"
  by (simp add: captured_def)

text \<open>A history in which nothing is written to any file.\<close>

definition no_write :: "history \<Rightarrow> bool" where
  "no_write h \<longleftrightarrow> (\<forall>x \<in> set h. \<forall>f d. fst x \<noteq> Write f d)"

lemma no_write_simps [simp]:
  "no_write []" "no_write (x # h) \<longleftrightarrow> (\<forall>f d. fst x \<noteq> Write f d) \<and> no_write h"
  "no_write (h @ h') \<longleftrightarrow> no_write h \<and> no_write h'"
  by (auto simp: no_write_def)

lemma quiet_no_write: "\<forall>x \<in> set h. quiet (fst x) \<Longrightarrow> no_write h"
  by (auto simp: no_write_def split: prod.splits)

text \<open>A state that differs by loads and stores of the BRAM only.\<close>

definition bram_ext :: "'m machine_scheme \<Rightarrow> 'm machine_scheme \<Rightarrow> bool" where
  "bram_ext s t \<longleftrightarrow> (\<exists>h. hist t = hist s @ h \<and> captured h = [] \<and> (\<forall>x \<in> set h. quiet (fst x))) \<and>
     machine.more t = machine.more s \<and> (\<forall>i. i \<noteq> 6 \<longrightarrow> bram_ps t i = bram_ps s i)"

lemma bram_ext_ld: "bram_ext s t \<Longrightarrow> bram_ext s (emit (BramLd w i) r d t)"
  by (auto simp: bram_ext_def)

lemma bram_ext_st: "bram_ext s t \<Longrightarrow> bram_ext s (bram_upd 1 6 v t)"
  by (auto simp: bram_ext_def)

lemma bram_ext_refl: "bram_ext s s"
  by (simp add: bram_ext_def)

lemma wp_poll_valid:
  "bram_ext s u \<Longrightarrow> wp (poll_while n (index_buf_valid e)) (\<lambda>_ t. bram_ext s t) (\<lambda>a. a = Hang) u"
proof (induction n arbitrary: u)
  case 0
  then show ?case by (simp add: wp_def)
next
  case (Suc n)
  have "bram_ext s (ibv_tick e u)" using Suc.prems by (simp add: ibv_tick_def bram_ext_ld)
  then show ?case using Suc.IH [of "ibv_tick e u"]
    by (simp add: wp_def index_buf_valid_eq)
qed

lemma wp_index_buf_invalid:
  "bram_ext s u \<Longrightarrow> wp (index_buf_invalid e) (\<lambda>_ t. bram_ext s t) (\<lambda>a. a = Hang) u"
  unfolding index_buf_invalid_def
  by (simp del: One_nat_def, rule wp_mono [OF wp_poll_valid [of s]])
    (auto intro: bram_ext_st simp del: One_nat_def)

section \<open>The invariant of the loop\<close>

definition sy_recording :: "'m store_state_scheme \<Rightarrow> bool" where
  "sy_recording s \<longleftrightarrow> chan0_indexed s = 0 \<and> chan0_index_alt s = 0"

definition sy_inv :: "'m store_state_scheme \<Rightarrow> bool" where
  "sy_inv s \<longleftrightarrow> sy_recv_bytes (sy s) = 0 \<and> sy_ret_bytes (sy s) = 0 \<and>
     (sy_recording s \<longrightarrow> sy_fd (sy s) \<in> open_fds (hist s))"

definition index_env :: "env \<Rightarrow> bool" where
  "index_env e \<longleftrightarrow> full_writes e \<and>
     (\<forall>h p. 0 \<le> k_ret e h (Open p [O_RDWR, O_CREAT, O_TRUNC] MODE))"

text \<open>
  What the other threads may do between two iterations: they leave the thread's locals and,
  while it records, its file alone, and they clear \<open>chan0_indexed\<close> only together with asking
  for a new file.
\<close>

definition sy_rely :: "'m store_state_scheme \<Rightarrow> 'm store_state_scheme \<Rightarrow> bool" where
  "sy_rely s t \<longleftrightarrow> sy t = sy s \<and> (sy_recording t \<longrightarrow> sy_recording s \<and>
     (sy_fd (sy s) \<in> open_fds (hist s) \<longrightarrow> sy_fd (sy s) \<in> open_fds (hist t)))"

lemma sy_rely_inv: "sy_inv s \<Longrightarrow> sy_rely s t \<Longrightarrow> sy_inv t"
  by (auto simp: sy_inv_def sy_rely_def)

lemma wp_sy_stop:
  assumes "sy_inv s"
  shows "wp (sy_stop e) (\<lambda>_ t. sy_inv t \<and> chan0_indexed t = 1) A s"
  by (simp add: sy_stop_def sy_inv_def sy_recording_def)

text \<open>The state between copying the buffer and saving it.\<close>

definition sy_fetched :: "'m store_state_scheme \<Rightarrow> 'm store_state_scheme \<Rightarrow> bool" where
  "sy_fetched s t \<longleftrightarrow> sy_recv_bytes (sy t) = 0 \<and> sy_fd (sy t) = sy_fd (sy s) \<and>
     chan0_indexed t = chan0_indexed s \<and> chan0_index_alt t = chan0_index_alt s \<and>
     chan0_index t = chan0_index s \<and> file_name_all t = file_name_all s \<and> sy_file_num t = sy_file_num s \<and>
     (\<forall>i. i \<noteq> 6 \<longrightarrow> bram_ps t i = bram_ps s i) \<and>
     (\<exists>h. hist t = hist s @ h \<and> (\<forall>x \<in> set h. quiet (fst x)) \<and>
        unat (sy_ret_bytes (sy t)) = length (captured h) \<and>
        (captured h = [] \<or> length (captured h) = 0x2000 \<and>
           mem_bytes (sy_index_buffer (sy t)) 0 0x2000 = captured h))"

lemma wp_sy_fetch:
  assumes "sy_inv s"
  shows "wp (sy_fetch e) (\<lambda>_ t. sy_fetched s t) (\<lambda>a. a = Hang) s"
proof (cases "ibv_val e s = 0")
  case True
  then show ?thesis using assms
    by (simp add: sy_fetch_def sy_fetched_def sy_inv_def ibv_tick_def)
next
  case False
  define d where "d = bram_bytes e 0 0x2000 (ibv_tick e s\<lparr>index_count := index_count (ibv_tick e s) + 1\<rparr>)"
  have ld: "length d = 0x2000" by (simp add: d_def bram_bytes_def)
  define u where "u = emit (BramCp 0 0x2000) 0 d (ibv_tick e s\<lparr>index_count := index_count (ibv_tick e s) + 1\<rparr>)
    \<lparr>sy := (sy (ibv_tick e s))\<lparr>sy_index_buffer := patch (sy_index_buffer (sy (ibv_tick e s))) 0 d,
      sy_ret_bytes := 0x2000\<rparr>\<rparr>"
  have "wp (index_buf_invalid e) (\<lambda>_ t. sy_fetched s t) (\<lambda>a. a = Hang) u"
  proof (rule wp_mono [OF wp_index_buf_invalid [OF bram_ext_refl]])
    fix t assume t: "bram_ext u t"
    then have "machine.more t = machine.more u" by (simp add: bram_ext_def)
    note same = same_globals [OF this]
    from t obtain h where h: "hist t = hist u @ h" "captured h = []" "\<forall>x \<in> set h. quiet (fst x)"
      by (auto simp: bram_ext_def)
    have m: "mem_bytes (patch b 0 d) 0 0x2000 = d" for b
      using mem_bytes_patch [of b 0 d] by (simp add: ld)
    show "sy_fetched s t"
      unfolding sy_fetched_def
      using assms h t by (auto simp: same u_def ibv_tick_def sy_inv_def bram_ext_def m ld)
  qed
  moreover have "sy (ibv_tick e s) = sy s" by (simp add: ibv_tick_def)
  ultimately show ?thesis using assms False
    by (simp add: sy_fetch_def sy_inv_def u_def d_def BRAM_SIZE_def)
qed

text \<open>
  One recording iteration: a recorded file grows by exactly the index buffer copied in it; when
  the file is opened in the iteration it begins with that buffer; when no file is open and the
  mark keeps it from opening one, nothing is written.
\<close>

definition sy_step_done :: "'m store_state_scheme \<Rightarrow> 'm store_state_scheme \<Rightarrow> bool" where
  "sy_step_done s t \<longleftrightarrow> (\<exists>h. hist t = hist s @ h \<and>
     (captured h = [] \<or> length (captured h) = 0x2000) \<and>
     (if chan0_index_alt s = 0
      then written (sy_fd (sy s)) (hist t) = written (sy_fd (sy s)) (hist s) @ captured h
      else if bram_ps s FILE_MARK = 0 then written (sy_fd (sy t)) (hist t) = captured h
      else no_write h))"

text \<open>Between opening and saving: the pending buffer is the one captured by \<open>h\<close>.\<close>

definition sy_pending :: "bytes \<Rightarrow> 'm store_state_scheme \<Rightarrow> bool" where
  "sy_pending d s \<longleftrightarrow> sy_recv_bytes (sy s) = 0 \<and> unat (sy_ret_bytes (sy s)) = length d \<and>
     (d = [] \<or> length d = 0x2000 \<and> mem_bytes (sy_index_buffer (sy s)) 0 0x2000 = d) \<and>
     (chan0_index_alt s = 0 \<longrightarrow> sy_fd (sy s) \<in> open_fds (hist s))"

lemma wp_sy_save_cut:
  assumes "full_writes e" and "sy_pending d s" and "chan0_indexed s = 0"
  shows "wp (seqR [sy_save e, whenR (\<lambda>s. chan0_index s = 1) (sy_cut e)])
    (\<lambda>_ t. sy_inv t \<and> sy_fd (sy t) = sy_fd (sy s) \<and>
      (chan0_index_alt s = 0 \<longrightarrow> written (sy_fd (sy s)) (hist t) = written (sy_fd (sy s)) (hist s) @ d) \<and>
      (\<exists>h. hist t = hist s @ h \<and> captured h = [] \<and> (chan0_index_alt s \<noteq> 0 \<longrightarrow> no_write h)) \<and>
      (chan0_index s = 1 \<longrightarrow> chan0_indexed t = 1)) (\<lambda>_. False) s"
proof -
  have w: "k_ret e h (Write f b) = int (length b)" if "f \<in> open_fds h" for h f b
    using assms(1) that by (simp add: full_writes_def)
  show ?thesis
  proof (cases "d = []")
    case True
    then have "sy_ret_bytes (sy s) = 0" using assms(2) by (simp add: sy_pending_def unat_eq_0)
    then show ?thesis using assms(2,3) True
      by (auto simp: sy_save_def sy_cut_def sy_inv_def sy_recording_def sy_pending_def
          IDX_WRITE_THRESHOLD_def hist_simps)
  next
    case False
    then have len: "length d = 0x2000" and ret: "sy_ret_bytes (sy s) = 0x2000"
        and m: "mem_bytes (sy_index_buffer (sy s)) 0 0x2000 = d"
      using assms(2) by (auto simp: sy_pending_def word_unat_eq_iff)
    then show ?thesis using assms(2,3)
      by (auto simp: sy_save_def sy_cut_def sy_inv_def sy_recording_def sy_pending_def
          IDX_WRITE_THRESHOLD_def hist_simps w)
  qed
qed

lemma wp_sy_open:
  assumes "index_env e" and "sy_pending d s"
  shows "wp (sy_open e) (\<lambda>ok t. ok \<and> sy_pending d t \<and> chan0_index_alt t = 0 \<and>
      chan0_indexed t = chan0_indexed s \<and> chan0_index t = chan0_index s \<and>
      written (sy_fd (sy t)) (hist t) = [] \<and> (\<exists>h. hist t = hist s @ h \<and> captured h = []))
    (\<lambda>a. a = Undefined) s"
proof -
  have "0 \<le> k_ret e h (Open p [O_RDWR, O_CREAT, O_TRUNC] MODE)"
      "\<not> k_ret e h (Open p [O_RDWR, O_CREAT, O_TRUNC] MODE) < 0" for h p
    using assms(1) by (simp_all add: index_env_def not_less)
  then show ?thesis using assms(2)
    by (simp add: sy_open_def sprintf_fits_def sy_pending_def hist_simps)
qed

lemma wp_sy_record:
  assumes "index_env e" and "sy_inv s" and "chan0_indexed s = 0"
  shows "wp (sy_record e) (\<lambda>_ t. sy_inv t \<and> sy_step_done s t \<and>
      (chan0_index s = 1 \<longrightarrow> chan0_indexed t = 1)) (\<lambda>a. a = Undefined \<or> a = Hang) s"
  unfolding sy_record_def wp_bindR [of "sy_fetch e"]
proof (rule wp_mono [OF wp_sy_fetch [OF assms(2)]])
  fix t :: "'a store_state_scheme" and v
  let ?A = "\<lambda>a. a = Undefined \<or> a = Hang"
  let ?save = "seqR [sy_save e, whenR (\<lambda>s. chan0_index s = 1) (sy_cut e)]"
  let ?Q = "\<lambda>_ t. sy_inv t \<and> sy_step_done s t \<and> (chan0_index s = 1 \<longrightarrow> chan0_indexed t = 1)"
  assume t: "sy_fetched s t"
  then obtain h where h: "hist t = hist s @ h" "\<forall>x \<in> set h. quiet (fst x)"
      "unat (sy_ret_bytes (sy t)) = length (captured h)"
      "captured h = [] \<or> length (captured h) = 0x2000 \<and>
        mem_bytes (sy_index_buffer (sy t)) 0 0x2000 = captured h"
    by (auto simp: sy_fetched_def)
  have views: "open_fds (hist t) = open_fds (hist s)" "written f (hist t) = written f (hist s)" for f
    using h(1,2) by (simp_all add: quiet_views)
  have eq: "chan0_indexed t = 0" "chan0_index_alt t = chan0_index_alt s" "chan0_index t = chan0_index s"
      "sy_fd (sy t) = sy_fd (sy s)" "bram_ps t FILE_MARK = bram_ps s FILE_MARK"
    using t assms(3) by (auto simp: sy_fetched_def store_words)
  have pend: "sy_pending (captured h) t"
    using t h assms(2,3) eq views
    by (auto simp: sy_pending_def sy_fetched_def sy_inv_def sy_recording_def)
  have fw: "full_writes e" using assms(1) by (simp add: index_env_def)
  show "wp (bindR (ifR (\<lambda>s. chan0_index_alt s \<noteq> 0 \<and> bram_ps s FILE_MARK = 0) (sy_open e) (ret True))
      (\<lambda>go. if \<not> go then ret () else ?save)) ?Q ?A t"
  proof (cases "chan0_index_alt t \<noteq> 0 \<and> bram_ps t FILE_MARK = 0")
    case True
    have "wp ?save ?Q ?A u" if u: "sy_pending (captured h) u" "chan0_index_alt u = 0"
        "chan0_indexed u = chan0_indexed t" "chan0_index u = chan0_index t"
        "written (sy_fd (sy u)) (hist u) = []" "hist u = hist t @ h'" "captured h' = []"
      for u :: "'a store_state_scheme" and h'
      by (rule wp_mono [OF wp_sy_save_cut [OF fw u(1)]])
        (use u True eq h in \<open>auto simp: sy_step_done_def\<close>)
    with True show ?thesis
      by (auto simp del: wp_statement intro!: wp_mono [OF wp_sy_open [OF assms(1) pend]])
  next
    case False
    have "wp ?save ?Q ?A t"
      by (rule wp_mono [OF wp_sy_save_cut [OF fw pend eq(1)]])
        (use False eq h views quiet_no_write [OF h(2)] in \<open>auto simp: sy_step_done_def\<close>)
    with False show ?thesis by (auto simp del: wp_statement)
  qed
qed simp

lemma wp_index_recv_body:
  assumes "index_env e" and "sy_inv s"
  shows "wp (index_recv_body e) (\<lambda>_ t. sy_inv t \<and>
      (bram_ps s SY_STOP_STORE \<noteq> 1 \<and> chan0_indexed s = 0 \<longrightarrow> sy_step_done s t \<and>
        (chan0_index s = 1 \<longrightarrow> chan0_indexed t = 1))) (\<lambda>a. a = Undefined \<or> a = Hang) s"
proof (cases "bram_ps s SY_STOP_STORE = 1")
  case True
  then show ?thesis
    by (auto simp: index_recv_body_def intro: wp_mono [OF wp_sy_stop [OF assms(2)]])
next
  case False
  then show ?thesis using wp_sy_record [OF assms]
    by (auto simp: index_recv_body_def assms(2) elim!: wp_mono)
qed

interpretation sy_loop: rely_loop "index_recv_body e" sy_rely "\<lambda>s. index_env e \<and> sy_inv s" for e
  by unfold_locales (auto dest: wp_Ok [OF wp_index_recv_body] intro: sy_rely_inv)

definition sy_begin :: "'m store_state_scheme \<Rightarrow> bool" where
  "sy_begin s \<longleftrightarrow> sy_recv_bytes (sy s) = 0 \<and> sy_ret_bytes (sy s) = 0 \<and> \<not> sy_recording s"

lemma sy_begin_inv: "sy_begin s \<Longrightarrow> sy_inv s"
  by (simp add: sy_begin_def sy_inv_def)

section \<open>Properties\<close>

text \<open>C8: what becomes of the index buffers an iteration of the index recorder copies from the PL
  (none or one of 8192 bytes), however its iterations interleave with the other threads.  While
  a file is recorded the iteration appends exactly this buffer to it, whole and once.  When it
  records no file and the mark is clear, it opens a file, which begins with this buffer.  When it
  records no file and the mark is set, it opens none and writes nothing to any file: the buffer
  is dropped.  In every case nothing is carried over to the next iteration.\<close>

theorem sy_index_saved:
  assumes "index_env e" and "sy_begin s" and "interleave (index_recv_body e) sy_rely s t"
    and "bram_ps t SY_STOP_STORE \<noteq> 1" and "chan0_indexed t = 0" and "index_recv_body e t = Ok () u"
  shows "\<exists>h. hist u = hist t @ h \<and> (captured h = [] \<or> length (captured h) = 0x2000) \<and>
    (if chan0_index_alt t = 0
     then written (sy_fd (sy t)) (hist u) = written (sy_fd (sy t)) (hist t) @ captured h
     else if bram_ps t FILE_MARK = 0 then written (sy_fd (sy u)) (hist u) = captured h
     else no_write h) \<and>
    sy_recv_bytes (sy u) = 0 \<and> sy_ret_bytes (sy u) = 0"
proof -
  have inv: "sy_inv t"
    using sy_loop.interleave_inv [OF assms(3)] sy_begin_inv [OF assms(2)] assms(1) by blast
  from wp_Ok [OF wp_index_recv_body [OF assms(1) inv] assms(6)] assms(4,5)
  show ?thesis by (auto simp: sy_step_done_def sy_inv_def)
qed

lemma index_env_env0: "index_env env0"
  by (simp add: index_env_def full_writes_env0)

lemma sy_begin_store0: "sy_begin store0"
  by (simp add: sy_begin_def sy_recording_def store0_def)

text \<open>
  A PL that has filled the index buffer with words 1 when it is asked first, and then withdraws it:
  the iteration copies the buffer and opens a file; with the mark set it drops it.
\<close>

definition env_idx :: env where
  "env_idx = env0\<lparr>pl_word := (\<lambda>h w i. if w = 0 then 1 else if i = 521 \<and> h = [] then 1 else 0)\<rparr>"

definition store_marked :: store_state where
  "store_marked = store0\<lparr>bram_ps := (bram_ps store0)(FILE_MARK := 1)\<rparr>"

lemma env_idx_simps [simp]:
  "k_ret env_idx = ret0" "polls env_idx = 100"
  "pl_word env_idx h w i = (if w = 0 then 1 else if i = 521 \<and> h = [] then 1 else 0)"
  by (simp_all add: env_idx_def)

lemma index_env_idx: "index_env env_idx"
  by (simp add: index_env_def full_writes_def)

lemma sy_begin_marked: "sy_begin store_marked"
  by (simp add: sy_begin_def sy_recording_def store_marked_def store0_def)

lemma length_bram_bytes [simp]: "length (bram_bytes e w n s) = n"
  by (simp add: bram_bytes_def)
lemma idx_valid: "hist s = [] \<Longrightarrow> ibv_val env_idx s = 1" "hist s \<noteq> [] \<Longrightarrow> ibv_val env_idx s = 0"
  by (simp_all add: ibv_val_def bram_word_def)

lemma poll_idx: "hist s \<noteq> [] \<Longrightarrow> poll_while 100 (index_buf_valid env_idx) s = Ok () (ibv_tick env_idx s)"
  by (simp add: numeral_nat poll_while.simps index_buf_valid_eq idx_valid)

lemma wp_poll_idx: "hist s \<noteq> [] \<Longrightarrow> wp (poll_while 100 (index_buf_valid env_idx)) Q A s = Q () (ibv_tick env_idx s)"
  by (simp add: wp_def poll_idx)

lemma sy_copies: "\<exists>u. index_recv_body env_idx store0 = Ok () u \<and> length (captured (hist u)) = 0x2000"
proof -
  have "wp (index_recv_body env_idx) (\<lambda>_ u. length (captured (hist u)) = 0x2000) (\<lambda>_. False) store0"
    by (simp add: index_recv_body_def sy_record_def sy_fetch_def idx_valid index_buf_invalid_def wp_poll_idx
        sy_open_def sprintf_fits_def sy_save_def store0_def IDX_WRITE_THRESHOLD_def ibv_tick_def BRAM_SIZE_def)
  from wp_returns [OF this] show ?thesis by simp
qed
lemma sy_drops: "\<exists>u. index_recv_body env_idx store_marked = Ok () u \<and> length (captured (hist u)) = 0x2000"
proof -
  have "wp (index_recv_body env_idx) (\<lambda>_ u. length (captured (hist u)) = 0x2000) (\<lambda>_. False) store_marked"
    by (simp add: index_recv_body_def sy_record_def sy_fetch_def idx_valid index_buf_invalid_def wp_poll_idx
        sy_open_def sprintf_fits_def sy_save_def store0_def store_marked_def store_words IDX_WRITE_THRESHOLD_def ibv_tick_def BRAM_SIZE_def)
  from wp_returns [OF this] show ?thesis by simp
qed

text \<open>The buffer copied before any recording is in the file; the one copied under the mark is dropped.\<close>

theorem sy_index_saved_witness:
  "(\<exists>u h. index_recv_body env_idx store0 = Ok () u \<and> hist u = hist store0 @ h \<and>
      length (captured h) = 0x2000 \<and> written (sy_fd (sy u)) (hist u) = captured h) \<and>
   (\<exists>u h. index_recv_body env_idx store_marked = Ok () u \<and> hist u = hist store_marked @ h \<and>
      length (captured h) = 0x2000 \<and> no_write h)"
proof
  obtain u where u: "index_recv_body env_idx store0 = Ok () u" "length (captured (hist u)) = 0x2000"
    using sy_copies by blast
  have "bram_ps store0 SY_STOP_STORE \<noteq> 1" "chan0_indexed store0 = 0" by simp_all
  from sy_index_saved [OF index_env_idx sy_begin_store0 interleave.start this u(1)] u
  show "\<exists>u h. index_recv_body env_idx store0 = Ok () u \<and> hist u = hist store0 @ h \<and>
      length (captured h) = 0x2000 \<and> written (sy_fd (sy u)) (hist u) = captured h"
    by (auto simp: store_words)
next
  obtain u where u: "index_recv_body env_idx store_marked = Ok () u" "length (captured (hist u)) = 0x2000"
    using sy_drops by blast
  have "bram_ps store_marked SY_STOP_STORE \<noteq> 1" "chan0_indexed store_marked = 0"
    by (simp_all add: store_marked_def store_words)
  from sy_index_saved [OF index_env_idx sy_begin_marked interleave.start this u(1)] u
  show "\<exists>u h. index_recv_body env_idx store_marked = Ok () u \<and> hist u = hist store_marked @ h \<and>
      length (captured h) = 0x2000 \<and> no_write h"
    by (auto simp: store_marked_def)
qed

end
