(* ===== verification/Store_Frames.thy ===== *)
theory Store_Frames
  imports Store_Mn Store_Ls Store_Sy
begin

text \<open>
  What an iteration of each recording thread leaves alone: the files and engines of the other
  threads, their locals and their flags.  A thread can reach the file of another only through a
  descriptor number both hold, so the histories considered are those in which the kernel never
  hands out a number that is open.
\<close>

section \<open>Fresh descriptors\<close>

fun fresh_from :: "int set \<Rightarrow> history \<Rightarrow> bool" where
  "fresh_from A [] = True"
| "fresh_from A ((c, r, d) # h) = ((case c of
       Open p fl m \<Rightarrow> r \<notin> A
     | Net n \<Rightarrow> (case n of Accept f \<Rightarrow> r \<notin> A | _ \<Rightarrow> True)
     | _ \<Rightarrow> True) \<and> fresh_from (open_step A (c, r, d)) h)"

definition fresh_hist :: "history \<Rightarrow> bool" where
  "fresh_hist h = fresh_from {} h"

lemma fresh_from_append [simp]: "fresh_from A (h @ h') \<longleftrightarrow> fresh_from A h \<and> fresh_from (foldl open_step A h) h'"
  by (induction A h rule: fresh_from.induct) simp_all

lemma fresh_hist_append [hist_simps]: "fresh_hist (h @ h') \<longleftrightarrow> fresh_hist h \<and> fresh_from (open_fds h) h'"
  by (simp add: fresh_hist_def open_fds_def)

text \<open>File \<open>f\<close> stays open, and neither it nor what engine \<open>d\<close> delivered for it changes.\<close>

definition left_alone :: "int \<Rightarrow> int \<Rightarrow> history \<Rightarrow> history \<Rightarrow> bool" where
  "left_alone f d h h' \<longleftrightarrow> f \<in> open_fds h' \<and> written f h' = written f h \<and> received d f h' = received d f h"

lemma left_alone_refl: "left_alone f d h h = (f \<in> open_fds h)"
  by (simp add: left_alone_def)

lemma left_alone_quiet: "quiet c \<Longrightarrow> left_alone f d h (h' @ [(c, x)]) = left_alone f d h h'"
  by (simp add: left_alone_def quiet_view)

lemma left_alone_quiet_ext: "quiet_ext s t \<Longrightarrow> left_alone f d h (hist t) = left_alone f d h (hist s)"
  by (simp add: left_alone_def quiet_ext_views)

section \<open>Channel 0\<close>

definition mn_part :: "int \<Rightarrow> int \<Rightarrow> 'm store_state_scheme \<Rightarrow> 'm store_state_scheme \<Rightarrow> bool" where
  "mn_part f d s u \<longleftrightarrow>
     (f \<in> open_fds (hist s) \<and> f \<noteq> mn_fd s \<and> fresh_hist (hist u) \<longrightarrow>
        f \<noteq> mn_fd u \<and> left_alone f d (hist s) (hist u)) \<and>
     (\<forall>n. dma_within d n (hist u) = dma_within d n (hist s)) \<and>
     open_fds (hist u) \<subseteq> insert (mn_fd u) (open_fds (hist s)) \<and>
     ls u = ls s \<and> sy u = sy s \<and> rxmem u 1 = rxmem s 1 \<and> axidma u = axidma s \<and> gMutexDma u = 0 \<and>
     chan0_indexed u = chan0_indexed s \<and> chan0_index_alt u = chan0_index_alt s"

lemma mn_part_refl: "gMutexDma s = 0 \<Longrightarrow> mn_part f d s s"
  by (auto simp: mn_part_def left_alone_refl)

lemma wp_mn_part_stop: "mn_part f d s u \<Longrightarrow> wp (mn_stop e 0) (\<lambda>_ t. mn_part f d s t) A u"
  by (auto simp: mn_stop_def mn_part_def left_alone_def hist_simps)

lemma wp_mn_part_open:
  assumes "recorder_env e" and "gMutexDma s = 0"
  shows "wp (mn_open e 0) (\<lambda>_ t. mn_part f d s t) (\<lambda>_. True) s"
proof -
  have op: "0 \<le> k_ret e h (Open p FLAGS MODE)" "k_ret e h (Open p FLAGS MODE) < 0x80000000" for h p
    using assms(1) by (auto simp: recorder_env_def record_opens_def intro: less_imp_le)
  show ?thesis using assms(2) op
    by (auto simp: mn_open_def sprintf_fits_def gettimeofday_def mn_part_def left_alone_def sint_fd
        hist_simps)
qed

lemma wp_mn_part_fetch:
  assumes "mn_part f d s u" and "d \<noteq> mn_dma s" and "dma_num (axidma s ! 0) = 0"
  shows "wp (mn_fetch e 0) (\<lambda>_ t. mn_part f d s t) A u"
  using assms
  by (auto simp: mn_fetch_def chan_fifo_count_def DMA_SIZE_def wp_dma_read_one mn_part_def
      left_alone_def hist_simps)

lemma wp_mn_part_flush: "mn_part f d s u \<Longrightarrow> wp (mn_flush e 0) (\<lambda>_ t. mn_part f d s t) A u"
  by (auto simp: mn_flush_def mn_write_def mn_part_def left_alone_def hist_simps)

lemma wp_mn_part_cut: "mn_part f d s u \<Longrightarrow> wp (mn_cut e 0) (\<lambda>_ t. mn_part f d s t) A u"
  by (auto simp: mn_cut_def mn_write_def gettimeofday_def mn_part_def left_alone_def hist_simps)

lemma wp_mn_part:
  assumes "recorder_env e" and "mn_inv s" and "d \<noteq> mn_dma s"
  shows "wp (chan_recv_body e 0) (\<lambda>_ t. mn_part f d s t) (\<lambda>_. True) s"
proof -
  have inv: "gMutexDma s = 0" "dma_num (axidma s ! 0) = 0"
    using assms(2) by (simp_all add: mn_inv_def mn_inv_upto_def)
  note steps = wp_mn_part_stop wp_mn_part_fetch [OF _ assms(3) inv(2)] wp_mn_part_flush wp_mn_part_cut
  have rest: "wp (seqR [mn_fetch e 0, mn_flush e 0, whenR (\<lambda>s. chan_slice s 0 \<noteq> 0) (mn_cut e 0)])
      (\<lambda>_ t. mn_part f d s t) (\<lambda>_. True) u" if "mn_part f d s u" for u :: "'a store_state_scheme"
    using that by (auto intro!: wp_mono [OF steps(2)] wp_mono [OF steps(3)] wp_mono [OF steps(4)])
  have recd: "wp (mn_record e 0) (\<lambda>_ t. mn_part f d s t) (\<lambda>_. True) s"
    unfolding mn_record_def wp_bindR wp_ifR wp_if
    using mn_part_refl [OF inv(1)]
    by (auto simp del: wp_statement intro!: rest wp_mono [OF wp_mn_part_open [OF assms(1) inv(1)]])
  show ?thesis
  proof (cases "bram_ps s MN_STOP_STORE = 1")
    case True
    have "wp (mn_stop e 0) (\<lambda>_ t. mn_part f d s t \<and> chan_stored t 0 = 1) (\<lambda>_. True) s"
      by (rule wp_conj [OF steps(1) [OF mn_part_refl [OF inv(1)]]])
        (rule wp_mono [OF wp_mn_stop [OF assms(2)]], simp_all)
    with True show ?thesis by (auto simp: chan_recv_body_def elim!: wp_mono)
  next
    case False
    with recd show ?thesis
      by (simp add: chan_recv_body_def mn_part_refl [OF inv(1)] del: wp_statement(4)) 
        (simp add: mn_part_refl [OF inv(1)])
  qed
qed

section \<open>Channel 1\<close>

declare One_nat_def [simp del]

definition ls_part :: "int \<Rightarrow> int \<Rightarrow> 'm store_state_scheme \<Rightarrow> 'm store_state_scheme \<Rightarrow> bool" where
  "ls_part f d s u \<longleftrightarrow>
     (f \<in> open_fds (hist s) \<and> f \<noteq> ls_file s \<and> fresh_hist (hist u) \<longrightarrow>
        f \<noteq> ls_file u \<and> left_alone f d (hist s) (hist u)) \<and>
     (\<forall>n. dma_within d n (hist u) = dma_within d n (hist s)) \<and>
     mn u = mn s \<and> sy u = sy s \<and> st_fd u = st_fd s \<and> rxmem u 0 = rxmem s 0 \<and> axidma u = axidma s \<and>
     gMutexDma u = 0 \<and> chan_stored u 0 = chan_stored s 0 \<and> chan_slice_alt u = chan_slice_alt s \<and>
     chan0_indexed u = chan0_indexed s \<and> chan0_index_alt u = chan0_index_alt s"

lemma ls_part_refl: "gMutexDma s = 0 \<Longrightarrow> ls_part f d s s"
  by (auto simp: ls_part_def left_alone_refl)

lemma wp_ls_part_open: "ls_part f d s u \<Longrightarrow> wp (ls_open e) (\<lambda>_ t. ls_part f d s t) A u"
  by (auto simp: ls_open_def ls_part_def left_alone_def hist_simps)

lemma wp_ls_part_read_time: "ls_part f d s u \<Longrightarrow> wp (ls_read_time e) (\<lambda>_ t. ls_part f d s t) A u"
  by (auto simp: ls_read_time_def ls_part_def left_alone_def hist_simps)

lemma wp_ls_part_new_name: "ls_part f d s u \<Longrightarrow> wp ls_new_name (\<lambda>_ t. ls_part f d s t) (\<lambda>_. True) u"
  by (rule wp_mono [OF wp_ls_new_name]) (simp_all add: ls_part_def)

lemma wp_ls_part_times: "ls_part f d s u \<Longrightarrow> wp (set_times ad) (\<lambda>_ t. ls_part f d s t) A u"
  by (rule wp_set_times) (simp add: ls_part_def)

lemma wp_ls_part_create:
  assumes "ls_part f d s u"
  shows "wp (CreateDir e p) (\<lambda>_ t. ls_part f d s t) (\<lambda>_. True) u"
proof (rule wp_mono [OF wp_CreateDir])
  fix t assume q: "quiet_ext u t"
  then have more: "machine.more t = machine.more u" by (simp add: quiet_ext_def)
  note same = same_globals [OF more] quiet_ext_views [OF q] left_alone_quiet_ext [OF q]
  have "fresh_hist (hist t) \<Longrightarrow> fresh_hist (hist u)" using q by (auto simp: quiet_ext_def hist_simps)
  with assms show "ls_part f d s t" unfolding ls_part_def same by blast
qed simp

lemma wp_ls_part_start: "ls_part f d s u \<Longrightarrow> wp (ls_start e) (\<lambda>_ t. ls_part f d s t) (\<lambda>_. True) u"
proof -
  assume u: "ls_part f d s u"
  have flags: "wp (ls_started_flags e) (\<lambda>_ t. ls_part f d s t) (\<lambda>_. True) v" if "ls_part f d s v"
    for v :: "'a store_state_scheme"
    using that by (auto simp: ls_started_flags_def ls_part_def left_alone_def hist_simps)
  have dir: "wp (ls_directory e) (\<lambda>_ t. ls_part f d s t) (\<lambda>_. True) v" if "ls_part f d s v"
    for v :: "'a store_state_scheme"
    using that unfolding ls_directory_def ls_read_time_def
    by (auto simp: set_times_def split: option.split intro!: wp_mono [OF wp_ls_part_create])
      (auto simp: ls_part_def left_alone_def hist_simps)
  show ?thesis
    using u unfolding ls_start_def
    by (auto intro!: wp_mono [OF dir] wp_mono [OF wp_ls_part_new_name] wp_mono [OF wp_ls_part_open]
       wp_mono [OF flags])
      (auto simp: ls_part_def)
qed

lemma wp_ls_part_stop: "ls_part f d s u \<Longrightarrow> wp (ls_stop e) (\<lambda>_ t. ls_part f d s t) A u"
  by (auto simp: ls_stop_def ls_part_def left_alone_def hist_simps)

lemma wp_ls_part_fetch:
  assumes "ls_part f d s u" and "d \<noteq> ls_dma s" and "dma_num (axidma s ! 1) = 1"
  shows "wp (ls_fetch e 1) (\<lambda>_ t. ls_part f d s t) A u"
  using assms
  by (auto simp: ls_fetch_def chan_fifo_count_def gettimeofday_def DMA_TRANS_SIZE_def wp_dma_read_one ls_part_def
      left_alone_def hist_simps)

lemma wp_ls_part_flush: "ls_part f d s u \<Longrightarrow> wp (ls_flush e 1) (\<lambda>_ t. ls_part f d s t) A u"
  by (auto simp: ls_flush_def ls_write_def ls_part_def left_alone_def hist_simps)

lemma wp_ls_part_finish: "ls_part f d s u \<Longrightarrow> wp (ls_finish e 1) (\<lambda>_ t. ls_part f d s t) A u"
  by (auto simp: ls_finish_def ls_tail_def ls_write_def ls_part_def left_alone_def hist_simps)

lemma wp_ls_part_cut: "ls_part f d s u \<Longrightarrow> wp (ls_cut e 1) (\<lambda>_ t. ls_part f d s t) (\<lambda>_. True) u"
  unfolding ls_cut_def
  by (auto intro!: wp_mono [OF wp_ls_part_finish] wp_mono [OF wp_ls_part_read_time]
      wp_mono [OF wp_ls_part_times] wp_mono [OF wp_ls_part_new_name] wp_mono [OF wp_ls_part_open])
    (auto simp: ls_part_def left_alone_def hist_simps)

lemma wp_ls_part:
  assumes "ls_inv s" and "d \<noteq> ls_dma s"
  shows "wp (chan1_recv_body e 1) (\<lambda>_ t. ls_part f d s t) (\<lambda>_. True) s"
proof -
  have inv: "gMutexDma s = 0" "dma_num (axidma s ! 1) = 1"
    using assms(1) by (simp_all add: ls_inv_def ls_inv_upto_def)
  have stamp: "wp (bindR (gettimeofday e) (\<lambda>tv. upd_ls (\<lambda>l. l\<lparr>ls_end_time := tv\<rparr>)))
      (\<lambda>_ t. ls_part f d s t) (\<lambda>_. True) u" if "ls_part f d s u" for u :: "'a store_state_scheme"
    using that by (auto simp: gettimeofday_def ls_part_def left_alone_def hist_simps)
  have recd: "wp (ls_record e 1) (\<lambda>_ t. ls_part f d s t) (\<lambda>_. True) u" if "ls_part f d s u"
    for u :: "'a store_state_scheme"
    unfolding ls_record_def wp_statement(4)
    by (rule wp_mono [OF wp_ls_part_fetch [OF that assms(2) inv(2)]],
        rule wp_mono [OF wp_ls_part_flush], assumption, rule wp_mono [OF stamp], assumption)
      (auto intro!: wp_mono [OF wp_ls_part_cut])
  show ?thesis
    unfolding chan1_recv_body_def
    using ls_part_refl [OF inv(1)]
    by (auto intro!: wp_mono [OF wp_ls_part_start] wp_mono [OF wp_ls_part_stop] wp_mono [OF recd])
qed

section \<open>The index\<close>

abbreviation sy_file :: "'m store_state_scheme \<Rightarrow> int" where
  "sy_file s \<equiv> sy_fd (sy s)"

definition sy_part :: "int \<Rightarrow> int \<Rightarrow> 'm store_state_scheme \<Rightarrow> 'm store_state_scheme \<Rightarrow> bool" where
  "sy_part f d s u \<longleftrightarrow>
     (f \<in> open_fds (hist s) \<and> f \<noteq> sy_file s \<and> fresh_hist (hist u) \<longrightarrow>
        f \<noteq> sy_file u \<and> left_alone f d (hist s) (hist u)) \<and>
     (\<forall>n. dma_within d n (hist u) = dma_within d n (hist s)) \<and>
     open_fds (hist u) \<subseteq> insert (sy_file u) (open_fds (hist s)) \<and>
     mn u = mn s \<and> ls u = ls s \<and> st_fd u = st_fd s \<and> rxmem u = rxmem s \<and> axidma u = axidma s \<and>
     gMutexDma u = gMutexDma s \<and> chan_stored u = chan_stored s \<and> chan_slice_alt u = chan_slice_alt s \<and>
     chan_slice u = chan_slice s \<and> file_name_all u = file_name_all s \<and> mn_file_num u = mn_file_num s"

lemma sy_part_refl: "sy_part f d s s"
  by (auto simp: sy_part_def left_alone_refl)

lemma wp_sy_part_stop: "sy_part f d s u \<Longrightarrow> wp (sy_stop e) (\<lambda>_ t. sy_part f d s t) A u"
  by (auto simp: sy_stop_def sy_part_def left_alone_def hist_simps)

text \<open>Before a file is opened the open files are those of the beginning.\<close>

definition sy_early :: "int \<Rightarrow> int \<Rightarrow> 'm store_state_scheme \<Rightarrow> 'm store_state_scheme \<Rightarrow> bool" where
  "sy_early f d s u \<longleftrightarrow> sy_part f d s u \<and> open_fds (hist u) = open_fds (hist s)"

lemma sy_early_bram_ext:
  assumes "bram_ext u t" and "sy_early f d s u"
  shows "sy_early f d s t"
proof -
  from assms(1) have more: "machine.more t = machine.more u" by (simp add: bram_ext_def)
  from assms(1) obtain h where h: "hist t = hist u @ h" "\<forall>x \<in> set h. quiet (fst x)"
    by (auto simp: bram_ext_def)
  note same = same_globals [OF more] quiet_views [OF h(2)]
  show ?thesis using assms(2)
    unfolding sy_early_def sy_part_def left_alone_def h(1) same
    by (auto simp: fresh_hist_append)
qed

lemma wp_sy_early_fetch: "wp (sy_fetch e) (\<lambda>_ t. sy_early f d s t) (\<lambda>_. True) s"
proof -
  have valid: "wp (index_buf_valid e) (\<lambda>_ t. sy_early f d s t) (\<lambda>_. True) s"
    by (auto simp: wp_def index_buf_valid_eq ibv_tick_def sy_early_def sy_part_def left_alone_def hist_simps)
  have rest: "wp (seqR
       [modify (\<lambda>s. s\<lparr>index_count := index_count s + 1\<rparr>),
        bindR (ubram_read e 0 (int BRAM_SIZE)) (\<lambda>(r, d). upd_sy (\<lambda>l. l\<lparr>
          sy_index_buffer := patch (sy_index_buffer l) (unat (sy_recv_bytes l)) d,
          sy_ret_bytes := word_of_int r\<rparr>)),
        index_buf_invalid e]) (\<lambda>_ t. sy_early f d s t) (\<lambda>_. True) u"
    if "sy_early f d s u" for u :: "'a store_state_scheme"
    using that
    by (auto simp: BRAM_SIZE_def intro!: wp_mono [OF wp_index_buf_invalid [OF bram_ext_refl]] elim!: sy_early_bram_ext)
      (auto simp: sy_early_def sy_part_def left_alone_def hist_simps)
  show ?thesis unfolding sy_fetch_def wp_bindR
    by (rule wp_mono [OF valid]) (auto intro!: rest simp del: wp_statement)
qed

lemma wp_sy_part_open: "sy_early f d s u \<Longrightarrow> wp (sy_open e) (\<lambda>_ t. sy_part f d s t) (\<lambda>_. True) u"
  by (auto simp: sy_open_def sprintf_fits_def sy_early_def sy_part_def left_alone_def hist_simps)

lemma wp_sy_part_save: "sy_part f d s u \<Longrightarrow> wp (sy_save e) (\<lambda>_ t. sy_part f d s t) A u"
  by (auto simp: sy_save_def sy_part_def left_alone_def hist_simps)

lemma wp_sy_part_cut: "sy_part f d s u \<Longrightarrow> wp (sy_cut e) (\<lambda>_ t. sy_part f d s t) A u"
  by (auto simp: sy_cut_def sy_part_def left_alone_def hist_simps)

lemma wp_sy_part:
  assumes "sy_inv s"
  shows "wp (index_recv_body e) (\<lambda>_ t. sy_part f d s t) (\<lambda>_. True) s"
proof (cases "bram_ps s SY_STOP_STORE = 1")
  case True
  have "wp (sy_stop e) (\<lambda>_ t. sy_part f d s t \<and> chan0_indexed t = 1) (\<lambda>_. True) s"
    by (rule wp_conj [OF wp_sy_part_stop [OF sy_part_refl]])
      (rule wp_mono [OF wp_sy_stop [OF assms]], simp_all)
  with True show ?thesis by (auto simp: index_recv_body_def elim!: wp_mono)
next
  case False
  have save: "wp (seqR [sy_save e, whenR (\<lambda>s. chan0_index s = 1) (sy_cut e)])
      (\<lambda>_ t. sy_part f d s t) (\<lambda>_. True) u" if "sy_part f d s u" for u :: "'a store_state_scheme"
    using that by (auto intro!: wp_mono [OF wp_sy_part_save] wp_mono [OF wp_sy_part_cut])
  have "wp (sy_record e) (\<lambda>_ t. sy_part f d s t) (\<lambda>_. True) s"
    unfolding sy_record_def wp_bindR wp_ifR wp_if
    by (rule wp_mono [OF wp_sy_early_fetch])
      (auto simp del: wp_statement intro!: save wp_mono [OF wp_sy_part_open] simp: sy_early_def)
  with False show ?thesis
    by (simp add: index_recv_body_def sy_part_refl del: wp_statement(4)) (simp add: sy_part_refl)
qed

end
