(* ===== verification/Store_Control.thy ===== *)
theory Store_Control
  imports Store_Frames
begin

text \<open>
  The slicing control against the recording threads: what \<open>store_control\<close> guarantees is what
  the loops of the three recorders rely on.
\<close>

section \<open>What happens to open files\<close>

text \<open>From \<open>h\<close> to \<open>h'\<close> no open file is closed, written or fed by an engine.\<close>

definition steady :: "history \<Rightarrow> history \<Rightarrow> bool" where
  "steady h h' \<longleftrightarrow> open_fds h' = open_fds h \<and>
     (\<forall>f \<in> open_fds h. written f h' = written f h \<and> (\<forall>d. received d f h' = received d f h)) \<and>
     (\<forall>d n. dma_within d n h' = dma_within d n h)"

lemma steady_refl [simp]: "steady h h"
  by (simp add: steady_def)

lemma steady_trans: "steady h h' \<Longrightarrow> steady h' h'' \<Longrightarrow> steady h h''"
  by (simp add: steady_def)

lemma steady_quiet: "steady h h' \<Longrightarrow> quiet c \<Longrightarrow> steady h (h' @ [(c, x)])"
  by (simp add: steady_def quiet_view)

text \<open>Opening, reading or writing, and closing another file.\<close>

lemma steady_visit:
  assumes "fd \<notin> open_fds h" and "c = Read fd n \<or> c = Write fd b"
  shows "steady h (h @ [(Open p fl m, fd, d), (c, r, d'), (Close fd, r', d'')])"
  using assms by (auto simp: steady_def hist_simps)

text \<open>
  \<open>t\<close> comes from \<open>s\<close> without touching a variable or, if descriptors have been fresh, an open file.
\<close>

definition bystander :: "'m machine_scheme \<Rightarrow> 'm machine_scheme \<Rightarrow> bool" where
  "bystander s t \<longleftrightarrow> (\<exists>h. hist t = hist s @ h) \<and> (fresh_hist (hist t) \<longrightarrow> steady (hist s) (hist t)) \<and>
     machine.more t = machine.more s"

lemma bystander_refl [simp]: "bystander s s"
  by (simp add: bystander_def)

lemma bystander_trans: "bystander s t \<Longrightarrow> bystander t u \<Longrightarrow> bystander s u"
  by (auto simp: bystander_def fresh_hist_append intro: steady_trans)

lemma bystander_quiet: "bystander s t \<Longrightarrow> quiet c \<Longrightarrow> bystander s (emit c r d t)"
  by (auto simp: bystander_def steady_quiet fresh_hist_append)

lemma bystander_bram: "bystander s t \<Longrightarrow> bystander s (bram_upd w i v t)"
  by (auto simp: bystander_def steady_quiet fresh_hist_append)

lemma wp_bystander_gpio:
  "wp (gpio_set e p v) (\<lambda>_ t. bystander s t) (\<lambda>_. True) s"
  "wp (gpio_get e p) (\<lambda>_ t. bystander s t) (\<lambda>_. True) s"
  by (auto simp: gpio_set_def gpio_get_def bystander_def fresh_hist_append intro!: steady_visit)

lemma bystander_tick: "bystander s t \<Longrightarrow> bystander s (cut_tick e c t)"
  by (simp add: cut_tick_def Let_def bystander_quiet)

lemma wp_bystander_poll:
  "bystander s u \<Longrightarrow> wp (poll_while n (chan_cut_req e c)) (\<lambda>_ t. bystander s t) (\<lambda>_. True) u"
proof (induction n arbitrary: u)
  case 0
  then show ?case by (simp add: wp_def)
next
  case (Suc n)
  then show ?case using Suc.IH [OF bystander_tick [OF Suc.prems]] bystander_tick [OF Suc.prems]
    by (simp add: wp_def chan_cut_req_eq)
qed

lemma wp_bystander_cut_ack: "bystander s u \<Longrightarrow> wp (chan_cut_ack e c) (\<lambda>_ t. bystander s t) (\<lambda>_. True) u"
  unfolding chan_cut_ack_def wp_statement wp_bram
  by (rule wp_mono [OF wp_bystander_poll]) (auto intro: bystander_bram)

section \<open>The control loop\<close>

text \<open>
  What an iteration of the control leaves alone for the recorders; it starts no recording of
  channel 0 and ends none.
\<close>

definition controlled :: "'m store_state_scheme \<Rightarrow> 'm store_state_scheme \<Rightarrow> bool" where
  "controlled s t \<longleftrightarrow> (\<exists>h. hist t = hist s @ h) \<and>
     (fresh_hist (hist t) \<longrightarrow> steady (hist s) (hist t)) \<and> mn t = mn s \<and> ls t = ls s \<and> sy t = sy s \<and>
     st_fd t = st_fd s \<and> rxmem t = rxmem s \<and> axidma t = axidma s \<and> gMutexDma t = gMutexDma s \<and>
     mn_recording t = mn_recording s \<and> sy_recording t = sy_recording s"

lemma controlled_refl: "controlled s s"
  by (simp add: controlled_def)

lemma controlled_bystander:
  assumes "controlled s t" and "bystander t u"
  shows "controlled s u"
proof -
  have "machine.more u = machine.more t" using assms(2) by (simp add: bystander_def)
  note same = same_globals [OF this]
  have "(\<exists>h. hist u = hist s @ h) \<and> (fresh_hist (hist u) \<longrightarrow> steady (hist s) (hist u))"
    using assms by (auto simp: bystander_def controlled_def fresh_hist_append intro: steady_trans)
  then show ?thesis using assms(1)
    unfolding controlled_def mn_recording_def sy_recording_def same by simp
qed

lemma wp_controlled:
  assumes "controlled s u" and "wp p (\<lambda>_ t. bystander u t) (\<lambda>_. True) u"
  shows "wp p (\<lambda>_ t. controlled s t) (\<lambda>_. True) u"
  by (rule wp_mono [OF assms(2)]) (auto intro: controlled_bystander [OF assms(1)])

lemma controlled_fields [simp]:
  "controlled s (t\<lparr>chan0_index := a\<rparr>) = controlled s t" "controlled s (t\<lparr>chan_slice := b\<rparr>) = controlled s t"
  "controlled s (t\<lparr>num_mn := c\<rparr>) = controlled s t" "controlled s (t\<lparr>num_ls := c\<rparr>) = controlled s t"
  "controlled s (t\<lparr>slice_count := d\<rparr>) = controlled s t"
  "controlled s (t\<lparr>chan_stored := (chan_stored t)(1 := v)\<rparr>) = controlled s t"
  "controlled s (t\<lparr>chan_slice_alt := (chan_slice_alt t)(1 := v)\<rparr>) = controlled s t"
  by (simp_all add: controlled_def mn_recording_def sy_recording_def)

lemma wp_controlled_wait_slice:
  assumes "controlled s u"
  shows "wp (wait_slice e) (\<lambda>_ t. controlled s t) (\<lambda>_. True) u"
proof -
  have tick: "controlled s (cut_tick e c t)" if "controlled s t" for c and t :: "'a store_state_scheme"
    using controlled_bystander [OF that] bystander_tick [OF bystander_refl] by blast
  have ack: "wp (chan_cut_ack e c) (\<lambda>_ t. controlled s t) (\<lambda>_. True) t"
    if "controlled s t" for c and t :: "'a store_state_scheme"
    by (rule wp_controlled [OF that wp_bystander_cut_ack]) simp
  show ?thesis using assms
    by (auto simp: wait_slice_def intro!: tick wp_mono [OF ack])
qed

lemma controlled_rearm:
  "controlled s t \<Longrightarrow> chan_stored t 0 \<noteq> 0 \<Longrightarrow> chan0_indexed t \<noteq> 0 \<Longrightarrow> controlled s (rearm0 t)"
  "controlled s t \<Longrightarrow> controlled s (rearm1 t)"
  by (auto simp: controlled_def rearm0_def rearm1_def mn_recording_def sy_recording_def)

lemma wp_store_control:
  "wp (store_control e) (\<lambda>_ t. controlled s t) (\<lambda>_. True) s"
proof -
  have req: "wp (flow_ctrl_req e 0) (\<lambda>_ t. bystander s t) (\<lambda>_. True) s"
    unfolding flow_ctrl_req_def by (rule wp_bystander_gpio(2))
  have ack: "wp (flow_ctrl_ack e 0) (\<lambda>_ t. bystander s t) (\<lambda>_. True) u"
    if "bystander s u" for u :: "'a store_state_scheme"
    unfolding flow_ctrl_ack_def Let_def wp_statement
    by (rule wp_mono [OF wp_bystander_gpio(1)], rule wp_mono [OF wp_bystander_gpio(1)]) (use that in \<open>auto intro: bystander_trans\<close>)
  have rest: "wp (seqR [whenR (\<lambda>s. chan_stored s 1 \<noteq> 0)
        (whenR (\<lambda>s. slice_count s 1 < MAX_FILE_COUNT) (modify rearm1)),
      sysdo e (Usleep 10), wait_slice e]) (\<lambda>_ t. controlled s t) (\<lambda>_. True) u"
    if "controlled s u" for u :: "'a store_state_scheme"
    using that
    by (auto intro!: wp_controlled_wait_slice controlled_rearm
        controlled_bystander [OF _ bystander_quiet [OF bystander_refl]])
  have rearm: "controlled s (rearm0 u)" if "bystander s u" "chan0_indexed s \<noteq> 0" "chan_stored s 0 \<noteq> 0"
    for u :: "'a store_state_scheme"
  proof (rule controlled_rearm(1))
    have "machine.more u = machine.more s" using that(1) by (simp add: bystander_def)
    note same = same_globals [OF this]
    show "chan_stored u 0 \<noteq> 0" "chan0_indexed u \<noteq> 0" using that(2,3) by (simp_all add: same)
    show "controlled s u" by (rule controlled_bystander [OF controlled_refl that(1)])
  qed
  define m :: "('a store_state_scheme, unit) prog" where
    "m = seqR [whenR (\<lambda>s. chan_stored s 1 \<noteq> 0)
        (whenR (\<lambda>s. slice_count s 1 < MAX_FILE_COUNT) (modify rearm1)),
      sysdo e (Usleep 10), wait_slice e]"
  have split: "store_control e = seqR [whenR (\<lambda>s. chan0_indexed s \<noteq> 0 \<and> chan_stored s 0 \<noteq> 0)
      (whenR (\<lambda>s. slice_count s 0 < MAX_FILE_COUNT)
        (bindR (flow_ctrl_req e 0) (\<lambda>r. if r = 0 then ret ()
           else seqR [flow_ctrl_ack e 0, modify rearm0]))), m]"
    by (rule ext) (simp add: store_control_def m_def split: result.split)
  note rest = rest [folded m_def]
  show ?thesis unfolding split
    by (auto simp: controlled_refl intro!: rest wp_mono [OF req] wp_mono [OF ack] rearm
        intro: controlled_bystander [OF controlled_refl])
qed

section \<open>What the recorders rely on\<close>

text \<open>
  An iteration of the control, run between iterations of the recorders, satisfies the rely
  relation of each of them.
\<close>

lemma control_relies:
  assumes "store_control e s = Ok () t" and "mn_inv s" and "fresh_hist (hist t)"
  shows "mn_rely s t \<and> ls_rely s t \<and> sy_rely s t"
proof -
  have "controlled s t" by (rule wp_Ok [OF wp_store_control assms(1)])
  moreover have "mn_recording s \<Longrightarrow> mn_fd s \<in> open_fds (hist s)" "gMutexDma s = 0"
    using assms(2) by (simp_all add: mn_inv_def mn_inv_upto_def mn_stream_def)
  ultimately show ?thesis using assms(3)
    by (simp add: controlled_def steady_def mn_rely_def ls_rely_def sy_rely_def ls_is_open_def)
qed

end
