(* ===== verification/Tcp_Support.thy ===== *)
theory Tcp_Support
  imports Ugpio
begin

text \<open>
  \<open>tcp_process.c\<close>, part one: the state of a connection and the functions its commands call:
  the link check, the system clock, the count of recorded files, and the unused client loop.

  \<open>errno\<close> is only ever compared with 0; a failing call sets it to a non-zero value.  The file
  count is an unbounded integer (the code uses \<open>int\<close>).
\<close>

section \<open>The state of a connection\<close>

text \<open>
  The locals of \<open>process_conn_server\<close> that outlive an iteration, and the globals of the file.
  A connection is served by a process of its own, which shares only the BRAM with the others.
\<close>

record tcp_state = machine +
  sfs :: statfs_t
  buffer :: bytes
  start_record :: u32
  new_file :: u32
  fisk_warn :: int
  fisk_threshold :: int
  path :: bytes
  errno :: int

lemma tcp_emit [simp]:
  "sfs (emit c r d s) = sfs s"
  "buffer (emit c r d s) = buffer s"
  "start_record (emit c r d s) = start_record s"
  "new_file (emit c r d s) = new_file s"
  "fisk_warn (emit c r d s) = fisk_warn s"
  "fisk_threshold (emit c r d s) = fisk_threshold s"
  "path (emit c r d s) = path s"
  "errno (emit c r d s) = errno s"
  by (simp_all add: emit_def)

section \<open>The network links\<close>

fun strstr :: "string \<Rightarrow> string \<Rightarrow> bool" where
  "strstr [] t = (t = [])"
| "strstr (c # s) t = (take (length t) (c # s) = t \<or> strstr s t)"

definition lan_path :: "nat \<Rightarrow> string" where
  "lan_path i = ''/sys/class/net/eth'' @ dec i @ ''/operstate''"

text \<open>One iteration of the loop: whether the interface is up.\<close>

definition lan_up :: "env \<Rightarrow> nat \<Rightarrow> ('m machine_scheme, bool) prog" where
  "lan_up e i =
     bindR (syscall e (Open (lan_path i) [O_RDONLY] 0)) (\<lambda>net_fd.
       if net_fd < 0 then ret False
       else bindR (syscall_data e (Read net_fd 10)) (\<lambda>(r, d).
         bindR (sysdo e (Close net_fd)) (\<lambda>_.
           ret (strstr (cstr (take (min 10 (nat r)) d @ [0])) ''up''))))"

definition connect_check :: "env \<Rightarrow> ('m machine_scheme, int) prog" where
  "connect_check e =
     bindR (lan_up e 0) (\<lambda>base_bx_state.
     bindR (lan_up e 1) (\<lambda>base_t_state.
       ret (if base_bx_state \<and> base_t_state then 0xf else if base_t_state then 0x1 else 0)))"

section \<open>The system clock\<close>

text \<open>The broken-down time handed to \<open>mktime\<close>: the client's time moved from UTC+8 to UTC.\<close>

definition nowtime :: "int \<Rightarrow> int \<Rightarrow> int \<Rightarrow> int \<Rightarrow> int \<Rightarrow> int \<Rightarrow> tm" where
  "nowtime year mon mday hour mi sec =
     (let (h, d) = if hour \<le> 8 then (hour + 16, mday - 1) else (hour - 8, mday)
      in \<lparr>tm_sec = sec, tm_min = mi, tm_hour = h, tm_mday = d, tm_mon = mon - 1,
          tm_year = year + 100\<rparr>)"

definition set_datetime ::
  "env \<Rightarrow> int \<Rightarrow> int \<Rightarrow> int \<Rightarrow> int \<Rightarrow> int \<Rightarrow> int \<Rightarrow> ('m machine_scheme, unit) prog" where
  "set_datetime e year mon mday hour mi sec =
     bindR (syscall e (Time (Mktime (nowtime year mon mday hour mi sec)))) (\<lambda>t.
       sysdo e (Time (Stime t)))"

section \<open>Counting the recorded files\<close>

definition share_path :: "string \<Rightarrow> string" where
  "share_path root = ''/smbshare/'' @ root @ ''/''"

text \<open>
  \<open>get_file_count\<close> and its loop over the entries of a directory.  Both \<open>sprintf\<close>s write to
  arrays of 256 bytes; the longer path of every recursive call bounds the depth.  \<open>readdir\<close>
  answers \<open>NULL\<close> after the last entry, with a non-zero value when that was an error.
\<close>

function get_file_count :: "env \<Rightarrow> string \<Rightarrow> ('m tcp_state_scheme, int) prog"
  and count_entries ::
    "env \<Rightarrow> string \<Rightarrow> int \<Rightarrow> int \<Rightarrow> (string \<times> dtype) list \<Rightarrow> ('m tcp_state_scheme, int) prog"
where
  "get_file_count e root =
     (if 256 \<le> length (share_path root) then abort_with Undefined
      else bindR (gets (\<lambda>s. k_dir e (hist s) (share_path root))) (\<lambda>es.
        bindR (syscall e (Dir (Opendir (share_path root)))) (\<lambda>dir.
        if dir = 0 then bindR (modify (\<lambda>s. s\<lparr>errno := 1\<rparr>)) (\<lambda>_. ret 0xffff)
        else bindR (modify (\<lambda>s. s\<lparr>errno := 0\<rparr>)) (\<lambda>_. count_entries e root dir 0 es))))"
| "count_entries e root dir tot [] =
     bindR (syscall e (Dir (Readdir dir))) (\<lambda>r.
     bindR (if r \<noteq> 0 then modify (\<lambda>s. s\<lparr>errno := 1\<rparr>) else ret ()) (\<lambda>_.
     ifR (\<lambda>s. errno s \<noteq> 0) (abort_with (Exited 1))
       (bindR (sysdo e (Dir (Closedir dir))) (\<lambda>_. ret tot))))"
| "count_entries e root dir tot ((d_name, d_type) # es) =
     bindR (sysdo e (Dir (Readdir dir))) (\<lambda>_.
       if d_name = ''.'' \<or> d_name = ''..'' then count_entries e root dir tot es
       else if d_type = DT_DIR then
         (if 256 \<le> length (root @ ''/'' @ d_name) then abort_with Undefined
          else bindR (get_file_count e (root @ ''/'' @ d_name)) (\<lambda>n.
            count_entries e root dir (tot + n) es))
       else if d_type = DT_REG then count_entries e root dir (tot + 1) es
       else count_entries e root dir tot es)"
  by pat_completeness auto
termination
  by (relation "measures
    [\<lambda>x. case x of Inl (e, root) \<Rightarrow> 256 - length root | Inr (e, root, r) \<Rightarrow> 256 - length root,
     \<lambda>x. case x of Inl _ \<Rightarrow> 1 | Inr _ \<Rightarrow> 0,
     \<lambda>x. case x of Inl _ \<Rightarrow> 0 | Inr (e, root, dir, tot, es) \<Rightarrow> length es]") auto

declare get_file_count.simps [simp del] count_entries.simps [simp del]

section \<open>The client loop\<close>

text \<open>
  One iteration of \<open>process_conn_client\<close>, which nothing calls.  A failing second \<open>read\<close> makes
  it write \<open>(size_t) -1\<close> bytes.
\<close>

definition process_conn_client :: "env \<Rightarrow> int \<Rightarrow> ('m machine_scheme, unit) prog" where
  "process_conn_client e s =
     bindR (syscall_data e (Read 0 1024)) (\<lambda>(n, d).
       if 0 < n then seqR
         [sysdo e (Write s (take (nat n) d)),
          bindR (syscall_data e (Read s 1024)) (\<lambda>(n', d').
            if n' < 0 then abort_with Undefined else sysdo e (Write 1 (take (nat n') d')))]
       else ret ())"

section \<open>Directory trees\<close>

text \<open>What is below a directory, and the number of regular files in it.\<close>

datatype fnode = Reg | Other | Fdir "(string \<times> fnode) list"

fun dtype_of :: "fnode \<Rightarrow> dtype" where
  "dtype_of Reg = DT_REG"
| "dtype_of Other = DT_OTHER"
| "dtype_of (Fdir es) = DT_DIR"

primrec count_files :: "fnode \<Rightarrow> nat" where
  "count_files Reg = 1"
| "count_files Other = 0"
| "count_files (Fdir es) = sum_list (map snd (map (map_prod id count_files) es))"

definition listing :: "(string \<times> fnode) list \<Rightarrow> (string \<times> dtype) list" where
  "listing es = map (\<lambda>(n, x). (n, dtype_of x)) es"

text \<open>
  The kernel presents the tree below \<open>p\<close>: every directory can be opened and lists itself, its
  parent and its entries, under names short enough for the code's arrays.
\<close>

inductive presents :: "env \<Rightarrow> string \<Rightarrow> fnode \<Rightarrow> bool" for e where
  Reg: "presents e p Reg"
| Other: "presents e p Other"
| Fdir: "length (share_path p) < 256 \<Longrightarrow>
    (\<And>h. k_dir e h (share_path p) = (''.'', DT_DIR) # (''..'', DT_DIR) # listing es) \<Longrightarrow>
    (\<And>h. k_ret e h (Dir (Opendir (share_path p))) \<noteq> 0) \<Longrightarrow>
    (\<And>n x. (n, x) \<in> set es \<Longrightarrow> n \<noteq> ''.'' \<and> n \<noteq> ''..'' \<and> presents e (p @ ''/'' @ n) x) \<Longrightarrow>
    presents e p (Fdir es)"

inductive_cases presents_FdirE: "presents e p (Fdir es)"

definition readdir_ok :: "env \<Rightarrow> bool" where
  "readdir_ok e \<longleftrightarrow> (\<forall>h d. k_ret e h (Dir (Readdir d)) = 0)"

text \<open>Counting returns \<open>n\<close>, leaves \<open>errno\<close> cleared and the shared memory alone.\<close>

definition counts :: "('m tcp_state_scheme, int) prog \<Rightarrow> nat \<Rightarrow> 'm tcp_state_scheme \<Rightarrow> bool" where
  "counts m n s \<longleftrightarrow> (\<exists>t. m s = Ok (int n) t \<and> errno t = 0 \<and> bram_ps t = bram_ps s)"

lemma count_entry_dots:
  "n = ''.'' \<or> n = ''..'' \<Longrightarrow> count_entries e p dir tot ((n, k) # es) s =
     count_entries e p dir tot es (emit (Dir (Readdir dir)) (k_ret e (hist s) (Dir (Readdir dir)))
       (k_data e (hist s) (Dir (Readdir dir))) s)"
  by (subst count_entries.simps) (simp add: run_simps ops)

definition after_readdir :: "env \<Rightarrow> int \<Rightarrow> 'm machine_scheme \<Rightarrow> 'm machine_scheme" where
  "after_readdir e dir s = emit (Dir (Readdir dir)) (k_ret e (hist s) (Dir (Readdir dir)))
     (k_data e (hist s) (Dir (Readdir dir))) s"

lemma count_entry_dir:
  assumes "n \<noteq> ''.''" "n \<noteq> ''..''" "length p + length n < 255"
  shows "count_entries e p dir tot ((n, DT_DIR) # es) s =
    (case get_file_count e (p @ ''/'' @ n) (after_readdir e dir s) of
       Ok k t \<Rightarrow> count_entries e p dir (tot + k) es t | Fail a t \<Rightarrow> Fail a t)"
  using assms by (subst count_entries.simps) (simp add: run_simps ops after_readdir_def)

text \<open>A non-zero \<open>errno\<close> at the end of a directory ends the process.\<close>

lemma count_entries_stale:
  "errno s = 1 \<Longrightarrow> \<exists>t. count_entries e p dir tot [] s = Fail (Exited 1) t"
  by (simp add: count_entries.simps run_simps ops)

lemma count_entries_listing:
  assumes "readdir_ok e" and "errno s = 0"
    and "\<And>n x. (n, x) \<in> set es \<Longrightarrow> n \<noteq> ''.'' \<and> n \<noteq> ''..'' \<and>
      (case x of Fdir _ \<Rightarrow> length (p @ ''/'' @ n) < 256 \<and>
         (\<forall>s :: 'm tcp_state_scheme. counts (get_file_count e (p @ ''/'' @ n)) (count_files x) s)
       | _ \<Rightarrow> True)"
  shows "\<exists>t. count_entries e p dir tot (listing es @ rest) s
      = count_entries e p dir (tot + int (sum_list (map (count_files \<circ> snd) es))) rest t \<and>
    errno t = 0 \<and> bram_ps t = bram_ps (s :: 'm tcp_state_scheme)"
  using assms(2,3)
proof (induction es arbitrary: s tot)
  case Nil
  then show ?case by (auto simp: listing_def)
next
  case (Cons a es)
  obtain n x where a: "a = (n, x)" by (cases a)
  let ?c = "Dir (Readdir dir)"
  let ?s = "emit ?c (k_ret e (hist s) ?c) (k_data e (hist s) ?c) s"
  have nm: "n \<noteq> ''.''" "n \<noteq> ''..''" using Cons.prems(2) [of n x] a by auto
  have "\<exists>u. count_entries e p dir tot (listing (a # es) @ rest) s =
      count_entries e p dir (tot + int (count_files x)) (listing es @ rest) u \<and> errno u = 0 \<and>
      bram_ps u = bram_ps s"
  proof (cases x)
    case (Fdir ds)
    then have len: "length p + length n < 255"
      and cnt: "counts (get_file_count e (p @ ''/'' @ n)) (count_files x) ?s"
      using Cons.prems(2) [of n x] a by auto
    from cnt obtain u where "get_file_count e (p @ ''/'' @ n) ?s = Ok (int (count_files x)) u"
        "errno u = 0" "bram_ps u = bram_ps ?s"
      by (auto simp: counts_def)
    then show ?thesis using nm len Fdir a
      by (intro exI [of _ u]) (simp add: listing_def count_entries.simps run_simps ops)
  qed (use nm a Cons.prems(1) in \<open>auto simp: listing_def count_entries.simps run_simps ops\<close>)
  then obtain u where u: "count_entries e p dir tot (listing (a # es) @ rest) s =
      count_entries e p dir (tot + int (count_files x)) (listing es @ rest) u" "errno u = 0"
      "bram_ps u = bram_ps s" by blast
  have rest: "(n, x) \<in> set es \<Longrightarrow> n \<noteq> ''.'' \<and> n \<noteq> ''..'' \<and>
      (case x of Fdir _ \<Rightarrow> length (p @ ''/'' @ n) < 256 \<and>
         (\<forall>s :: 'm tcp_state_scheme. counts (get_file_count e (p @ ''/'' @ n)) (count_files x) s)
       | _ \<Rightarrow> True)" for n x
    using Cons.prems(2) [of n x] by simp
  from Cons.IH [OF u(2) rest, of "tot + int (count_files x)"] u(1,3) show ?case
    by (simp add: a add.assoc)
qed

lemma count_entries_end:
  assumes "readdir_ok e" and "errno s = 0"
  shows "\<exists>t. count_entries e p dir tot [] s = Ok tot t \<and> errno t = 0 \<and> bram_ps t = bram_ps s"
  using assms by (simp add: count_entries.simps run_simps ops readdir_ok_def)

lemma get_file_count_entries:
  assumes "length (share_path p) < 256" and "k_ret e (hist s) (Dir (Opendir (share_path p))) \<noteq> 0"
  shows "\<exists>dir u. get_file_count e p s = count_entries e p dir 0 (k_dir e (hist s) (share_path p)) u \<and>
    errno u = 0 \<and> bram_ps u = bram_ps s"
  using assms
  by (subst get_file_count.simps) (simp add: run_simps ops, intro exI conjI, rule refl, simp_all)

lemma counts_tree:
  "presents e p x \<Longrightarrow> readdir_ok e \<Longrightarrow> x = Fdir es \<Longrightarrow>
   counts (get_file_count e p) (count_files x) (s :: 'm tcp_state_scheme)"
proof (induction p x arbitrary: es s rule: presents.induct)
  case (Fdir p ds es s)
  obtain dir u where u: "get_file_count e p s =
      count_entries e p dir 0 ((''.'', DT_DIR) # (''..'', DT_DIR) # listing ds) u"
      "errno u = 0" "bram_ps u = bram_ps s"
    using get_file_count_entries [OF Fdir.hyps(1,3)] Fdir.hyps(2) by metis
  obtain v where v: "get_file_count e p s = count_entries e p dir 0 (listing ds @ []) v"
      "errno v = 0" "bram_ps v = bram_ps s"
    using u by (simp add: count_entry_dots)
  have "\<exists>t. count_entries e p dir 0 (listing ds @ []) v
      = count_entries e p dir (0 + int (sum_list (map (count_files \<circ> snd) ds))) [] t \<and>
    errno t = 0 \<and> bram_ps t = bram_ps v"
  proof (rule count_entries_listing [OF \<open>readdir_ok e\<close> v(2)])
    fix n x
    assume m: "(n, x) \<in> set ds"
    have "length (share_path (p @ ''/'' @ n)) < 256" if "x = Fdir fs" for fs
      using Fdir.IH [OF m] that by (auto elim: presents_FdirE)
    then show "n \<noteq> ''.'' \<and> n \<noteq> ''..'' \<and> (case x of Fdir _ \<Rightarrow> length (p @ ''/'' @ n) < 256 \<and>
         (\<forall>s :: 'm tcp_state_scheme. counts (get_file_count e (p @ ''/'' @ n)) (count_files x) s)
       | _ \<Rightarrow> True)"
      using Fdir.IH [OF m] Fdir.prems(1)
      by (auto simp: share_path_def split: fnode.split)
  qed
  then obtain w where "count_entries e p dir 0 (listing ds @ []) v
      = count_entries e p dir (int (count_files (Fdir ds))) [] w" "errno w = 0" "bram_ps w = bram_ps v"
    by (auto simp: o_def)
  with v count_entries_end [OF \<open>readdir_ok e\<close>, of w p dir "int (count_files (Fdir ds))"]
  show ?case unfolding counts_def by metis
qed auto

text \<open>The entries of a directory, each of them presented by the kernel.\<close>

definition entries_presented :: "env \<Rightarrow> string \<Rightarrow> (string \<times> fnode) list \<Rightarrow> bool" where
  "entries_presented e p es \<longleftrightarrow>
     (\<forall>(n, x) \<in> set es. n \<noteq> ''.'' \<and> n \<noteq> ''..'' \<and> presents e (p @ ''/'' @ n) x)"

lemma count_entries_presented:
  assumes "entries_presented e p es" and "readdir_ok e" and "errno s = 0"
  shows "\<exists>t. count_entries e p dir tot (listing es @ rest) s
      = count_entries e p dir (tot + int (sum_list (map (count_files \<circ> snd) es))) rest t \<and>
    errno t = 0 \<and> bram_ps t = bram_ps (s :: 'm tcp_state_scheme)"
proof (rule count_entries_listing [OF assms(2,3)])
  fix n x
  assume m: "(n, x) \<in> set es"
  then have pr: "n \<noteq> ''.''" "n \<noteq> ''..''" "presents e (p @ ''/'' @ n) x"
    using assms(1) by (auto simp: entries_presented_def)
  then have "length (share_path (p @ ''/'' @ n)) < 256" if "x = Fdir fs" for fs
    using that by (auto elim: presents_FdirE)
  then show "n \<noteq> ''.'' \<and> n \<noteq> ''..'' \<and> (case x of Fdir _ \<Rightarrow> length (p @ ''/'' @ n) < 256 \<and>
       (\<forall>s :: 'm tcp_state_scheme. counts (get_file_count e (p @ ''/'' @ n)) (count_files x) s)
     | _ \<Rightarrow> True)"
    using pr counts_tree [OF pr(3) assms(2)]
    by (auto simp: share_path_def split: fnode.split)
qed

text \<open>An unreadable subdirectory counts 65535 and leaves \<open>errno\<close> set.\<close>

lemma get_file_count_unreadable:
  assumes "length (share_path p) < 256" and "k_ret e (hist s) (Dir (Opendir (share_path p))) = 0"
  shows "\<exists>t. get_file_count e p s = Ok 0xffff t \<and> errno t = 1"
  using assms by (simp add: get_file_count.simps run_simps ops)

section \<open>A concrete file system\<close>

definition tcp0 :: tcp_state where
  "tcp0 = \<lparr>hist = [], bram_ps = (\<lambda>_. 0), sfs = \<lparr>f_type = 0, f_blocks = 0, f_bfree = 0, f_bsize = 0\<rparr>,
     buffer = replicate 300 0, start_record = 0, new_file = 0, fisk_warn = 0, fisk_threshold = 0,
     path = replicate 256 0, errno = 0\<rparr>"

lemma tcp0_simps [simp]:
  "hist tcp0 = []" "bram_ps tcp0 = (\<lambda>_. 0)" "buffer tcp0 = replicate 300 0"
  "fisk_threshold tcp0 = 0" "fisk_warn tcp0 = 0" "length (path tcp0) = 256"
  by (simp_all add: tcp0_def)

text \<open>Two files, one of them in a subdirectory, which may be unreadable.\<close>

definition tree0 :: fnode where
  "tree0 = Fdir [(''a'', Reg), (''d'', Fdir [(''b'', Reg)])]"

definition env_tree :: "bool \<Rightarrow> env" where
  "env_tree readable = env0\<lparr>
     k_ret := (\<lambda>h c. case c of
        Dir (Opendir p) \<Rightarrow> if p = share_path ''r'' \<or> readable then 5 else 0 | _ \<Rightarrow> ret0 h c),
     k_dir := (\<lambda>h p. [(''.'', DT_DIR), (''..'', DT_DIR)] @
        (if p = share_path ''r'' then [(''a'', DT_REG), (''d'', DT_DIR)] else [(''b'', DT_REG)]))\<rparr>"

lemma env_tree_dir:
  "k_dir (env_tree b) h p = [(''.'', DT_DIR), (''..'', DT_DIR)] @
     (if p = share_path ''r'' then [(''a'', DT_REG), (''d'', DT_DIR)] else [(''b'', DT_REG)])"
  "k_ret (env_tree b) h (Dir (Opendir p)) = (if p = share_path ''r'' \<or> b then 5 else 0)"
  by (simp_all add: env_tree_def)

lemma readdir_ok_tree: "readdir_ok (env_tree b)"
  by (simp add: readdir_ok_def env_tree_def ret0_def)

lemma presents_tree: "presents (env_tree True) ''r'' tree0"
proof -
  have "presents (env_tree True) ''r/d'' (Fdir [(''b'', Reg)])"
    by (rule presents.Fdir) (auto simp: env_tree_dir share_path_def listing_def intro: presents.Reg)
  then show ?thesis unfolding tree0_def
    by (intro presents.Fdir)
      (auto simp: env_tree_dir share_path_def listing_def intro: presents.Reg)
qed

section \<open>The state of a link\<close>

text \<open>What the kernel reports in \<open>operstate\<close>.\<close>

definition link_text :: "bool \<Rightarrow> bytes" where
  "link_text up = str_bytes ((if up then ''up'' else ''down'') @ [CHR 0x0A])"

definition operstate :: "env \<Rightarrow> nat \<Rightarrow> bool \<Rightarrow> bool" where
  "operstate e i up \<longleftrightarrow> (\<forall>h. 0 \<le> k_ret e h (Open (lan_path i) [O_RDONLY] 0)) \<and>
     (\<forall>h fd x. let h' = h @ [(Open (lan_path i) [O_RDONLY] 0, fd, x)] in
       k_ret e h' (Read fd 10) = int (length (link_text up)) \<and>
       k_data e h' (Read fd 10) = link_text up)"

lemma strstr_link: "strstr (cstr (take (min 10 (length (link_text up))) (link_text up) @ [0])) ''up'' = up"
proof -
  have "take (min 10 (length (link_text up))) (link_text up) = link_text up"
    by (simp add: link_text_def)
  then show ?thesis
    by (simp add: link_text_def cstr_append_nul del: append_assoc)
qed

lemma lan_up_operstate:
  assumes "operstate e i up"
  shows "\<exists>t. lan_up e i s = Ok up t \<and> quiet_obs t = quiet_obs s"
  using assms strstr_link [of up]
  by (simp add: lan_up_def run_simps ops operstate_def Let_def quiet_obs_def hist_simps not_less [symmetric])

definition env_links :: "(nat \<Rightarrow> bool) \<Rightarrow> env" where
  "env_links up = env0\<lparr>
     k_ret := (\<lambda>h c. case c of Read fd n \<Rightarrow>
        (case last h of (Open p fl m, _) \<Rightarrow> int (length (link_text (up (if p = lan_path 1 then 1 else 0))))
         | _ \<Rightarrow> 0) | _ \<Rightarrow> ret0 h c),
     k_data := (\<lambda>h c. case last h of (Open p fl m, _) \<Rightarrow> link_text (up (if p = lan_path 1 then 1 else 0))
         | _ \<Rightarrow> [])\<rparr>"

lemma lan_path_inject [simp]: "lan_path i = lan_path j \<longleftrightarrow> i = j"
  by (simp add: lan_path_def)

lemma operstate_env_links: "i = 0 \<or> i = 1 \<Longrightarrow> operstate (env_links up) i (up i)"
  by (auto simp: operstate_def env_links_def Let_def)

section \<open>Properties\<close>

text \<open>C23: \<open>get_file_count\<close> returns the number of regular files in the directory tree below its
  argument, whatever its shape and depth, when every directory of it can be read and every path
  fits the code's arrays.\<close>

theorem file_count_correct:
  assumes "presents e p (Fdir es)" and "readdir_ok e"
  shows "\<exists>t. get_file_count e p s = Ok (int (count_files (Fdir es))) t"
  using counts_tree [OF assms refl, of s] by (auto simp: counts_def)

theorem file_count_correct_witness:
  "\<exists>t. get_file_count (env_tree True) ''r'' tcp0 = Ok 2 t"
  using file_count_correct [OF presents_tree [unfolded tree0_def] readdir_ok_tree, of tcp0] by simp

text \<open>C37: an unreadable directory is reported as 65535 files; but when it is the last entry of a
  directory being counted, the stale \<open>errno\<close> of the failed \<open>opendir\<close> makes the whole process
  exit.\<close>

theorem file_count_stale_errno:
  assumes "length (share_path p) < 256" and "k_ret e (hist s) (Dir (Opendir (share_path p))) \<noteq> 0"
    and ls: "k_dir e (hist s) (share_path p)
      = (''.'', DT_DIR) # (''..'', DT_DIR) # listing es @ [(d, DT_DIR)]"
    and "entries_presented e p es" and "readdir_ok e" and d: "d \<noteq> ''.''" "d \<noteq> ''..''"
    and len: "length (share_path (p @ ''/'' @ d)) < 256"
    and no: "\<And>h. k_ret e h (Dir (Opendir (share_path (p @ ''/'' @ d)))) = 0"
  shows "(\<exists>t. get_file_count e (p @ ''/'' @ d) s = Ok 0xffff t) \<and>
    (\<exists>t. get_file_count e p s = Fail (Exited 1) t)"
proof
  have un: "\<exists>t. get_file_count e (p @ ''/'' @ d) u = Ok 0xffff t \<and> errno t = 1"
    for u :: "'a tcp_state_scheme"
    using get_file_count_unreadable [OF len no] .
  then show "\<exists>t. get_file_count e (p @ ''/'' @ d) s = Ok 0xffff t" by blast
  obtain dir u where "get_file_count e p s = count_entries e p dir 0 (listing es @ [(d, DT_DIR)]) u"
      "errno u = 0"
    using get_file_count_entries [OF assms(1,2)] by (auto simp: ls count_entry_dots)
  with count_entries_presented [OF assms(4,5)] obtain v tot
    where "get_file_count e p s = count_entries e p dir tot [(d, DT_DIR)] v" by metis
  moreover have "length p + length d < 255" using len by (simp add: share_path_def)
  moreover obtain w where "get_file_count e (p @ ''/'' @ d) (after_readdir e dir v) = Ok 0xffff w"
      "errno w = 1"
    using un by blast
  ultimately show "\<exists>t. get_file_count e p s = Fail (Exited 1) t"
    using d by (simp add: count_entry_dir count_entries_stale)
qed

theorem file_count_stale_errno_witness:
  "(\<exists>t. get_file_count (env_tree False) ''r/d'' tcp0 = Ok 0xffff t) \<and>
   (\<exists>t. get_file_count (env_tree False) ''r'' tcp0 = Fail (Exited 1) t)"
  using file_count_stale_errno [where e = "env_tree False" and p = "''r''" and s = tcp0
      and es = "[(''a'', Reg)]" and d = "''d''"]
  by (simp add: env_tree_dir readdir_ok_tree share_path_def listing_def entries_presented_def
      presents.Reg)

text \<open>\<open>set_datetime\<close> sets the system clock once, to the instant \<open>mktime\<close> assigns to the time of
  day the client sent moved back by exactly eight hours, across midnight when need be.\<close>

theorem set_datetime_minus_8h:
  "\<exists>t tm r x y. set_datetime e year mon mday hour mi sec s = Ok () t \<and>
     hist t = hist s @ [(Time (Mktime tm), r, x), (Time (Stime r), y)] \<and>
     24 * tm_mday tm + tm_hour tm = 24 * mday + hour - 8 \<and>
     tm_min tm = mi \<and> tm_sec tm = sec \<and> tm_mon tm = mon - 1 \<and> tm_year tm = year + 100"
  by (simp add: set_datetime_def nowtime_def run_simps ops)

text \<open>\<open>connect_check\<close> reports 15 when both interfaces are up, 1 when only the second is, and 0
  otherwise: the first interface alone is not reported.\<close>

theorem connect_check_links:
  assumes "operstate e 0 bx" and "operstate e 1 t"
  shows "\<exists>u. connect_check e s = Ok (if t then if bx then 15 else 1 else 0) u \<and>
    quiet_obs u = quiet_obs s"
proof -
  obtain v where v: "lan_up e 0 s = Ok bx v" "quiet_obs v = quiet_obs s"
    using lan_up_operstate [OF assms(1)] by blast
  obtain u where "lan_up e 1 v = Ok t u" "quiet_obs u = quiet_obs v"
    using lan_up_operstate [OF assms(2)] by blast
  with v show ?thesis by (simp add: connect_check_def run_simps)
qed

theorem connect_check_links_witness:
  "\<exists>u. connect_check (env_links (\<lambda>i. i = 1)) tcp0 = Ok 1 u"
  using connect_check_links [where e = "env_links (\<lambda>i. i = 1)" and bx = False and t = True and s = tcp0]
    operstate_env_links [of 0 "\<lambda>i. i = 1"] operstate_env_links [of 1 "\<lambda>i. i = 1"] by auto

end
