(* ===== verification/Tcp_Process.thy ===== *)
theory Tcp_Process
  imports Tcp_Support
begin

text \<open>
  \<open>process_conn_server\<close> of tcp_process.c: one iteration of its loop, from the check of the disk
  to the reply, with a definition for each command.

  Locals that are assigned before they are read in every command (\<open>my_time\<close>, \<open>time_buffer\<close>,
  \<open>recive_buffer\<close>, \<open>lan_statue\<close>, \<open>total\<close>) are values of that command.  The device state in BRAM
  word 25 lies in the PS half and is read as memory.
\<close>

section \<open>Constants\<close>

definition BUFFERSIZE :: nat where "BUFFERSIZE = 300"
definition ACK_SIZE :: nat where "ACK_SIZE = 32"
definition EXT3_SUPEP_MAGIC :: int where "EXT3_SUPEP_MAGIC = 0xEF53"
definition BRAM_SIZE_RECIVE :: nat where "BRAM_SIZE_RECIVE = 0x2000"
definition WORK_READY :: u64 where "WORK_READY = 1"
definition WORK_RECORD :: u64 where "WORK_RECORD = 2"
definition WORK_DISKFULL :: u64 where "WORK_DISKFULL = 64"
definition disk_size :: u64 where "disk_size = 0x2ba7def3000"

lemmas work_words = WORK_READY_def WORK_RECORD_def WORK_DISKFULL_def

text \<open>The volatile globals no function assigns.\<close>

definition fpga_assv :: u64 where "fpga_assv = 0x123456"
definition fpga_bt :: u64 where "fpga_bt = 0x123456"
definition ppc_temp :: u64 where "ppc_temp = 0x123456"
definition V7fpga_temp :: u64 where "V7fpga_temp = 0x123456"

section \<open>The disk\<close>

definition available_size :: "statfs_t \<Rightarrow> u64" where
  "available_size f =
     (let used = (f_blocks f - f_bfree f) * f_bsize f;
          a = (if used \<le> 0x2ba7def3000 then 0x2ba7def3000 - used else 0)
      in if a > 0x2ba7def3000 then 0x2ba7def3000 else a)"

definition disk_warning :: "env \<Rightarrow> ('m tcp_state_scheme, unit) prog" where
  "disk_warning e =
     ifR (\<lambda>s. available_size (sfs s) < word_of_int (30000000000 * fisk_threshold s))
       (seqR [modify (\<lambda>s. s\<lparr>fisk_warn := 1\<rparr>), gpio_set e 62 0])
       (seqR [modify (\<lambda>s. s\<lparr>fisk_warn := 0\<rparr>), gpio_set e 62 1])"

definition disk_state :: "env \<Rightarrow> ('m tcp_state_scheme, unit) prog" where
  "disk_state e =
     ifR (\<lambda>s. available_size (sfs s) = 0)
       (seqR
         [whenR (\<lambda>s. bram_ps s 25 = WORK_RECORD) (seqR
            [gpio_set e 64 1,
             modify (\<lambda>s. s\<lparr>start_record := 0\<rparr>),
             bram_st 1 9 1,
             enable_data_source e 0]),
          bram_st 1 25 WORK_DISKFULL])
       (whenR (\<lambda>s. bram_ps s 25 \<noteq> WORK_RECORD) (bram_st 1 25 WORK_READY))"

section \<open>Frames\<close>

definition set_buffer :: "(nat \<times> u8) list \<Rightarrow> ('m tcp_state_scheme, unit) prog" where
  "set_buffer ws = modify (\<lambda>s. s\<lparr>buffer := poke ws (buffer s)\<rparr>)"

text \<open>The bytes every reply starts with.\<close>

definition ack_head :: "u8 \<Rightarrow> (nat \<times> u8) list" where
  "ack_head code = [(0, 0x7e), (1, 0x7e), (2, 0), (3, code)]"

definition reply :: "env \<Rightarrow> int \<Rightarrow> nat \<Rightarrow> ('m tcp_state_scheme, unit) prog" where
  "reply e s n = bindR (gets buffer) (\<lambda>b. sysdo e (Write s (take n b)))"

text \<open>The replies of the commands that only acknowledge.\<close>

definition plain_ack :: "env \<Rightarrow> int \<Rightarrow> u8 \<Rightarrow> u8 \<Rightarrow> ('m tcp_state_scheme, unit) prog" where
  "plain_ack e s code m = seqR
     [set_buffer (ack_head code), set_buffer [(28, m), (29, m), (30, 0xfd), (31, 0xfd)],
      reply e s ACK_SIZE]"

section \<open>The time of a request\<close>

text \<open>\<open>((v / 10) << 4) | (v % 10)\<close> stored in a \<open>char\<close>, and its inverse.\<close>

definition to_bcd :: "u8 \<Rightarrow> u8" where
  "to_bcd v = word_of_nat (push_bit 4 (unat v div 10) OR unat v mod 10)"

definition of_bcd :: "u8 \<Rightarrow> u8" where
  "of_bcd b = word_of_nat (unat (drop_bit 4 (b AND 0xf0)) * 10 + unat (b AND 0x0f))"

record TIME =
  TIME_msec :: u8
  TIME_sec :: u8
  TIME_min :: u8
  TIME_hour :: u8
  TIME_day :: u8
  TIME_mon :: u8
  TIME_year :: u8

definition my_time :: "bytes \<Rightarrow> TIME" where
  "my_time b = \<lparr>TIME_msec = to_bcd (b ! 17), TIME_sec = to_bcd (b ! 15), TIME_min = to_bcd (b ! 13),
     TIME_hour = to_bcd (b ! 11), TIME_day = to_bcd (b ! 9), TIME_mon = to_bcd (b ! 7),
     TIME_year = to_bcd (b ! 5)\<rparr>"

definition time_buffer :: "TIME \<Rightarrow> bytes" where
  "time_buffer t = [TIME_sec t, TIME_min t, TIME_hour t, TIME_day t, TIME_mon t, TIME_year t, 0, 0]"

text \<open>Setting the clock of the PL: the time in word 0, a pulse on word 1.\<close>

definition set_pl_clock :: "env \<Rightarrow> nat \<Rightarrow> bytes \<Rightarrow> ('m machine_scheme, unit) prog" where
  "set_pl_clock e us tb = seqR
     [bram_st 1 1 0, memcpy_to_bram e 1 0 tb, sysdo e (Usleep us),
      bram_st 1 1 1, sysdo e (Usleep us), bram_st 1 1 0]"

definition set_system_clock :: "env \<Rightarrow> bytes \<Rightarrow> ('m machine_scheme, unit) prog" where
  "set_system_clock e b = set_datetime e (uint (b ! 5)) (uint (b ! 7)) (uint (b ! 9)) (uint (b ! 11))
     (uint (b ! 13)) (uint (b ! 15))"

section \<open>The commands\<close>

definition cmd_get_status :: "env \<Rightarrow> int \<Rightarrow> ('m tcp_state_scheme, unit) prog" where
  "cmd_get_status e sock = seqR
     [set_buffer (ack_head 0x21 @ [(4, 0), (5, 0)]),
      bindR (gets (\<lambda>s. bram_ps s 25)) (\<lambda>w. set_buffer [(6, byte_at w 1), (7, byte_at w 0)]),
      set_buffer (segment 8 (be_bytes disk_size)),
      bindR (gets (\<lambda>s. available_size (sfs s))) (\<lambda>a. set_buffer (segment 16 (be_bytes a))),
      bindR (gets fisk_warn) (\<lambda>w. set_buffer [(24, word_of_int w), (25, word_of_int w)]),
      set_buffer [(26, 0), (27, 0), (28, 0), (29, 0), (30, 0xfd), (31, 0xfd)],
      reply e sock ACK_SIZE]"

text \<open>A 32-bit value, most significant byte first.\<close>

definition be32 :: "nat \<Rightarrow> u64 \<Rightarrow> (nat \<times> u8) list" where
  "be32 i v = [(i, byte_at v 3), (i + 1, byte_at v 2), (i + 2, byte_at v 1), (i + 3, byte_at v 0)]"

definition cmd_get_volt_temp :: "env \<Rightarrow> int \<Rightarrow> ('m tcp_state_scheme, unit) prog" where
  "cmd_get_volt_temp e sock =
     bindR (memcpy_from_bram e 1 BRAM_SIZE_RECIVE) (\<lambda>recive_buffer.
     bindR (connect_check e) (\<lambda>lan_statue. seqR
       [set_buffer (ack_head 0x22),
        set_buffer [(4, 0), (5, 0), (6, recive_buffer ! 4113 AND 0x03), (7, recive_buffer ! 4112 AND 0xff)],
        set_buffer [(8, 0), (9, 0), (10, recive_buffer ! 4117 AND 0x03), (11, recive_buffer ! 4116 AND 0xff)],
        set_buffer (be32 12 fpga_assv @ be32 16 fpga_bt @ be32 20 ppc_temp @ be32 24 V7fpga_temp),
        set_buffer [(28, recive_buffer ! 4110), (29, word_of_int (push_bit 4 lan_statue)),
          (30, 0xfd), (31, 0xfd)],
        reply e sock ACK_SIZE]))"

text \<open>The time and the directory name of a start request.\<close>

definition start_parameters :: "env \<Rightarrow> bytes \<Rightarrow> ('m machine_scheme, unit) prog" where
  "start_parameters e b = (let t = my_time b in seqR
     [bram_st 1 12 (ucast (TIME_sec t)), bram_st 1 13 (ucast (TIME_min t)),
      bram_st 1 14 (ucast (TIME_hour t)), bram_st 1 15 (ucast (TIME_day t)),
      bram_st 1 16 (ucast (TIME_mon t)), bram_st 1 17 (ucast (TIME_year t)),
      memcpy_to_bram e 1 30 (take 256 (drop 18 b)),
      set_system_clock e b,
      set_pl_clock e 10 (time_buffer t)])"

text \<open>The start of a recording, when the device is ready.\<close>

definition start_recording :: "env \<Rightarrow> ('m tcp_state_scheme, unit) prog" where
  "start_recording e = seqR
     [bram_st 1 25 WORK_RECORD,
      reset_pl e,
      bram_st 1 20 0, bram_st 1 22 0, bram_st 1 23 0, bram_st 1 24 0,
      gpio_set e 64 0,
      modify (\<lambda>s. s\<lparr>start_record := 1, new_file := 1\<rparr>),
      bindR (gets buffer) (start_parameters e),
      bindR (gets start_record) (\<lambda>v. bram_st 1 18 (ucast v)),
      bindR (gets new_file) (\<lambda>v. bram_st 1 19 (ucast v)),
      enable_data_source e 1]"

definition cmd_set_start :: "env \<Rightarrow> int \<Rightarrow> ('m tcp_state_scheme, unit) prog" where
  "cmd_set_start e sock = seqR
     [whenR (\<lambda>s. bram_ps s 25 = WORK_READY) (start_recording e), plain_ack e sock 0x23 0xcc]"

definition cmd_set_stop :: "env \<Rightarrow> int \<Rightarrow> ('m tcp_state_scheme, unit) prog" where
  "cmd_set_stop e sock = seqR
     [bram_st 1 25 WORK_READY,
      modify (\<lambda>s. s\<lparr>start_record := 0\<rparr>),
      gpio_set e 64 1,
      bram_st 1 9 1,
      bram_st 1 20 0, bram_st 1 21 0,
      bram_st 1 22 1, bram_st 1 23 1, bram_st 1 24 1,
      enable_data_source e 0,
      plain_ack e sock 0x24 0xdd]"

definition cmd_set_rtc :: "env \<Rightarrow> int \<Rightarrow> ('m tcp_state_scheme, unit) prog" where
  "cmd_set_rtc e sock = bindR (gets buffer) (\<lambda>b. seqR
     [set_system_clock e b,
      plain_ack e sock 0x25 0xee,
      set_pl_clock e 1000 (time_buffer (my_time b))])"

definition cmd_get_rtc :: "env \<Rightarrow> int \<Rightarrow> ('m tcp_state_scheme, unit) prog" where
  "cmd_get_rtc e sock = bindR (ubram_read e 1 0x2000) (\<lambda>(time_bram, tb). seqR
     [set_buffer (ack_head 0x26),
      set_buffer [(5, of_bcd (tb ! 4109)), (7, of_bcd (tb ! 4108)), (9, of_bcd (tb ! 4107)),
        (11, of_bcd (tb ! 4106)), (13, of_bcd (tb ! 4105)), (15, of_bcd (tb ! 4104))],
      set_buffer [(30, 0xfd), (31, 0xfd)],
      reply e sock ACK_SIZE])"

definition cmd_choose_source :: "env \<Rightarrow> int \<Rightarrow> ('m tcp_state_scheme, unit) prog" where
  "cmd_choose_source e sock = seqR
     [ifR (\<lambda>s. buffer s ! 4 \<noteq> 0) (select_data_source e 1) (select_data_source e 0),
      plain_ack e sock 0x27 0xcc]"

definition cmd_threshold :: "env \<Rightarrow> int \<Rightarrow> ('m tcp_state_scheme, unit) prog" where
  "cmd_threshold e sock = seqR
     [modify (\<lambda>s. s\<lparr>fisk_threshold := uint (buffer s ! 4)\<rparr>), plain_ack e sock 0x28 0xcc]"

definition cmd_version :: "env \<Rightarrow> int \<Rightarrow> ('m tcp_state_scheme, unit) prog" where
  "cmd_version e sock =
     bindR (memcpy_from_bram e 1 BRAM_SIZE_RECIVE) (\<lambda>recive_buffer.
     bindR (connect_check e) (\<lambda>lan_statue. seqR
       [set_buffer (ack_head 0x29),
        set_buffer [(4, recive_buffer ! 4110),
          (5, word_of_int (push_bit 4 lan_statue OR uint (recive_buffer ! 4111 AND 0xff)))],
        set_buffer [(6, if lan_statue = 0xf then 0x3 else 0), (7, 0)],
        set_buffer (segment 8 (take 8 (drop 4096 recive_buffer))),
        set_buffer [(16, 0x3), (17, 0x6)],
        set_buffer [(28, 0xcc), (29, 0xcc), (30, 0xfd), (31, 0xfd)],
        reply e sock ACK_SIZE]))"

text \<open>A \<open>path\<close> without a NUL makes \<open>get_file_count\<close> read past its end.\<close>

definition cmd_file_info :: "env \<Rightarrow> int \<Rightarrow> ('m tcp_state_scheme, unit) prog" where
  "cmd_file_info e sock =
     bindR (modify (\<lambda>s. s\<lparr>path := take 256 (drop 18 (buffer s))\<rparr>)) (\<lambda>_.
     bindR (gets path) (\<lambda>p. if 0 \<notin> set p then abort_with Undefined else
       bindR (get_file_count e (cstr p)) (\<lambda>n. let tot = (word_of_int n :: u32) in seqR
         [set_buffer (ack_head 0x30),
          set_buffer [(4, ucast (drop_bit 8 tot)), (5, ucast tot)],
          bindR (gets path) (\<lambda>p. set_buffer (segment 6 p)),
          set_buffer [(262, 0xcc), (263, 0xcc), (264, 0xfd), (265, 0xfd)],
          reply e sock 266])))"

section \<open>The loop body\<close>

definition dispatch :: "env \<Rightarrow> int \<Rightarrow> ('m tcp_state_scheme, unit) prog" where
  "dispatch e sock = bindR (gets (\<lambda>s. buffer s ! 3)) (\<lambda>c.
     if c = 0x01 then cmd_get_status e sock
     else if c = 0x02 then cmd_get_volt_temp e sock
     else if c = 0x03 then cmd_set_start e sock
     else if c = 0x04 then cmd_set_stop e sock
     else if c = 0x05 then cmd_set_rtc e sock
     else if c = 0x06 then cmd_get_rtc e sock
     else if c = 0x07 then cmd_choose_source e sock
     else if c = 0x08 then cmd_threshold e sock
     else if c = 0x09 then cmd_version e sock
     else if c = 0x10 then cmd_file_info e sock
     else ret ())"

definition read_statfs :: "env \<Rightarrow> ('m tcp_state_scheme, unit) prog" where
  "read_statfs e =
     bindR (gets (\<lambda>s. k_statfs e (hist s))) (\<lambda>f.
     bindR (syscall e (Statfs ''/smbshare'')) (\<lambda>i.
       if i = 0 then modify (\<lambda>s. s\<lparr>sfs := f\<rparr>) else ret ()))"

text \<open>
  One iteration; \<open>False\<close> is the return.  The \<open>read\<close> asks for 1024 bytes although the buffer has
  300; an answer of -1 leaves the buffer as the last reply left it.
\<close>

definition receive :: "env \<Rightarrow> int \<Rightarrow> ('m tcp_state_scheme, int) prog" where
  "receive e sock =
     bindR (syscall_data e (Read sock 1024)) (\<lambda>(sz, d).
       if sz > int BUFFERSIZE then abort_with Undefined
       else bindR (modify (\<lambda>s. s\<lparr>buffer := overwrite 0 (take (nat sz) d) (buffer s)\<rparr>)) (\<lambda>_. ret sz))"

definition process_conn_server_body :: "env \<Rightarrow> int \<Rightarrow> ('m tcp_state_scheme, bool) prog" where
  "process_conn_server_body e sock =
     bindR (seqR [sysdo e (Usleep 1000), read_statfs e]) (\<lambda>_.
     ifR (\<lambda>s. f_type (sfs s) \<noteq> EXT3_SUPEP_MAGIC) (ret False)
       (bindR (seqR [disk_warning e, disk_state e]) (\<lambda>_.
        bindR (receive e sock) (\<lambda>sz.
          if sz = 0 then ret False else bindR (dispatch e sock) (\<lambda>_. ret True)))))"

text \<open>The first \<open>n\<close> iterations: whether the connection is still served after them.\<close>

fun process_conn_server :: "nat \<Rightarrow> env \<Rightarrow> int \<Rightarrow> ('m tcp_state_scheme, bool) prog" where
  "process_conn_server 0 e sock s = Ok True s"
| "process_conn_server (Suc n) e sock s =
     (case process_conn_server_body e sock s of
        Ok True t \<Rightarrow> process_conn_server n e sock t | r \<Rightarrow> r)"

text \<open>The initial values of the locals; \<open>sfs\<close> is indeterminate.\<close>

definition process_conn_enter :: "statfs_t \<Rightarrow> ('m tcp_state_scheme, unit) prog" where
  "process_conn_enter f = modify (\<lambda>s. s\<lparr>sfs := f, buffer := replicate BUFFERSIZE 0,
     start_record := 0, new_file := 0\<rparr>)"

section \<open>What operations leave alone\<close>

text \<open>An operation below the connection leaves its locals and globals alone.\<close>

lemma tcp_same:
  assumes "machine.more t = machine.more s"
  shows "sfs t = sfs s" "buffer t = buffer s" "start_record t = start_record s"
    "new_file t = new_file s" "fisk_warn t = fisk_warn s" "fisk_threshold t = fisk_threshold s"
    "path t = path s" "errno t = errno s"
  using assms by (cases s, cases t, simp)+

lemmas tcp_set_line [simp] = tcp_same [OF set_line_simps(2)]
lemmas tcp_bram_upd [simp] = tcp_same [OF bram_upd_simps(3)]
lemmas tcp_bram_put [simp] = tcp_same [OF bram_put_more]

text \<open>The frames sent to the client; a GPIO level has at most two bytes.\<close>

primrec frame_of :: "int \<Rightarrow> entry \<Rightarrow> bytes list" where
  "frame_of sock (Pair c rd) =
     (case c of Write f bs \<Rightarrow> if f = sock \<and> 2 < length bs then [bs] else [] | _ \<Rightarrow> [])"

definition frames :: "int \<Rightarrow> history \<Rightarrow> bytes list" where
  "frames sock h = concat (map (frame_of sock) h)"

text \<open>The answers to the reads of requests.\<close>

primrec request_of :: "int \<Rightarrow> entry \<Rightarrow> (int \<times> bytes) list" where
  "request_of sock (Pair c rd) = (case c of Read f n \<Rightarrow> if f = sock \<and> n = 1024 then [rd] else [] | _ \<Rightarrow> [])"

definition requests :: "int \<Rightarrow> history \<Rightarrow> (int \<times> bytes) list" where
  "requests sock h = concat (map (request_of sock) h)"

lemma frames_append [simp]: "frames sock (h @ h') = frames sock h @ frames sock h'"
  by (simp add: frames_def)

lemma frames_simps [simp]: "frames sock [] = []" "frames sock (x # h) = frame_of sock x @ frames sock h"
  by (simp_all add: frames_def)

lemma requests_append [simp]: "requests sock (h @ h') = requests sock h @ requests sock h'"
  by (simp add: requests_def)

lemma requests_simps [simp]:
  "requests sock [] = []" "requests sock (x # h) = request_of sock x @ requests sock h"
  by (simp_all add: requests_def)

lemma views_set_line [simp]:
  "frames sock (hist (set_line e p v s)) = frames sock (hist s)"
  "requests sock (hist (set_line e p v s)) = requests sock (hist s)"
  by (simp_all add: set_line_def Let_def level_bytes_def) (auto simp: min_def)

lemma views_bram_put [simp]:
  "frames sock (hist (bram_put w i vs s)) = frames sock (hist s)"
  "requests sock (hist (bram_put w i vs s)) = requests sock (hist s)"
  by (simp_all add: bram_put_hist frames_def requests_def o_def)

lemma wp_gpio_up [simp]: "gpio_up e \<Longrightarrow> wp (gpio_set e p v) Q A s = Q () (set_line e p v s)"
  by (simp add: wp_def gpio_set_up)

lemma wp_memcpy_to_bram [simp]:
  "wp (memcpy_to_bram e w i bs) Q A s = Q () (bram_put w i (pack_words (\<lambda>j. bram_word e w j s) i bs) s)"
  by (simp add: memcpy_to_bram_def)

lemma wp_memcpy_from_bram [simp]:
  "wp (memcpy_from_bram e w n) Q A s =
     Q (bram_bytes e w n s) (emit (BramCp w n) 0 (bram_bytes e w n s) s)"
  by (simp add: wp_def memcpy_from_bram_def)

lemma wp_set_buffer [simp]:
  "wp (set_buffer ws) Q A s = Q () (s\<lparr>buffer := poke ws (buffer s)\<rparr>)"
  by (simp add: set_buffer_def)

lemma wp_reply [simp]:
  "wp (reply e sock n) Q A s = (let c = Write sock (take n (buffer s)) in
     Q () (emit c (k_ret e (hist s) c) (k_data e (hist s) c) s))"
  by (simp add: reply_def Let_def)

text \<open>
  \<open>t\<close> comes from \<open>s\<close> by calls that neither reply, nor read a request, nor touch the BRAM.
\<close>

definition undisturbed :: "int \<Rightarrow> 'm tcp_state_scheme \<Rightarrow> 'm tcp_state_scheme \<Rightarrow> bool" where
  "undisturbed sock s t \<longleftrightarrow> (\<exists>h k. t = s\<lparr>hist := hist s @ h, errno := k\<rparr> \<and>
     frames sock h = [] \<and> requests sock h = [] \<and> stores h = [])"

lemma undisturbed_refl: "undisturbed sock s s"
  unfolding undisturbed_def by (rule exI [of _ "[]"], rule exI [of _ "errno s"]) (simp add: stores_Nil)

lemma undisturbed_emit:
  assumes "undisturbed sock s t" and "frame_of sock (c, r, d) = []" "request_of sock (c, r, d) = []"
    and "store_of (c, r, d) = []"
  shows "undisturbed sock s (emit c r d t)"
proof -
  from assms(1) obtain h k where h: "t = s\<lparr>hist := hist s @ h, errno := k\<rparr>"
      "frames sock h = []" "requests sock h = []" "stores h = []"
    by (auto simp: undisturbed_def)
  show ?thesis unfolding undisturbed_def
    by (rule exI [of _ "h @ [(c, r, d)]"], rule exI [of _ k])
      (use h assms(2-) in \<open>simp add: emit_def stores_append stores_Cons stores_Nil\<close>)
qed

lemma undisturbed_errno: "undisturbed sock s t \<Longrightarrow> undisturbed sock s (t\<lparr>errno := k\<rparr>)"
  unfolding undisturbed_def by (elim exE conjE, rule_tac x = h in exI, rule_tac x = k in exI) simp

lemma undisturbed_views:
  assumes "undisturbed sock s t"
  shows "frames sock (hist t) = frames sock (hist s)" "requests sock (hist t) = requests sock (hist s)"
    "stores (hist t) = stores (hist s)" "bram_ps t = bram_ps s" "buffer t = buffer s" "path t = path s"
    "sfs t = sfs s" "fisk_threshold t = fisk_threshold s"
  using assms by (auto simp: undisturbed_def stores_append)

lemma wp_lan_up:
  "undisturbed sock s u \<Longrightarrow> wp (lan_up e i) (\<lambda>_ t. undisturbed sock s t) A u"
  by (simp add: lan_up_def undisturbed_emit)

lemma wp_connect_check:
  "undisturbed sock s u \<Longrightarrow> wp (connect_check e) (\<lambda>_ t. undisturbed sock s t) A u"
  by (auto simp: connect_check_def intro!: wp_mono [OF wp_lan_up])

lemma wp_get_file_count:
  "undisturbed sock s u \<Longrightarrow> wp (get_file_count e p) (\<lambda>_ t. undisturbed sock s t) (\<lambda>_. True) u"
  "undisturbed sock s v \<Longrightarrow> wp (count_entries e p dir tot es) (\<lambda>_ t. undisturbed sock s t) (\<lambda>_. True) v"
proof (induction e p and e p dir tot es arbitrary: u and v
    rule: get_file_count_count_entries.induct)
  case (1 e root)
  then show ?case
    by (subst get_file_count.simps) (simp add: undisturbed_emit undisturbed_errno)
next
  case (2 e root dir tot)
  then show ?case
    by (subst count_entries.simps) (simp add: undisturbed_emit undisturbed_errno)
next
  case (3 e root dir tot d_name d_type es)
  let ?c = "Dir (Readdir dir)"
  let ?u = "emit ?c (k_ret e (hist v) ?c) (k_data e (hist v) ?c) v"
  have u: "undisturbed sock s ?u" using 3(6) by (simp add: undisturbed_emit)
  have sub: "wp (get_file_count e (root @ ''/'' @ d_name))
      (\<lambda>n. wp (count_entries e root dir (tot + n) es) (\<lambda>_. undisturbed sock s) (\<lambda>_. True)) (\<lambda>_. True) ?u"
    if "\<not> (d_name = ''.'' \<or> d_name = ''..'')" "d_type = DT_DIR"
      "\<not> 256 \<le> length (root @ ''/'' @ d_name)"
    by (rule wp_mono [OF 3(2) [OF that u]]) (rule 3(3) [OF that], assumption+)
  show ?case using 3(1,4,5) u sub by (subst count_entries.simps) simp
qed

section \<open>The state of the device\<close>

text \<open>
  What the recorder promises of word 25: three states, of which a full disk and a start or stop
  command select the next one.
\<close>

datatype work_state = Ready | Record | Diskfull

fun work_code :: "work_state \<Rightarrow> u64" where
  "work_code Ready = WORK_READY"
| "work_code Record = WORK_RECORD"
| "work_code Diskfull = WORK_DISKFULL"

definition work_view :: "u64 \<Rightarrow> work_state" where
  "work_view w = (if w = WORK_RECORD then Record else if w = WORK_DISKFULL then Diskfull else Ready)"

definition disk_next :: "bool \<Rightarrow> work_state \<Rightarrow> work_state" where
  "disk_next full w = (if full then Diskfull else if w = Record then Record else Ready)"

definition command_next :: "u8 \<Rightarrow> work_state \<Rightarrow> work_state" where
  "command_next c w = (if c = 3 \<and> w = Ready then Record else if c = 4 then Ready else w)"

lemma work_view_code [simp]: "work_view (work_code w) = w"
  by (cases w) (simp_all add: work_view_def work_words)

lemma work_view_words [simp]:
  "work_view WORK_READY = Ready" "work_view WORK_RECORD = Record" "work_view WORK_DISKFULL = Diskfull"
  by (simp_all add: work_view_def work_words)

lemma work_code_eqs [simp]:
  "work_code w = WORK_READY \<longleftrightarrow> w = Ready" "work_code w = WORK_RECORD \<longleftrightarrow> w = Record"
  "work_code w = WORK_DISKFULL \<longleftrightarrow> w = Diskfull"
  by (cases w; simp add: work_words)+

section \<open>Up to the request\<close>

text \<open>
  The effect of the disk check on the words of the PS half: a recording on a full disk is ended
  by closing the data source.
\<close>

definition disk_handled :: "bool \<Rightarrow> (nat \<Rightarrow> u64) \<Rightarrow> (nat \<Rightarrow> u64) \<Rightarrow> bool" where
  "disk_handled full m m' \<longleftrightarrow> m' 25 = work_code (disk_next full (work_view (m 25))) \<and>
     (if full \<and> m 25 = WORK_RECORD
      then m' 9 = 1 \<and> m' 18 = 0 \<and> m' 19 = 0 \<and> (\<forall>i. i \<notin> {9, 18, 19, 25} \<longrightarrow> m' i = m i)
      else \<forall>i. i \<noteq> 25 \<longrightarrow> m' i = m i)"

text \<open>What has happened when the request of an iteration, \<open>sz\<close> bytes \<open>d\<close>, has been read.\<close>

definition polled ::
  "int \<Rightarrow> 'm tcp_state_scheme \<Rightarrow> 'm tcp_state_scheme \<Rightarrow> int \<Rightarrow> bytes \<Rightarrow> bool" where
  "polled sock s u sz d \<longleftrightarrow> requests sock (hist u) = requests sock (hist s) @ [(sz, d)] \<and>
     frames sock (hist u) = frames sock (hist s) \<and>
     buffer u = overwrite 0 (take (nat sz) d) (buffer s) \<and> fisk_threshold u = fisk_threshold s \<and>
     disk_handled (available_size (sfs u) = 0) (bram_ps s) (bram_ps u)"

definition disk_checked :: "int \<Rightarrow> 'm tcp_state_scheme \<Rightarrow> 'm tcp_state_scheme \<Rightarrow> bool" where
  "disk_checked sock s t \<longleftrightarrow> requests sock (hist t) = requests sock (hist s) \<and>
     frames sock (hist t) = frames sock (hist s) \<and> sfs t = sfs s \<and> buffer t = buffer s \<and>
     fisk_threshold t = fisk_threshold s \<and>
     disk_handled (available_size (sfs s) = 0) (bram_ps s) (bram_ps t)"

lemma wp_disk_state: "gpio_up e \<Longrightarrow> wp (disk_state e) (\<lambda>_ t. disk_checked sock s t) A s"
  by (auto simp: disk_state_def enable_data_source_def disk_checked_def disk_handled_def
      disk_next_def work_view_def work_words)

lemma wp_disk:
  assumes "gpio_up e"
  shows "wp (seqR [disk_warning e, disk_state e]) (\<lambda>_ t. disk_checked sock s t) A s"
  using assms
  by (auto simp: disk_warning_def disk_checked_def intro!: wp_mono [OF wp_disk_state [where sock = sock]])

text \<open>What the kernel may answer when a request is read.\<close>

definition read_answer :: "env \<Rightarrow> int \<Rightarrow> int \<Rightarrow> bytes \<Rightarrow> bool" where
  "read_answer e sock sz d \<longleftrightarrow>
     (\<exists>h. sz = k_ret e h (Read sock 1024) \<and> d = k_data e h (Read sock 1024))"

text \<open>The share is mounted and can be queried.\<close>

definition share_ok :: "env \<Rightarrow> bool" where
  "share_ok e \<longleftrightarrow> (\<forall>h. k_ret e h (Statfs ''/smbshare'') = 0 \<and> f_type (k_statfs e h) = EXT3_SUPEP_MAGIC)"

lemma read_answerI: "read_answer e sock (k_ret e h (Read sock 1024)) (k_data e h (Read sock 1024))"
  by (auto simp: read_answer_def)

lemma read_answer_end: "k_ret e h (Read sock 1024) = 0 \<Longrightarrow> \<exists>d. read_answer e sock 0 d"
  using read_answerI [of e sock h] by auto

lemma wp_body:
  fixes s :: "'a tcp_state_scheme"
  assumes up: "gpio_up e"
    and serve: "\<And>u sz d. polled sock s u sz d \<Longrightarrow> read_answer e sock sz d \<Longrightarrow> sz \<le> 300 \<Longrightarrow>
      share_ok e \<longrightarrow> (\<exists>h. sfs u = k_statfs e h) \<Longrightarrow> wp (dispatch e sock) (\<lambda>_. Q True) A u"
    and stop: "\<And>t. \<not> share_ok e \<or> (\<exists>d. read_answer e sock 0 d) \<Longrightarrow> Q False t" and fit: "\<And>sz d. read_answer e sock sz d \<Longrightarrow> 300 < sz \<Longrightarrow> A Undefined"
  shows "wp (process_conn_server_body e sock) Q A s"
proof -
  have ok: "wp (ret True) Q A = Q True" by (rule ext) simp
  have closed: "k_ret e h (Read sock 1024) = 0 \<Longrightarrow> Q False t" for h t
    using stop read_answer_end by blast
  define m :: "('a tcp_state_scheme, bool) prog" where "m = bindR (seqR [disk_warning e, disk_state e]) (\<lambda>_.
      bindR (receive e sock) (\<lambda>sz. if sz = 0 then ret False
        else bindR (dispatch e sock) (\<lambda>_. ret True)))"
  have rest: "wp m Q A u"
    if "requests sock (hist u) = requests sock (hist s)" "frames sock (hist u) = frames sock (hist s)"
      "buffer u = buffer s" "fisk_threshold u = fisk_threshold s" "bram_ps u = bram_ps s"
      "share_ok e \<longrightarrow> (\<exists>h. sfs u = k_statfs e h)"
    for u
    unfolding m_def wp_bindR
    by (rule wp_mono [OF wp_disk [OF up, where sock = sock]])
      (use that stop fit [OF read_answerI] in \<open>auto simp: disk_checked_def receive_def BUFFERSIZE_def
        polled_def ok intro!: serve read_answerI intro: closed\<close>)
  show ?thesis using stop
    by (auto simp: share_ok_def process_conn_server_body_def read_statfs_def m_def [symmetric] intro!: rest)
qed

section \<open>Serving a request\<close>

text \<open>The frame that answers command \<open>c\<close>.\<close>

definition framed :: "u8 \<Rightarrow> bytes \<Rightarrow> bool" where
  "framed c f \<longleftrightarrow> length f = (if c = 0x10 then 266 else 32) \<and> f ! 0 = 0x7e \<and> f ! 1 = 0x7e \<and> f ! 2 = 0 \<and>
     f ! 3 = 0x20 + c \<and> f ! (length f - 2) = 0xfd \<and> f ! (length f - 1) = 0xfd"

definition served :: "int \<Rightarrow> u8 \<Rightarrow> 'm tcp_state_scheme \<Rightarrow> 'm tcp_state_scheme \<Rightarrow> bool" where
  "served sock c s t \<longleftrightarrow> requests sock (hist t) = requests sock (hist s) \<and>
     length (buffer t) = 300 \<and> sfs t = sfs s \<and>
     (\<exists>f. framed c f \<and> frames sock (hist t) = frames sock (hist s) @ [f]) \<and>
     bram_ps t 25 = work_code (command_next c (work_view (bram_ps s 25)))"

definition ready_for :: "u8 \<Rightarrow> 'm tcp_state_scheme \<Rightarrow> bool" where
  "ready_for c s \<longleftrightarrow> length (buffer s) = 300 \<and> buffer s ! 3 = c \<and> (\<exists>w. bram_ps s 25 = work_code w)"

lemmas served_defs = served_def framed_def ready_for_def ack_head_def plain_ack_def ACK_SIZE_def
  command_next_def

lemma wp_get_status:
  "ready_for 1 s \<Longrightarrow> wp (cmd_get_status e sock) (\<lambda>_ t. served sock 1 s t) A s"
  by (auto simp: cmd_get_status_def served_defs poke_segment nth_overwrite length_overwrite Let_def)

lemma wp_set_system_clock [simp]:
  "wp (set_system_clock e b) Q A s = wp (set_datetime e (uint (b ! 5)) (uint (b ! 7)) (uint (b ! 9))
     (uint (b ! 11)) (uint (b ! 13)) (uint (b ! 15))) Q A s"
  by (simp add: set_system_clock_def)

definition stopped :: "'m tcp_state_scheme \<Rightarrow> 'm tcp_state_scheme \<Rightarrow> bool" where
  "stopped s t \<longleftrightarrow> (\<forall>i. bram_ps t i =
     (if i \<in> {9, 22, 23, 24, 25} then 1 else if i \<in> {18, 19, 20, 21} then 0 else bram_ps s i))"

lemma wp_set_stop:
  "gpio_up e \<Longrightarrow> ready_for 4 s \<Longrightarrow>
   wp (cmd_set_stop e sock) (\<lambda>_ t. served sock 4 s t \<and> stopped s t) A s"
  by (auto simp: cmd_set_stop_def served_defs stopped_def enable_data_source_def WORK_READY_def Let_def)

lemma wp_set_rtc:
  "ready_for 5 s \<Longrightarrow> wp (cmd_set_rtc e sock) (\<lambda>_ t. served sock 5 s t) A s"
  by (auto simp: cmd_set_rtc_def served_defs set_pl_clock_def set_datetime_def Let_def bram_put_ps
      time_buffer_def)

lemma wp_get_rtc:
  "ready_for 6 s \<Longrightarrow> wp (cmd_get_rtc e sock) (\<lambda>_ t. served sock 6 s t) A s"
  by (auto simp: cmd_get_rtc_def served_defs Let_def)

lemma wp_choose_source:
  "gpio_up e \<Longrightarrow> ready_for 7 s \<Longrightarrow> wp (cmd_choose_source e sock) (\<lambda>_ t. served sock 7 s t) A s"
  by (auto simp: cmd_choose_source_def served_defs select_data_source_def Let_def)

lemma wp_threshold:
  "ready_for 8 s \<Longrightarrow> wp (cmd_threshold e sock) (\<lambda>_ t. served sock 8 s t) A s"
  by (auto simp: cmd_threshold_def served_defs Let_def)

lemma wp_get_volt_temp:
  "ready_for 2 s \<Longrightarrow> wp (cmd_get_volt_temp e sock) (\<lambda>_ t. served sock 2 s t) A s"
  unfolding cmd_get_volt_temp_def wp_bindR wp_memcpy_from_bram
  by (rule wp_mono [OF wp_connect_check [where sock = sock and s = s]])
    (auto simp: undisturbed_emit undisturbed_refl undisturbed_views served_defs be32_def Let_def)

lemma wp_version:
  "ready_for 9 s \<Longrightarrow> wp (cmd_version e sock) (\<lambda>_ t. served sock 9 s t) A s"
  unfolding cmd_version_def wp_bindR wp_memcpy_from_bram
  by (rule wp_mono [OF wp_connect_check [where sock = sock and s = s]])
    (auto simp: undisturbed_emit undisturbed_refl undisturbed_views served_defs poke_segment
      nth_overwrite length_overwrite bram_bytes_def BRAM_SIZE_RECIVE_def Let_def simp del: upt_Suc)

lemma wp_file_info:
  assumes "ready_for 0x10 s"
  shows "wp (cmd_file_info e sock) (\<lambda>_ t. served sock 0x10 s t) (\<lambda>_. True) s"
proof -
  let ?s = "s\<lparr>path := take 256 (drop 18 (buffer s))\<rparr>"
  show ?thesis
    using assms
    by (auto simp: cmd_file_info_def undisturbed_views served_defs poke_segment nth_overwrite
        length_overwrite Let_def intro!: wp_mono [OF wp_get_file_count(1) [OF undisturbed_refl [of sock ?s]]])
qed

section \<open>Starting a recording\<close>

text \<open>Events that set no GPIO line.\<close>

primrec lineless :: "event \<Rightarrow> bool" where
  "lineless (Open p f m) = False"
| "lineless (Close f) = False"
| "lineless (Read f n) = True"
| "lineless (Write f b) = False"
| "lineless (Lseek f n w) = True"
| "lineless (Ftruncate f n) = True"
| "lineless (Ioctl f q off) = True"
| "lineless (Remove p) = True"
| "lineless (Access p m) = True"
| "lineless (Mkdir p m) = True"
| "lineless (Chmod p m) = True"
| "lineless (Statfs p) = True"
| "lineless (Usleep n) = True"
| "lineless (BramLd w i) = True"
| "lineless (BramSt w i v) = True"
| "lineless (BramCp w n) = True"
| "lineless (Mem x1) = True"
| "lineless (Dir x2) = True"
| "lineless (Tty x3) = True"
| "lineless (Net x4) = True"
| "lineless (Time x5) = True"

lemma attr_lineless: "lineless c \<Longrightarrow> attr (h @ [(c, x)]) = attr h"
  by (cases "sysfs h"; cases x; cases c) (simp_all add: attr_def sysfs_snoc)

lemma line_level_emit: "lineless c \<Longrightarrow> line_level (emit c r d s) = line_level s"
  by (simp add: line_level_def attr_lineless fun_eq_iff)

lemma line_level_fields [simp]:
  "line_level (s\<lparr>start_record := v, new_file := w\<rparr>) = line_level s"
  by (simp add: line_level_def fun_eq_iff)

lemma line_level_bram_upd [simp]: "line_level (bram_upd w i v s) = line_level s"
  by (simp add: line_level_def attr_lineless fun_eq_iff)

lemma line_level_bram_put [simp]: "line_level (bram_put w i vs s) = line_level s"
  by (induction w i vs s rule: bram_put.induct) simp_all

lemma line_level_gpio_up:
  "gpio_up e \<Longrightarrow> line_level (set_line e p v s) = (line_level s)(p \<mapsto> level_bytes v)"
  by (simp add: line_level_set_line gpio_up_def)

text \<open>Word 0 holds the time of request \<open>b\<close>.\<close>

definition clocked :: "bytes \<Rightarrow> 'm machine_scheme \<Rightarrow> bool" where
  "clocked b t \<longleftrightarrow> (\<forall>k<8. byte_at (bram_ps t 0) k = time_buffer (my_time b) ! k)"

definition started :: "bytes \<Rightarrow> 'm tcp_state_scheme \<Rightarrow> bool" where
  "started b t \<longleftrightarrow> clocked b t \<and> bram_ps t 25 = WORK_RECORD \<and> bram_ps t 18 = 1 \<and> bram_ps t 19 = 1 \<and>
     (\<forall>i \<in> {20, 22, 23, 24}. bram_ps t i = 0) \<and>
     bram_ps t 12 = ucast (to_bcd (b ! 15)) \<and> bram_ps t 13 = ucast (to_bcd (b ! 13)) \<and>
     bram_ps t 14 = ucast (to_bcd (b ! 11)) \<and> bram_ps t 15 = ucast (to_bcd (b ! 9)) \<and>
     bram_ps t 16 = ucast (to_bcd (b ! 7)) \<and> bram_ps t 17 = ucast (to_bcd (b ! 5)) \<and>
     map (\<lambda>k. ps_byte (bram_ps t) (240 + k)) [0..<256] = take 256 (drop 18 b)"

lemma started_frame: "started b t \<Longrightarrow> bram_ps u = bram_ps t \<Longrightarrow> started b u"
  by (simp add: started_def clocked_def)

text \<open>\<open>t\<close> comes from \<open>s\<close> by setting GPIO lines.\<close>

definition lines_only :: "int \<Rightarrow> 'm machine_scheme \<Rightarrow> 'm machine_scheme \<Rightarrow> bool" where
  "lines_only sock s t \<longleftrightarrow> bram_ps t = bram_ps s \<and> machine.more t = machine.more s \<and>
     frames sock (hist t) = frames sock (hist s) \<and> requests sock (hist t) = requests sock (hist s)"

lemma lines_onlyD:
  "lines_only sock s t \<Longrightarrow> bram_ps t = bram_ps s \<and> buffer t = buffer s \<and> sfs t = sfs s \<and>
    frames sock (hist t) = frames sock (hist s) \<and> requests sock (hist t) = requests sock (hist s)"
  using tcp_same [of t s] by (simp add: lines_only_def)

lemma wp_reset_pl: "gpio_up e \<Longrightarrow> wp (reset_pl e) (\<lambda>_ t. lines_only sock s t) A s"
  by (simp add: reset_pl_def lines_only_def)

definition parametrised :: "int \<Rightarrow> bytes \<Rightarrow> 'm machine_scheme \<Rightarrow> 'm machine_scheme \<Rightarrow> bool" where
  "parametrised sock b s t \<longleftrightarrow> machine.more t = machine.more s \<and>
     frames sock (hist t) = frames sock (hist s) \<and> requests sock (hist t) = requests sock (hist s) \<and>
     line_level t = line_level s \<and>
     (\<forall>i. i \<notin> {0, 1} \<union> {12..<18} \<union> {30..<62} \<longrightarrow> bram_ps t i = bram_ps s i) \<and>
     bram_ps t 12 = ucast (to_bcd (b ! 15)) \<and> bram_ps t 13 = ucast (to_bcd (b ! 13)) \<and>
     bram_ps t 14 = ucast (to_bcd (b ! 11)) \<and> bram_ps t 15 = ucast (to_bcd (b ! 9)) \<and>
     bram_ps t 16 = ucast (to_bcd (b ! 7)) \<and> bram_ps t 17 = ucast (to_bcd (b ! 5)) \<and>
     map (\<lambda>k. ps_byte (bram_ps t) (240 + k)) [0..<256] = take 256 (drop 18 b)"

text \<open>\<open>t\<close> comes from \<open>s\<close> by copying \<open>bs\<close> to the words from \<open>i\<close> on.\<close>

definition copied :: "int \<Rightarrow> nat \<Rightarrow> bytes \<Rightarrow> 'm machine_scheme \<Rightarrow> 'm machine_scheme \<Rightarrow> bool" where
  "copied sock i bs s t \<longleftrightarrow> machine.more t = machine.more s \<and>
     frames sock (hist t) = frames sock (hist s) \<and> requests sock (hist t) = requests sock (hist s) \<and>
     line_level t = line_level s \<and>
     (\<forall>k. k < i \<or> i + (length bs + 7) div 8 \<le> k \<longrightarrow> bram_ps t k = bram_ps s k) \<and>
     map (\<lambda>k. ps_byte (bram_ps t) (8 * i + k)) [0..<length bs] = bs"

lemma wp_memcpy_copied:
  assumes "i + (length bs + 7) div 8 \<le> 512"
  shows "wp (memcpy_to_bram e 1 i bs) (\<lambda>_ t. copied sock i bs s t) A s"
proof -
  let ?t = "bram_put 1 i (pack_words (\<lambda>j. bram_word e 1 j s) i bs) s"
  have "map (\<lambda>k. ps_byte (bram_ps ?t) (8 * i + k)) [0..<length bs] = bs"
    using assms by (intro nth_equalityI) (simp_all add: ps_byte_memcpy)
  then show ?thesis using assms by (simp add: copied_def bram_put_ps)
qed

lemma ps_bytes_cong:
  "(\<And>i. 30 \<le> i \<Longrightarrow> i < 62 \<Longrightarrow> m i = m' i) \<Longrightarrow>
   map (\<lambda>k. ps_byte m (240 + k)) [0..<256] = map (\<lambda>k. ps_byte m' (240 + k)) [0..<256]"
  by (auto simp: ps_byte_def)

lemma wp_set_pl_clock:
  assumes "length tb = 8"
  shows "wp (set_pl_clock e us tb) (\<lambda>_ t. machine.more t = machine.more s \<and>
     frames sock (hist t) = frames sock (hist s) \<and> requests sock (hist t) = requests sock (hist s) \<and>
     line_level t = line_level s \<and> (\<forall>i. 2 \<le> i \<longrightarrow> bram_ps t i = bram_ps s i)) A s"
  unfolding set_pl_clock_def wp_statement wp_bram
  by (rule wp_mono [OF wp_memcpy_copied [where sock = sock]])
    (use assms in \<open>auto simp: copied_def line_level_emit\<close>)

lemma wp_set_pl_clock_word:
  assumes "length tb = 8"
  shows "wp (set_pl_clock e us tb) (\<lambda>_ t. \<forall>k<8. byte_at (bram_ps t 0) k = tb ! k) A s"
proof -
  have "byte_at (bram_ps u 0) k = tb ! k" if "copied sock 0 tb v u" "k < 8" for u v sock k
  proof -
    have "map (\<lambda>k. ps_byte (bram_ps u) k) [0..<8] ! k = tb ! k"
      using that(1) assms by (simp add: copied_def del: upt_Suc)
    with that(2) show ?thesis by (simp add: ps_byte_def del: upt_Suc)
  qed
  then show ?thesis
    unfolding set_pl_clock_def wp_statement wp_bram using assms
    by (intro wp_mono [OF wp_memcpy_copied [where sock = 0]]) auto
qed

lemma wp_start_parameters:
  assumes "length b = 300"
  shows "wp (start_parameters e b) (\<lambda>_ t. parametrised sock b s t \<and> clocked b t) A s"
proof -
  have clock: "wp (set_pl_clock e 10 (time_buffer (my_time b)))
      (\<lambda>_ t. parametrised sock b s t \<and> clocked b t) A u" if "parametrised sock b s u" for u
  proof -
    have tb: "length (time_buffer (my_time b)) = 8" by (simp add: time_buffer_def)
    show ?thesis
      by (rule wp_mono [OF wp_conj [OF wp_set_pl_clock [OF tb, where sock = sock]
          wp_set_pl_clock_word [OF tb]]])
        (use that in \<open>auto simp: clocked_def parametrised_def cong: ps_bytes_cong\<close>)
  qed
  have sys: "wp (set_system_clock e b) (\<lambda>_ t. parametrised sock b s t) A u"
    if "parametrised sock b s u" for u
    using that by (simp add: set_datetime_def parametrised_def line_level_emit)
  have "parametrised sock b s u" if "copied sock 30 (take 256 (drop 18 b))
      (bram_upd 1 17 (ucast (TIME_year (my_time b))) (bram_upd 1 16 (ucast (TIME_mon (my_time b)))
      (bram_upd 1 15 (ucast (TIME_day (my_time b))) (bram_upd 1 14 (ucast (TIME_hour (my_time b)))
      (bram_upd 1 13 (ucast (TIME_min (my_time b))) (bram_upd 1 12 (ucast (TIME_sec (my_time b))) s)))))) u"
    for u
    using that assms
    by (simp add: copied_def parametrised_def my_time_def)
      (intro allI impI, rename_tac i, case_tac "i < 30", auto)
  moreover have "wp (seqR [set_system_clock e b, set_pl_clock e 10 (time_buffer (my_time b))])
      (\<lambda>_ t. parametrised sock b s t \<and> clocked b t) A u" if "parametrised sock b s u" for u
    unfolding wp_statement(3,4)
    by (rule wp_mono [OF sys [OF that]], rule wp_mono [OF clock], assumption)
  ultimately show ?thesis using assms
    unfolding start_parameters_def Let_def
    by (simp only: wp_statement(4) wp_bram)
      (rule wp_mono [OF wp_memcpy_copied [where sock = sock]], simp_all only: wp_statement(3,4), auto)
qed

lemma wp_start_recording:
  assumes "gpio_up e" and "length (buffer s) = 300"
  shows "wp (start_recording e) (\<lambda>_ t. started (buffer s) t \<and> buffer t = buffer s \<and> sfs t = sfs s \<and>
    frames sock (hist t) = frames sock (hist s) \<and> requests sock (hist t) = requests sock (hist s) \<and>
    line_level t 0 = Some (level_bytes 1) \<and> line_level t 64 = Some (level_bytes 0)) A s"
    (is "wp _ ?Q _ _")
proof -
  have tail: "wp (seqR [bindR (gets start_record) (\<lambda>v. bram_st 1 18 (ucast v)),
      bindR (gets new_file) (\<lambda>v. bram_st 1 19 (ucast v)), enable_data_source e 1]) ?Q A u"
    if "parametrised sock (buffer s) v u \<and> clocked (buffer s) u" "buffer v = buffer s" "sfs v = sfs s" "start_record v = 1"
      "new_file v = 1" "bram_ps v 25 = WORK_RECORD" "\<forall>i \<in> {20, 22, 23, 24}. bram_ps v i = 0"
      "frames sock (hist v) = frames sock (hist s)" "requests sock (hist v) = requests sock (hist s)"
      "line_level v 64 = Some (level_bytes 0)" for u v
  proof -
    have "map (\<lambda>k. ps_byte ((bram_ps u)(18 := 1, 19 := 1)) (240 + k)) [0..<256]
        = map (\<lambda>k. ps_byte (bram_ps u) (240 + k)) [0..<256]"
      by (rule ps_bytes_cong) simp
    also have "\<dots> = take 256 (drop 18 (buffer s))" using that(1) by (simp add: parametrised_def)
    finally have "map (\<lambda>k. ps_byte ((bram_ps u)(18 := 1, 19 := 1)) (240 + k)) [0..<256]
        = take 256 (drop 18 (buffer s))" .
    moreover have "sfs u = sfs s" "buffer u = buffer s" "start_record u = 1" "new_file u = 1"
      using that tcp_same [of u v] by (simp_all add: parametrised_def)
    ultimately show ?thesis
      using that assms(1)
      by (simp add: parametrised_def enable_data_source_def line_level_gpio_up started_def clocked_def
          del: upt_Suc)
  qed
  have mid: "wp (start_parameters e (buffer v)) (\<lambda>_. wp (seqR
      [bindR (gets start_record) (\<lambda>v. bram_st 1 18 (ucast v)),
       bindR (gets new_file) (\<lambda>v. bram_st 1 19 (ucast v)), enable_data_source e 1]) ?Q A) A v"
    if "buffer v = buffer s" "sfs v = sfs s" "start_record v = 1"
      "new_file v = 1" "bram_ps v 25 = WORK_RECORD" "\<forall>i \<in> {20, 22, 23, 24}. bram_ps v i = 0"
      "frames sock (hist v) = frames sock (hist s)" "requests sock (hist v) = requests sock (hist s)"
      "line_level v 64 = Some (level_bytes 0)" for v
  proof (rule wp_mono [OF wp_start_parameters [where sock = sock]])
    show "length (buffer v) = 300" using that(1) assms(2) by simp
    fix t assume "parametrised sock (buffer v) v t \<and> clocked (buffer v) t"
    then have "parametrised sock (buffer s) v t \<and> clocked (buffer s) t" using that(1) by simp
    from tail [OF this that] show "wp (seqR
      [bindR (gets start_record) (\<lambda>v. bram_st 1 18 (ucast v)),
       bindR (gets new_file) (\<lambda>v. bram_st 1 19 (ucast v)), enable_data_source e 1]) ?Q A t" .
  qed
  have rest: "wp (seqR [bram_st 1 20 0, bram_st 1 22 0, bram_st 1 23 0, bram_st 1 24 0,
      gpio_set e 64 0, modify (\<lambda>s. s\<lparr>start_record := 1, new_file := 1\<rparr>),
      bindR (gets buffer) (start_parameters e),
      bindR (gets start_record) (\<lambda>v. bram_st 1 18 (ucast v)),
      bindR (gets new_file) (\<lambda>v. bram_st 1 19 (ucast v)), enable_data_source e 1]) ?Q A t"
    if "lines_only sock (bram_upd 1 25 WORK_RECORD s) t" for t
  proof -
    let ?v = "(set_line e 64 0 (bram_upd 1 24 0 (bram_upd 1 23 0 (bram_upd 1 22 0 (bram_upd 1 20 0 t)))))
        \<lparr>start_record := 1, new_file := 1\<rparr>"
    have "wp (start_parameters e (buffer ?v)) (\<lambda>_. wp (seqR
      [bindR (gets start_record) (\<lambda>v. bram_st 1 18 (ucast v)),
       bindR (gets new_file) (\<lambda>v. bram_st 1 19 (ucast v)), enable_data_source e 1]) ?Q A) A ?v"
      by (rule mid) (use lines_onlyD [OF that] assms(1) in \<open>auto simp: line_level_gpio_up\<close>)
    then show ?thesis using assms(1)
      by (simp only: wp_statement wp_bindR wp_value wp_bram wp_gpio_up)
  qed
  show ?thesis
    unfolding start_recording_def wp_statement(4) [of "bram_st 1 25 WORK_RECORD"]
      wp_statement(4) [of "reset_pl e"] wp_bram
    by (rule wp_mono [OF wp_reset_pl [OF assms(1), where sock = sock]]) (rule rest)
qed

text \<open>A start command records when the device is ready and otherwise only answers.\<close>

definition start_done :: "'m tcp_state_scheme \<Rightarrow> 'm tcp_state_scheme \<Rightarrow> bool" where
  "start_done s t \<longleftrightarrow> (if bram_ps s 25 = WORK_READY then started (buffer s) t
     else bram_ps t = bram_ps s \<and> stores (hist t) = stores (hist s))"

lemma wp_set_start:
  assumes "gpio_up e" and "ready_for 3 s"
  shows "wp (cmd_set_start e sock) (\<lambda>_ t. served sock 3 s t \<and> start_done s t) A s"
proof (cases "bram_ps s 25 = WORK_READY")
  case True
  have ack: "wp (plain_ack e sock 0x23 0xcc) (\<lambda>_ t. served sock 3 s t \<and> started (buffer s) t) A u"
    if "started (buffer s) u" "buffer u = buffer s" "sfs u = sfs s"
      "frames sock (hist u) = frames sock (hist s)" "requests sock (hist u) = requests sock (hist s)" for u
    using that assms(2) True
    by (auto simp: served_defs Let_def started_def clocked_def)
  show ?thesis using True assms
    by (simp add: cmd_set_start_def start_done_def)
      (rule wp_mono [OF wp_start_recording [where sock = sock]], auto simp: ready_for_def intro!: ack)
next
  case False
  with assms(2) show ?thesis
    by (auto simp: cmd_set_start_def start_done_def served_defs Let_def stores_append stores_Cons
        stores_Nil)
qed

definition commands :: "u8 set" where
  "commands = {1, 2, 3, 4, 5, 6, 7, 8, 9, 0x10}"

definition dispatched :: "int \<Rightarrow> 'm tcp_state_scheme \<Rightarrow> 'm tcp_state_scheme \<Rightarrow> bool" where
  "dispatched sock s t \<longleftrightarrow> (if buffer s ! 3 \<in> commands then served sock (buffer s ! 3) s t else t = s) \<and>
     (buffer s ! 3 = 3 \<longrightarrow> start_done s t) \<and> (buffer s ! 3 = 4 \<longrightarrow> stopped s t)"

lemma wp_dispatch:
  assumes "gpio_up e" and "length (buffer s) = 300" and "bram_ps s 25 = work_code w"
    and "buffer s ! 3 = 0x10 \<longrightarrow> A = (\<lambda>_. True)"
  shows "wp (dispatch e sock) (\<lambda>_ t. dispatched sock s t) A s"
proof -
  have r: "ready_for (buffer s ! 3) s" using assms(2,3) by (auto simp: ready_for_def)
  consider "buffer s ! 3 = 1" | "buffer s ! 3 = 2" | "buffer s ! 3 = 3" | "buffer s ! 3 = 4"
    | "buffer s ! 3 = 5" | "buffer s ! 3 = 6" | "buffer s ! 3 = 7" | "buffer s ! 3 = 8"
    | "buffer s ! 3 = 9" | "buffer s ! 3 = 0x10" | "buffer s ! 3 \<notin> commands"
    by (auto simp: commands_def)
  then show ?thesis
    by cases (use r assms(1,4) in \<open>auto simp: dispatch_def dispatched_def commands_def
      intro: wp_get_status wp_get_volt_temp wp_set_start wp_set_stop wp_set_rtc wp_get_rtc
        wp_choose_source wp_threshold wp_version wp_file_info\<close>)
qed

section \<open>An iteration\<close>

definition iterated ::
  "int \<Rightarrow> 'm tcp_state_scheme \<Rightarrow> 'm tcp_state_scheme \<Rightarrow> int \<Rightarrow> bytes \<Rightarrow> bool" where
  "iterated sock s t sz d \<longleftrightarrow> (\<exists>u. polled sock s u sz d \<and> length (buffer u) = 300 \<and>
     dispatched sock u t \<and> sfs t = sfs u \<and> requests sock (hist t) = requests sock (hist u) \<and>
     length (buffer t) = 300)"

lemma wp_body_iterated:
  assumes "gpio_up e" and "length (buffer s) = 300"
    and fit: "\<And>sz d. read_answer e sock sz d \<Longrightarrow>
      300 < sz \<or> overwrite 0 (take (nat sz) d) (buffer s) ! 3 = 0x10 \<Longrightarrow> A = (\<lambda>_. True)"
  shows "wp (process_conn_server_body e sock) (\<lambda>ok t. (ok \<longrightarrow> (\<exists>sz d. iterated sock s t sz d \<and>
    read_answer e sock sz d) \<and> (share_ok e \<longrightarrow> (\<exists>h. sfs t = k_statfs e h))) \<and> (share_ok e \<and> (\<forall>d. \<not> read_answer e sock 0 d) \<longrightarrow> ok)) A s"
proof (rule wp_body [OF assms(1)])
  fix u sz d
  assume p: "polled sock s u sz d" and r: "read_answer e sock sz d" and "sz \<le> (300 :: int)"
    and h: "share_ok e \<longrightarrow> (\<exists>h. sfs u = k_statfs e h)"
  then have len: "length (buffer u) = 300" using assms(2)
    by (simp add: polled_def length_overwrite)
  moreover have "\<exists>w. bram_ps u 25 = work_code w" using p by (auto simp: polled_def disk_handled_def)
  moreover have "buffer u ! 3 = 0x10 \<longrightarrow> A = (\<lambda>_. True)" using p fit [OF r] by (simp add: polled_def)
  ultimately obtain w where "wp (dispatch e sock) (\<lambda>_ t. dispatched sock u t) A u"
    using wp_dispatch [OF assms(1)] by blast
  then show "wp (dispatch e sock) (\<lambda>_ t. (True \<longrightarrow> (\<exists>sz d. iterated sock s t sz d \<and>
      read_answer e sock sz d) \<and> (share_ok e \<longrightarrow> (\<exists>h. sfs t = k_statfs e h))) \<and> (share_ok e \<and> (\<forall>d. \<not> read_answer e sock 0 d) \<longrightarrow> True)) A u"
    by (rule wp_mono)
      (use p len r h in \<open>auto simp: iterated_def dispatched_def served_def split: if_splits\<close>)
next
  fix sz d assume "read_answer e sock sz d" "300 < (sz :: int)"
  with fit have "A = (\<lambda>_. True)" by blast
  then show "A Undefined" by simp
qed blast

lemma body_iterated:
  assumes "gpio_up e" and "length (buffer s) = 300" and "process_conn_server_body e sock s = Ok True t"
  obtains sz d where "iterated sock s t sz d"
  using wp_Ok [OF wp_body_iterated [where A = "\<lambda>_. True", OF assms(1,2)] assms(3)] by blast

text \<open>The request that was read determines the iteration.\<close>

lemma body_request:
  assumes "gpio_up e" and "length (buffer s) = 300" and "process_conn_server_body e sock s = Ok True t"
    and "requests sock (hist t) = requests sock (hist s) @ [(sz, d)]"
  shows "iterated sock s t sz d"
proof -
  obtain sz' d' where i: "iterated sock s t sz' d'" by (rule body_iterated [OF assms(1,2,3)])
  then have "requests sock (hist t) = requests sock (hist s) @ [(sz', d')]"
    by (auto simp: iterated_def polled_def)
  with assms(4) i show ?thesis by simp
qed

section \<open>The steps of an iteration\<close>

text \<open>What an iteration does before it reads the request, and the iteration split there.\<close>

definition before_request :: "env \<Rightarrow> ('m tcp_state_scheme, unit) prog" where
  "before_request e = seqR [sysdo e (Usleep 1000), read_statfs e, disk_warning e, disk_state e]"

lemma wp_before_request:
  assumes "gpio_up e"
  shows "wp (before_request e) (\<lambda>_ u. requests sock (hist u) = requests sock (hist s) \<and>
     buffer u = buffer s \<and> disk_handled (available_size (sfs u) = 0) (bram_ps s) (bram_ps u)) A s"
proof -
  have rest: "wp (seqR [disk_warning e, disk_state e]) (\<lambda>_ u. requests sock (hist u) = requests sock (hist s) \<and>
     buffer u = buffer s \<and> disk_handled (available_size (sfs u) = 0) (bram_ps s) (bram_ps u)) A v"
    if "requests sock (hist v) = requests sock (hist s)" "buffer v = buffer s" "bram_ps v = bram_ps s" for v
    by (rule wp_mono [OF wp_disk [OF assms, where sock = sock]]) (use that in \<open>auto simp: disk_checked_def\<close>)
  show ?thesis by (auto simp: before_request_def read_statfs_def intro!: rest [simplified])
qed

lemma body_steps:
  assumes "process_conn_server_body e sock s = Ok True t"
  shows "\<exists>u sz v. before_request e s = Ok () u \<and> receive e sock u = Ok sz v \<and> sz \<noteq> 0 \<and>
    dispatch e sock v = Ok () t"
  using assms
  by (auto simp: process_conn_server_body_def before_request_def bindR_def ifR_def ret_def
      split: result.splits if_splits)

lemma receive_Ok:
  assumes "receive e sock u = Ok sz v"
  shows "\<exists>d. v = (emit (Read sock 1024) sz d u)\<lparr>buffer := overwrite 0 (take (nat sz) d) (buffer u)\<rparr> \<and> sz \<le> 300"
  using assms
  by (auto simp: receive_def run_simps ops BUFFERSIZE_def split: if_splits)

lemma plain_ack_Ok:
  assumes "plain_ack e sock code m v = Ok () t"
  shows "\<exists>r x. hist t = hist v @ [(Write sock (take 32 (buffer t)), r, x)] \<and>
    t = v\<lparr>hist := hist t, buffer := buffer t\<rparr>"
  using assms
  by (auto simp: plain_ack_def reply_def set_buffer_def run_simps ops emit_def ACK_SIZE_def)

section \<open>A concrete client\<close>

text \<open>A client that sends \<open>msg\<close> whenever a request is read.\<close>

definition env_msg :: "bytes \<Rightarrow> env" where
  "env_msg msg = env0\<lparr>
     k_ret := (\<lambda>h c. case c of
        Read f n \<Rightarrow> if n = 1024 then int (length msg) else int n | _ \<Rightarrow> ret0 h c),
     k_data := (\<lambda>h c. case c of
        Read f n \<Rightarrow> if n = 1024 then msg else data0 h c | _ \<Rightarrow> data0 h c)\<rparr>"

text \<open>A request of 274 bytes with command \<open>c\<close>.\<close>

definition request :: "u8 \<Rightarrow> bytes" where
  "request c = (replicate 274 0)[3 := c]"

lemma length_request [simp]: "length (request c) = 274"
  by (simp add: request_def)

lemma gpio_up_msg: "gpio_up (env_msg msg)"
  by (simp add: gpio_up_def env_msg_def)

lemma share_ok_msg: "share_ok (env_msg msg)"
  by (simp add: share_ok_def env_msg_def env0_def ret0_def EXT3_SUPEP_MAGIC_def)

lemma read_answer_msg: "read_answer (env_msg msg) sock sz d \<longleftrightarrow> sz = int (length msg) \<and> d = msg"
  by (simp add: read_answer_def env_msg_def)

lemma overwrite_request [simp]: "length b = 300 \<Longrightarrow> overwrite 0 (request c) b ! 3 = c"
  by (simp add: nth_overwrite) (simp add: request_def)

text \<open>Every command but the file information is served; the disk is empty.\<close>

lemma served_bytes:
  assumes "length msg = 274" and "msg ! 3 \<noteq> 0x10" and "length (buffer s) = 300"
  obtains t where "process_conn_server_body (env_msg msg) sock s = Ok True t"
    and "requests sock (hist t) = requests sock (hist s) @ [(274, msg)]"
    and "length (buffer t) = 300" and "available_size (sfs t) = disk_size"
proof -
  let ?e = "env_msg msg"
  have "wp (process_conn_server_body ?e sock) (\<lambda>ok t. (ok \<longrightarrow> (\<exists>sz d. iterated sock s t sz d \<and>
    read_answer ?e sock sz d) \<and> (share_ok ?e \<longrightarrow> (\<exists>h. sfs t = k_statfs ?e h))) \<and>
    (share_ok ?e \<and> (\<forall>d. \<not> read_answer ?e sock 0 d) \<longrightarrow> ok)) (\<lambda>_. False) s"
    by (rule wp_body_iterated [OF gpio_up_msg assms(3)])
      (use assms in \<open>auto simp: read_answer_msg nth_overwrite\<close>)
  from wp_total [OF this] obtain ok t h where t: "process_conn_server_body ?e sock s = Ok ok t" "ok"
      "iterated sock s t 274 msg" and h: "sfs t = k_statfs ?e h"
    using assms(1) by (auto simp: read_answer_msg share_ok_msg)
  then have "requests sock (hist t) = requests sock (hist s) @ [(274, msg)]"
      "length (buffer t) = 300"
    by (auto simp: iterated_def polled_def)
  moreover have "available_size (sfs t) = disk_size"
    by (simp add: h available_size_def env_msg_def env0_def disk_size_def)
  ultimately show thesis using t that by simp
qed

lemma served_msg:
  assumes "c \<noteq> 0x10" and "length (buffer s) = 300"
  obtains t where "process_conn_server_body (env_msg (request c)) sock s = Ok True t"
    and "requests sock (hist t) = requests sock (hist s) @ [(274, request c)]"
    and "length (buffer t) = 300" and "available_size (sfs t) = disk_size"
proof (rule served_bytes [OF length_request _ assms(2)])
  show "request c ! 3 \<noteq> 0x10" using assms(1) by (simp add: request_def)
qed (rule that)

section \<open>Properties\<close>

text \<open>C7: the device state in BRAM word 25 follows its abstract automaton: whatever the client sends and
  whatever the word held, an iteration that keeps the connection moves it by the disk check and
  then by the command of the one request it reads.\<close>

theorem work_state_refines:
  assumes "gpio_up e" and "length (buffer s) = 300" and "process_conn_server_body e sock s = Ok True t"
  shows "\<exists>sz d. requests sock (hist t) = requests sock (hist s) @ [(sz, d)] \<and>
    bram_ps t 25 = work_code (command_next (overwrite 0 (take (nat sz) d) (buffer s) ! 3)
      (disk_next (available_size (sfs t) = 0) (work_view (bram_ps s 25))))"
proof -
  obtain sz d where i: "iterated sock s t sz d" by (rule body_iterated [OF assms])
  then obtain u where p: "polled sock s u sz d" and d: "dispatched sock u t" and s: "sfs t = sfs u"
    and r: "requests sock (hist t) = requests sock (hist u)"
    by (auto simp: iterated_def)
  from d have "bram_ps t 25 = work_code (command_next (buffer u ! 3) (work_view (bram_ps u 25)))"
    using p by (auto simp: dispatched_def served_def commands_def command_next_def polled_def
        disk_handled_def split: if_splits)
  with p s r show ?thesis by (auto simp: polled_def disk_handled_def)
qed

theorem work_state_refines_witness:
  "\<exists>t. process_conn_server_body (env_msg (request 3)) 4 tcp0 = Ok True t \<and>
    bram_ps t 25 = work_code Record"
proof -
  obtain t where t: "process_conn_server_body (env_msg (request 3)) 4 tcp0 = Ok True t"
      "requests 4 (hist t) = requests 4 (hist tcp0) @ [(274, request 3)]"
      "available_size (sfs t) = disk_size"
    using served_msg [of 3 tcp0 4] by auto
  from work_state_refines [OF gpio_up_msg _ t(1)] t(2,3) show ?thesis
    by (auto simp: t(1) work_view_def work_words disk_size_def disk_next_def command_next_def)
qed

text \<open>What the start command leaves behind.\<close>

lemma start_body_started:
  assumes "gpio_up e" and "length (buffer s) = 300" and "process_conn_server_body e sock s = Ok True t"
    and "requests sock (hist t) = requests sock (hist s) @ [(sz, d)]"
    and b: "b = overwrite 0 (take (nat sz) d) (buffer s)" and "b ! 3 = 3"
    and "available_size (sfs t) \<noteq> 0" and "bram_ps s 25 \<noteq> WORK_RECORD"
  shows "started b t"
proof -
  obtain u where p: "polled sock s u sz d" and d: "dispatched sock u t" and s: "sfs t = sfs u"
    using body_request [OF assms(1-4)] by (auto simp: iterated_def)
  have "bram_ps u 25 = WORK_READY" and "buffer u = b"
    using p assms(7,8) b s by (auto simp: polled_def disk_handled_def disk_next_def work_view_def)
  with d assms(6) show ?thesis by (simp add: dispatched_def start_done_def)
qed

text \<open>C9: a start request on a device that neither records nor has a full disk starts a recording:
  the PL and recorder flags are set, the stop flags cleared, the client's time stands in BCD in
  words 12 to 17 and as a whole in word 0, and the 256 bytes after the header, the directory
  name, in words 30 to 61.\<close>

theorem start_command:
  assumes "gpio_up e" and "length (buffer s) = 300" and "process_conn_server_body e sock s = Ok True t"
    and "requests sock (hist t) = requests sock (hist s) @ [(sz, d)]"
    and b: "b = overwrite 0 (take (nat sz) d) (buffer s)" and "b ! 3 = 3"
    and "available_size (sfs t) \<noteq> 0" and "bram_ps s 25 \<noteq> WORK_RECORD"
  shows "bram_ps t 25 = WORK_RECORD \<and> bram_ps t 18 = 1 \<and> bram_ps t 19 = 1 \<and>
    (\<forall>i \<in> {20, 22, 23, 24}. bram_ps t i = 0) \<and>
    map (bram_ps t) [12, 13, 14, 15, 16, 17] = map (\<lambda>k. ucast (to_bcd (b ! k))) [15, 13, 11, 9, 7, 5] \<and>
    (\<forall>k<8. byte_at (bram_ps t 0) k = time_buffer (my_time b) ! k) \<and>
    map (\<lambda>k. ps_byte (bram_ps t) (240 + k)) [0..<256] = take 256 (drop 18 b)"
  using start_body_started [OF assms] by (simp add: started_def clocked_def del: upt_Suc)

theorem start_command_witness:
  "\<exists>t. process_conn_server_body (env_msg (request 3)) 4 tcp0 = Ok True t \<and>
    bram_ps t 18 = 1 \<and> bram_ps t 25 = WORK_RECORD"
proof -
  obtain t where t: "process_conn_server_body (env_msg (request 3)) 4 tcp0 = Ok True t"
      "requests 4 (hist t) = requests 4 (hist tcp0) @ [(274, request 3)]"
      "available_size (sfs t) = disk_size"
    using served_msg [of 3 tcp0 4] by auto
  from start_command [OF gpio_up_msg _ t(1,2) refl] t(1,3) show ?thesis
    by (simp add: disk_size_def work_words)
qed

text \<open>C13: a start request while recording, or on a full disk, does nothing but answer.  The iteration
  consists of what every iteration does before it reads a request (the wait, the query of the
  share, the disk warning and the disk check), the read of the request, and the write of the
  reply: no other call is made, no other variable changes, and the words of the BRAM are those
  the disk check leaves.  These are the words as they were, unless the disk is full; then word 25
  says so, and a running recording is ended by its flags in words 9, 18 and 19.\<close>

theorem start_refused:
  assumes "gpio_up e" and "length (buffer s) = 300" and "process_conn_server_body e sock s = Ok True t"
    and "requests sock (hist t) = requests sock (hist s) @ [(sz, d)]"
    and "overwrite 0 (take (nat sz) d) (buffer s) ! 3 = 3"
    and "available_size (sfs t) = 0 \<or> bram_ps s 25 = WORK_RECORD"
  shows "\<exists>u r x.
    seqR [sysdo e (Usleep 1000), read_statfs e, disk_warning e, disk_state e] s = Ok () u \<and>
    hist t = hist u @ [(Read sock 1024, sz, d), (Write sock (take 32 (buffer t)), r, x)] \<and>
    t = u\<lparr>hist := hist t, buffer := buffer t\<rparr> \<and>
    (if available_size (sfs t) = 0
     then bram_ps t = (if bram_ps s 25 = WORK_RECORD
       then (bram_ps s)(9 := 1, 18 := 0, 19 := 0, 25 := WORK_DISKFULL)
       else (bram_ps s)(25 := WORK_DISKFULL))
     else bram_ps t = bram_ps s)"
proof -
  obtain u sz' v where u: "before_request e s = Ok () u" and v: "receive e sock u = Ok sz' v"
      and t: "dispatch e sock v = Ok () t"
    using body_steps [OF assms(3)] by blast
  obtain d' where v': "v = (emit (Read sock 1024) sz' d' u)\<lparr>buffer := overwrite 0 (take (nat sz') d') (buffer u)\<rparr>" and le: "sz' \<le> 300"
    using receive_Ok [OF v] by blast
  have bu: "buffer u = buffer s" and req: "requests sock (hist u) = requests sock (hist s)"
      and disk: "disk_handled (available_size (sfs u) = 0) (bram_ps s) (bram_ps u)"
    using wp_Ok [OF wp_before_request [OF assms(1), where sock = sock and A = "\<lambda>_. True"] u] by auto
  obtain w where "bram_ps u 25 = work_code w" using disk by (auto simp: disk_handled_def)
  then have "wp (dispatch e sock) (\<lambda>_ t. dispatched sock v t) (\<lambda>_. True) v"
    by (intro wp_dispatch [OF assms(1)]) (use le in \<open>simp_all add: v' bu length_overwrite assms(2)\<close>)
  from wp_Ok [OF this t] have "sfs t = sfs v" "requests sock (hist t) = requests sock (hist v)"
    by (auto simp: dispatched_def served_def split: if_splits)
  then have same: "sfs t = sfs u" and sz: "sz' = sz" "d' = d" using assms(4) by (simp_all add: v' req)
  have "bram_ps u 25 \<noteq> WORK_READY" using disk assms(6) same by (auto simp: disk_handled_def disk_next_def)
  then have "plain_ack e sock 0x23 0xcc v = Ok () t"
    using t assms(5) by (simp add: dispatch_def cmd_set_start_def v' bu sz run_simps seqR.simps split: result.splits)
  then obtain r x where h: "hist t = hist v @ [(Write sock (take 32 (buffer t)), r, x)]"
      and e: "t = v\<lparr>hist := hist t, buffer := buffer t\<rparr>"
    using plain_ack_Ok by blast
  have bram: "bram_ps t = bram_ps u" using arg_cong [OF e, of bram_ps] by (simp add: v')
  have "t = u\<lparr>hist := hist t, buffer := buffer t\<rparr>" using e by (simp add: v' emit_def)
  moreover have "bram_ps t = (if bram_ps s 25 = WORK_RECORD
      then (bram_ps s)(9 := 1, 18 := 0, 19 := 0, 25 := WORK_DISKFULL)
      else (bram_ps s)(25 := WORK_DISKFULL))" if "available_size (sfs t) = 0"
    using that disk unfolding bram same by (auto simp: disk_handled_def disk_next_def fun_eq_iff)
  moreover have "bram_ps t = bram_ps s" if "available_size (sfs t) \<noteq> 0"
  proof -
    have "bram_ps s 25 = WORK_RECORD" using assms(6) that by simp
    with disk that have "bram_ps u i = bram_ps s i" for i unfolding same
      by (cases "i = 25") (auto simp: disk_handled_def disk_next_def)
    then show ?thesis unfolding bram by (rule ext)
  qed
  moreover have "hist t = hist u @ [(Read sock 1024, sz, d), (Write sock (take 32 (buffer t)), r, x)]"
    using h by (simp add: v' sz)
  ultimately show ?thesis using u unfolding before_request_def by (intro exI conjI) auto
qed

definition tcp_recording :: tcp_state where
  "tcp_recording = tcp0\<lparr>bram_ps := (\<lambda>i. if i = 25 then 2 else 7)\<rparr>"

theorem start_refused_witness:
  "\<exists>u t r x. process_conn_server_body (env_msg (request 3)) 4 tcp_recording = Ok True t \<and>
    hist t = hist u @ [(Read 4 1024, 274, request 3), (Write 4 (take 32 (buffer t)), r, x)] \<and>
    t = u\<lparr>hist := hist t, buffer := buffer t\<rparr> \<and> bram_ps t = bram_ps tcp_recording"
proof -
  have len: "length (buffer tcp_recording) = 300" "bram_ps tcp_recording 25 = WORK_RECORD"
    by (simp_all add: tcp_recording_def work_words)
  obtain t where t: "process_conn_server_body (env_msg (request 3)) 4 tcp_recording = Ok True t"
      "requests 4 (hist t) = requests 4 (hist tcp_recording) @ [(274, request 3)]"
      "available_size (sfs t) = disk_size"
    using served_msg [OF _ len(1), of 3 4] by auto
  have "available_size (sfs t) \<noteq> 0" by (simp add: t(3) disk_size_def)
  with start_refused [OF gpio_up_msg len(1) t(1,2)] len t(1) show ?thesis by auto
qed
text \<open>C12: a stop request raises the stop flags of the three recorders, clears the start, file and
  throughput words, closes the data source and makes the device ready, in every state.\<close>

theorem stop_command:
  assumes "gpio_up e" and "length (buffer s) = 300" and "process_conn_server_body e sock s = Ok True t"
    and "requests sock (hist t) = requests sock (hist s) @ [(sz, d)]"
    and "overwrite 0 (take (nat sz) d) (buffer s) ! 3 = 4"
  shows "bram_ps t 25 = WORK_READY \<and> (\<forall>i \<in> {9, 22, 23, 24}. bram_ps t i = 1) \<and>
    (\<forall>i \<in> {18, 19, 20, 21}. bram_ps t i = 0) \<and>
    (\<forall>i. i \<notin> {9} \<union> {18..25} \<longrightarrow> bram_ps t i = bram_ps s i)"
proof -
  obtain u where p: "polled sock s u sz d" and d: "dispatched sock u t"
    using body_request [OF assms(1-4)] by (auto simp: iterated_def)
  then have "stopped u t" using assms(5) by (simp add: dispatched_def polled_def)
  then show ?thesis using p
    by (auto simp: stopped_def WORK_READY_def polled_def disk_handled_def split: if_splits)
qed

theorem stop_command_witness:
  "\<exists>t. process_conn_server_body (env_msg (request 4)) 4 tcp_recording = Ok True t \<and>
    bram_ps t 22 = 1 \<and> bram_ps t 18 = 0"
proof -
  have len: "length (buffer tcp_recording) = 300" by (simp add: tcp_recording_def)
  obtain t where t: "process_conn_server_body (env_msg (request 4)) 4 tcp_recording = Ok True t"
      "requests 4 (hist t) = requests 4 (hist tcp_recording) @ [(274, request 4)]"
    using served_msg [OF _ len, of 4 4] by auto
  from stop_command [OF gpio_up_msg len t] len t(1) show ?thesis by simp
qed

text \<open>C19: every request is answered by exactly one frame when its command is known and by nothing when
  it is not.  The frame starts with 7e 7e 00 and the command plus 20 (hexadecimal), ends with
  fd fd, and has 32 bytes, or 266 for the file information.\<close>

theorem reply_framed:
  assumes "gpio_up e" and "length (buffer s) = 300" and "process_conn_server_body e sock s = Ok True t"
    and "requests sock (hist t) = requests sock (hist s) @ [(sz, d)]"
    and c: "c = overwrite 0 (take (nat sz) d) (buffer s) ! 3"
  shows "if c \<in> {1, 2, 3, 4, 5, 6, 7, 8, 9, 0x10}
    then \<exists>f. framed c f \<and> frames sock (hist t) = frames sock (hist s) @ [f]
    else frames sock (hist t) = frames sock (hist s)"
proof -
  obtain u where p: "polled sock s u sz d" and d: "dispatched sock u t"
    using body_request [OF assms(1-4)] by (auto simp: iterated_def)
  then have "buffer u ! 3 = c" "frames sock (hist u) = frames sock (hist s)"
    using c by (simp_all add: polled_def)
  with d show ?thesis by (auto simp: dispatched_def commands_def served_def split: if_splits)
qed

theorem reply_framed_witness:
  "\<exists>t f. process_conn_server_body (env_msg (request 2)) 4 tcp0 = Ok True t \<and>
    framed 2 f \<and> frames 4 (hist t) = [f]"
proof -
  obtain t where t: "process_conn_server_body (env_msg (request 2)) 4 tcp0 = Ok True t"
      "requests 4 (hist t) = requests 4 (hist tcp0) @ [(274, request 2)]"
    using served_msg [of 2 tcp0 4] by auto
  from reply_framed [OF gpio_up_msg _ t refl] t(1) show ?thesis by auto
qed

end
