(* ===== verification/Tcp_Protocol.thy ===== *)
theory Tcp_Protocol
  imports Tcp_Process
begin

text \<open>
  Properties of the protocol of tcp_process.c beyond single commands: the decoding of replies,
  the BCD times and the round trip through the clock of the PL, the free space, and what happens
  to oversized requests and to connections that fail.
\<close>

section \<open>BCD\<close>

lemma nat_or_digits: "a < 16 \<Longrightarrow> push_bit 4 (b :: nat) OR a = 16 * b + a"
proof -
  assume a: "a < 16"
  have "push_bit 4 b AND a = 0"
  proof (rule bit_eqI)
    fix n
    have "\<not> bit a n" if "4 \<le> n"
    proof -
      have "(2 :: nat) ^ 4 \<le> 2 ^ n" by (rule power_increasing [OF that]) simp
      then have "a < 2 ^ n" using a by simp
      then show ?thesis by (simp add: bit_nat_def)
    qed
    then show "bit (push_bit 4 b AND a) n = bit (0 :: nat) n"
      by (auto simp: bit_simps)
  qed
  from disjunctive_add_eq_or [OF this] show ?thesis
    by (simp add: push_bit_eq_mult)
qed

lemma unat_to_bcd: "unat (to_bcd v) = (16 * (unat v div 10) + unat v mod 10) mod 256"
proof -
  have "to_bcd v = word_of_nat (16 * (unat v div 10) + unat v mod 10)"
    unfolding to_bcd_def by (subst nat_or_digits) simp_all
  then show ?thesis by (simp only: unat_of_nat) simp
qed

lemma of_bcd_digits: "of_bcd b = word_of_nat (unat b div 16 * 10 + unat b mod 16)"
proof -
  have "drop_bit 4 (b AND 0xf0) = take_bit 4 (drop_bit 4 b)"
    by (simp add: drop_bit_and take_bit_eq_mask mask_eq_exp_minus_1)
  also have "\<dots> = drop_bit 4 b"
    by (rule bit_word_eqI) (auto simp: bit_simps dest: bit_imp_le_length)
  finally have "drop_bit 4 (b AND 0xf0) = drop_bit 4 b" .
  moreover have "b AND 0x0f = take_bit 4 b"
    by (simp add: take_bit_eq_mask mask_eq_exp_minus_1)
  ultimately have "of_bcd b = word_of_nat (unat (drop_bit 4 b) * 10 + unat (take_bit 4 b))"
    unfolding of_bcd_def by (simp only:)
  also have "unat (drop_bit 4 b) = unat b div 16"
    by (subst unat_drop_bit_eq) (simp add: drop_bit_eq_div)
  also have "unat (take_bit 4 b) = unat b mod 16"
    by (subst unsigned_take_bit_eq) (simp add: take_bit_eq_mod)
  finally show ?thesis .
qed

lemma unat_of_to_bcd: "unat (of_bcd (to_bcd v)) = unat v mod 160"
proof -
  define a r where "a = unat v div 10" and "r = unat v mod 10"
  have v: "unat v = 10 * a + r" "r < 10" "a < 26"
    using unsigned_less [of v, where ?'a = nat] by (auto simp: a_def r_def)
  have "unat (to_bcd v) = 16 * (a mod 16) + r"
  proof (cases "a < 16")
    case True
    then show ?thesis using v(2) by (simp add: unat_to_bcd flip: a_def r_def)
  next
    case False
    then obtain k where k: "a = 16 + k" using le_Suc_ex [of 16 a] by auto
    then have "16 * a + r = 256 + (16 * k + r)" by simp
    then have "(16 * a + r) mod 256 = (256 + (16 * k + r)) mod 256" by (rule arg_cong)
    also have "\<dots> = 16 * k + r" unfolding mod_add_self1 using v(2,3) k by simp
    finally show ?thesis using v(3) k by (simp add: unat_to_bcd flip: a_def r_def)
  qed
  then have "unat (of_bcd (to_bcd v)) = 10 * (a mod 16) + r"
    using v(2) by (simp only: of_bcd_digits unat_of_nat) simp
  also have "\<dots> = unat v mod 160"
    using v by (auto simp: mod_if)
  finally show ?thesis .
qed

section \<open>The clock of the PL\<close>

text \<open>What the PL does with the time: word 513 presents the bytes of word 0 it was given.\<close>

definition pl_clock :: "env \<Rightarrow> u64 \<Rightarrow> bool" where
  "pl_clock e w \<longleftrightarrow> (\<forall>h. \<forall>k<6. byte_at (pl_word e h 1 513) k = byte_at w k)"

definition time_fields :: "nat set" where
  "time_fields = {5, 7, 9, 11, 13, 15}"

lemma set_rtc_word:
  "\<exists>t. cmd_set_rtc e sock s = Ok () t \<and>
     (\<forall>k<8. byte_at (bram_ps t 0) k = time_buffer (my_time (buffer s)) ! k)"
proof -
  have "wp (set_pl_clock e 1000 (time_buffer (my_time (buffer s))))
      (\<lambda>_ t. \<forall>k<8. byte_at (bram_ps t 0) k = time_buffer (my_time (buffer s)) ! k) (\<lambda>_. False) u"
    for u :: "'a tcp_state_scheme"
    by (rule wp_set_pl_clock_word) (simp add: time_buffer_def)
  then have "wp (cmd_set_rtc e sock) (\<lambda>_ t. \<forall>k<8. byte_at (bram_ps t 0) k
      = time_buffer (my_time (buffer s)) ! k) (\<lambda>_. False) s"
    by (simp add: cmd_set_rtc_def plain_ack_def set_datetime_def Let_def)
  then show ?thesis by (rule wp_returns)
qed

lemma get_rtc_fields:
  assumes "length (buffer u) = 300" and "pl_clock e w" and "\<forall>k<8. byte_at w k = time_buffer t ! k"
  shows "\<exists>v. cmd_get_rtc e sock u = Ok () v \<and> map ((!) (buffer v)) [5, 7, 9, 11, 13, 15] =
    map of_bcd [TIME_year t, TIME_mon t, TIME_day t, TIME_hour t, TIME_min t, TIME_sec t]"
proof -
  have "bram_bytes e 1 0x2000 u ! (4104 + k) = time_buffer t ! k" if "k < 6" for k
  proof -
    have "(4104 + k) div 8 = 513" "(4104 + k) mod 8 = k" using that by presburger+
    then show ?thesis
      using that assms(2,3) by (simp add: bram_bytes_def pl_clock_def bram_word_def del: upt_Suc)
  qed
  from this [of 0] this [of 1] this [of 2] this [of 3] this [of 4] this [of 5]
  have "wp (cmd_get_rtc e sock) (\<lambda>_ v. map ((!) (buffer v)) [5, 7, 9, 11, 13, 15] =
    map of_bcd [TIME_year t, TIME_mon t, TIME_day t, TIME_hour t, TIME_min t, TIME_sec t]) (\<lambda>_. False) u"
    using assms(1) by (simp add: cmd_get_rtc_def ack_head_def time_buffer_def Let_def)
  then show ?thesis by (rule wp_returns)
qed

section \<open>A conversation\<close>

text \<open>The command of a request that was read.\<close>

definition command_of :: "int \<times> bytes \<Rightarrow> u8" where
  "command_of r = snd r ! 3"

text \<open>A client that stays connected and sends requests the 300-byte buffer holds, none of them for the
  file information.\<close>

definition client_ok :: "env \<Rightarrow> int \<Rightarrow> bool" where
  "client_ok e sock \<longleftrightarrow> (\<forall>sz d. read_answer e sock sz d \<longrightarrow>
     4 \<le> sz \<and> sz \<le> 300 \<and> nat sz \<le> length d \<and> d ! 3 \<noteq> 0x10)"

lemma body_conversation:
  assumes "gpio_up e" and "share_ok e" and "client_ok e sock" and "length (buffer s) = 300"
  shows "\<exists>t r fs. process_conn_server_body e sock s = Ok True t \<and> length (buffer t) = 300 \<and>
    requests sock (hist t) = requests sock (hist s) @ [r] \<and>
    frames sock (hist t) = frames sock (hist s) @ fs \<and>
    list_all2 framed (filter (\<lambda>c. c \<in> commands) [command_of r]) fs"
proof -
  have ans: "4 \<le> sz" "sz \<le> 300" "nat sz \<le> length d" "d ! 3 \<noteq> 0x10" if "read_answer e sock sz d" for sz d
    using assms(3) that by (auto simp: client_ok_def)
  have cmd: "overwrite 0 (take (nat sz) d) (buffer s) ! 3 = d ! 3" if "read_answer e sock sz d" for sz d
  proof -
    have "3 < nat sz" using ans(1) [OF that] by linarith
    moreover have "3 < length d" using calculation ans(3) [OF that] by linarith
    ultimately show ?thesis using assms(4) ans(2,3) [OF that] by (simp add: nth_overwrite)
  qed
  have body: "wp (process_conn_server_body e sock) (\<lambda>ok t. (ok \<longrightarrow> (\<exists>sz d. iterated sock s t sz d \<and>
    read_answer e sock sz d) \<and> (share_ok e \<longrightarrow> (\<exists>h. sfs t = k_statfs e h))) \<and>
    (share_ok e \<and> (\<forall>d. \<not> read_answer e sock 0 d) \<longrightarrow> ok)) (\<lambda>_. False) s"
  proof (rule wp_body_iterated [OF assms(1,4)])
    fix sz d assume r: "read_answer e sock sz d"
      and "300 < sz \<or> overwrite 0 (take (nat sz) d) (buffer s) ! 3 = 0x10"
    then show "(\<lambda>_. False) = (\<lambda>_ :: abort. True)" using ans(2,4) [OF r] cmd [OF r] by simp
  qed
  have "\<not> read_answer e sock 0 d" for d using ans(1) [of 0 d] by auto
  with wp_total [OF body] assms(2)
  obtain t sz d where t: "process_conn_server_body e sock s = Ok True t"
      and i: "iterated sock s t sz d" and r: "read_answer e sock sz d"
    by auto
  from i obtain u where p: "polled sock s u sz d" and d: "dispatched sock u t"
      and t': "requests sock (hist t) = requests sock (hist u)" "length (buffer t) = 300"
    by (auto simp: iterated_def)
  have "buffer u ! 3 = d ! 3" using p cmd [OF r] by (simp add: polled_def)
  then have "\<exists>fs. frames sock (hist t) = frames sock (hist s) @ fs \<and>
      list_all2 framed (filter (\<lambda>c. c \<in> commands) [command_of (sz, d)]) fs"
    using p d by (auto simp: polled_def dispatched_def served_def command_of_def split: if_splits)
  with t t' p show ?thesis by (auto simp: polled_def)
qed

section \<open>A connection that fails\<close>

lemma body_error:
  assumes "gpio_up e" and "share_ok e" and "\<And>h. k_ret e h (Read sock 1024) = -1"
    and "length (buffer s) = 300" and "buffer s ! 3 \<notin> commands"
  shows "\<exists>t. process_conn_server_body e sock s = Ok True t \<and> buffer t = buffer s"
proof -
  have ans: "read_answer e sock sz d \<Longrightarrow> sz = -1" for sz d
    using assms(3) by (auto simp: read_answer_def)
  have "wp (process_conn_server_body e sock) (\<lambda>ok t. (ok \<longrightarrow> (\<exists>sz d. iterated sock s t sz d \<and>
    read_answer e sock sz d) \<and> (share_ok e \<longrightarrow> (\<exists>h. sfs t = k_statfs e h))) \<and>
    (share_ok e \<and> (\<forall>d. \<not> read_answer e sock 0 d) \<longrightarrow> ok)) (\<lambda>_. False) s"
    by (rule wp_body_iterated [OF assms(1,4)])
      (use assms(4,5) ans in \<open>force simp: overwrite_def commands_def\<close>)
  from wp_total [OF this] assms(2) ans obtain t d where "process_conn_server_body e sock s = Ok True t"
      "iterated sock s t (-1) d"
    by fastforce
  moreover from this(2) have "buffer t = buffer s"
    using assms(5) by (auto simp: iterated_def polled_def dispatched_def overwrite_def)
  ultimately show ?thesis by blast
qed

lemma server_error:
  assumes "gpio_up e" and "share_ok e" and "\<And>h. k_ret e h (Read sock 1024) = -1"
  shows "length (buffer s) = 300 \<Longrightarrow> buffer s ! 3 \<notin> commands \<Longrightarrow>
    \<exists>t. process_conn_server n e sock s = Ok True t"
proof (induction n arbitrary: s)
  case 0
  then show ?case by simp
next
  case (Suc n)
  obtain t where "process_conn_server_body e sock s = Ok True t" "buffer t = buffer s"
    using body_error [OF assms Suc.prems] by blast
  with Suc show ?case by simp
qed

section \<open>Properties\<close>

text \<open>The BCD conversion of a time field is exact below 160 and loses exactly 160 from there on,
  because the tens no longer fit their four bits.\<close>

theorem bcd_roundtrip: "of_bcd (to_bcd v) = (if v < 160 then v else v - 160)"
proof -
  have "unat v mod 160 = unat (if v < 160 then v else v - 160)"
    using unsigned_less [of v, where ?'a = nat]
    by (auto simp: word_less_nat_alt not_less unat_sub word_le_nat_alt mod_if)
  then show ?thesis by (simp add: word_unat_eq_iff unat_of_to_bcd)
qed

text \<open>C20: the time survives the round trip through the PL: when the PL presents the time it was last
  given, GET_RTC answers the six fields of the last SET_RTC, for all field values below 160.\<close>

theorem rtc_roundtrip:
  assumes "cmd_set_rtc e sock s = Ok () t" and "pl_clock e' (bram_ps t 0)" and "length (buffer u) = 300"
    and "\<forall>k \<in> time_fields. buffer s ! k < 160"
  shows "\<exists>v. cmd_get_rtc e' sock' u = Ok () v \<and> (\<forall>k \<in> time_fields. buffer v ! k = buffer s ! k)"
proof -
  have "\<forall>k<8. byte_at (bram_ps t 0) k = time_buffer (my_time (buffer s)) ! k"
    using set_rtc_word [of e sock s] assms(1) by auto
  from get_rtc_fields [OF assms(3,2) this] obtain v where "cmd_get_rtc e' sock' u = Ok () v"
      "map ((!) (buffer v)) [5, 7, 9, 11, 13, 15] = map of_bcd [TIME_year (my_time (buffer s)),
        TIME_mon (my_time (buffer s)), TIME_day (my_time (buffer s)), TIME_hour (my_time (buffer s)),
        TIME_min (my_time (buffer s)), TIME_sec (my_time (buffer s))]"
    by blast
  then show ?thesis using assms(4)
    by (auto simp: my_time_def time_fields_def unat_of_to_bcd word_unat_eq_iff word_less_nat_alt)
qed

theorem rtc_roundtrip_witness:
  "\<exists>t v. cmd_set_rtc env0 4 tcp0 = Ok () t \<and>
    cmd_get_rtc (env0\<lparr>pl_word := \<lambda>_ _ _. bram_ps t 0\<rparr>) 4 tcp0 = Ok () v \<and>
    (\<forall>k \<in> time_fields. buffer v ! k = 0)"
proof -
  obtain t where t: "cmd_set_rtc env0 4 tcp0 = Ok () t" using set_rtc_word [of env0 4 tcp0] by blast
  have "pl_clock (env0\<lparr>pl_word := \<lambda>_ _ _. bram_ps t 0\<rparr>) (bram_ps t 0)" by (simp add: pl_clock_def)
  from rtc_roundtrip [OF t this, of tcp0 4] t show ?thesis
    by (fastforce simp: time_fields_def)
qed

text \<open>C22: the free space reported and compared with the threshold is the 2.73 TiB of the data disk less
  the space in use, and 0 when more is in use: it never wraps around.\<close>

theorem available_size_exact:
  assumes "unat (f_bfree f) \<le> unat (f_blocks f)"
    and "(unat (f_blocks f) - unat (f_bfree f)) * unat (f_bsize f) < 2 ^ 64"
  shows "unat (available_size f)
    = unat disk_size - (unat (f_blocks f) - unat (f_bfree f)) * unat (f_bsize f)"
proof -
  have "f_bfree f \<le> f_blocks f" using assms(1) by (simp add: word_le_nat_alt)
  then have "unat (f_blocks f - f_bfree f) = unat (f_blocks f) - unat (f_bfree f)"
    by (rule unat_sub)
  then have u: "unat ((f_blocks f - f_bfree f) * f_bsize f)
      = (unat (f_blocks f) - unat (f_bfree f)) * unat (f_bsize f)"
    using assms(2) by (simp add: unat_word_ariths)
  define w where "w = (f_blocks f - f_bfree f) * f_bsize f"
  have "unat (available_size f) = unat disk_size - unat w"
  proof (cases "w \<le> 0x2ba7def3000")
    case True
    then have "0x2ba7def3000 - w \<le> 0x2ba7def3000" by (rule word_sub_le)
    with True show ?thesis
      by (simp add: available_size_def Let_def disk_size_def unat_sub not_less flip: w_def)
  next
    case False
    then have "unat (0x2ba7def3000 :: u64) < unat w" by (simp add: word_less_nat_alt not_le)
    with False show ?thesis by (simp add: available_size_def Let_def disk_size_def flip: w_def)
  qed
  with u show ?thesis by (simp add: w_def)
qed

theorem available_size_exact_witness:
  "unat (available_size \<lparr>f_type = 0xEF53, f_blocks = 10, f_bfree = 4, f_bsize = 4096\<rparr>)
    = 0x2ba7def3000 - 24576"
  using available_size_exact [of "\<lparr>f_type = 0xEF53, f_blocks = 10, f_bfree = 4, f_bsize = 4096\<rparr>"]
  by (simp add: disk_size_def)

text \<open>C21: the status reply decodes to the state: its big-endian fields are the device state, the size of
  the disk and the free space.\<close>

theorem status_decodes:
  assumes "length (buffer s) = 300"
  shows "\<exists>t f. cmd_get_status e sock s = Ok () t \<and>
    frames sock (hist t) = frames sock (hist s) @ [f] \<and>
    be_val (take 2 (drop 6 f)) = take_bit 16 (bram_ps s 25) \<and>
    be_val (take 8 (drop 8 f)) = disk_size \<and>
    be_val (take 8 (drop 16 f)) = available_size (sfs s)"
proof -
  let ?P = "\<lambda>f. take 2 (drop 6 f) = [byte_at (bram_ps s 25) 1, byte_at (bram_ps s 25) 0] \<and>
    take 8 (drop 8 f) = be_bytes disk_size \<and> take 8 (drop 16 f) = be_bytes (available_size (sfs s))"
  have "wp (cmd_get_status e sock) (\<lambda>_ t. \<exists>f. frames sock (hist t) = frames sock (hist s) @ [f] \<and> ?P f)
      (\<lambda>_. False) s"
    using assms
    by (auto simp: cmd_get_status_def ack_head_def ACK_SIZE_def Let_def poke_segment length_overwrite
        nth_overwrite less_2_cases_iff intro!: nth_equalityI)
  then obtain t f where "cmd_get_status e sock s = Ok () t"
      "frames sock (hist t) = frames sock (hist s) @ [f]" and f: "?P f"
    by (blast dest: wp_returns)
  moreover have "be_val [byte_at w 1, byte_at w 0] = take_bit 16 w" for w
    by (rule bit_word_eqI) (auto simp: be_val_def bit_simps bit_byte_at)
  ultimately show ?thesis using f by auto
qed

theorem status_decodes_witness:
  "\<exists>t f. cmd_get_status env0 4 tcp0 = Ok () t \<and> frames 4 (hist t) = [f] \<and>
    be_val (take 8 (drop 8 f)) = disk_size"
  using status_decodes [of tcp0 env0 4] by auto

text \<open>C24: a connection is served as long as the client keeps to the protocol.  When the share is
  mounted and every request is one the buffer holds and not for the file information, any number
  \<open>n\<close> of iterations of \<open>process_conn_server\<close> returns with the connection still open, having read
  \<open>n\<close> requests and sent exactly one frame for each request with a known command, each with the
  header and code of its command, in the order of the requests.\<close>

theorem conversation_served:
  assumes "gpio_up e" and "share_ok e" and "client_ok e sock" and "length (buffer s) = 300"
  shows "\<exists>t rs fs. process_conn_server n e sock s = Ok True t \<and> length rs = n \<and>
    requests sock (hist t) = requests sock (hist s) @ rs \<and>
    frames sock (hist t) = frames sock (hist s) @ fs \<and>
    list_all2 framed (filter (\<lambda>c. c \<in> commands) (map command_of rs)) fs"
  using assms(4)
proof (induction n arbitrary: s)
  case 0
  then show ?case by simp
next
  case (Suc n)
  obtain u r f where u: "process_conn_server_body e sock s = Ok True u" "length (buffer u) = 300"
      "requests sock (hist u) = requests sock (hist s) @ [r]" "frames sock (hist u) = frames sock (hist s) @ f"
      "list_all2 framed (filter (\<lambda>c. c \<in> commands) [command_of r]) f"
    using body_conversation [OF assms(1-3) Suc.prems] by blast
  obtain t rs fs where t: "process_conn_server n e sock u = Ok True t" "length rs = n"
      "requests sock (hist t) = requests sock (hist u) @ rs" "frames sock (hist t) = frames sock (hist u) @ fs"
      "list_all2 framed (filter (\<lambda>c. c \<in> commands) (map command_of rs)) fs"
    using Suc.IH [OF u(2)] by blast
  have "list_all2 framed (filter (\<lambda>c. c \<in> commands) (map command_of (r # rs))) (f @ fs)"
    using list_all2_appendI [OF u(5) t(5)] by (simp split: if_splits)
  with u t show ?case by (intro exI [of _ t] exI [of _ "r # rs"] exI [of _ "f @ fs"]) simp
qed

theorem conversation_served_witness:
  "\<exists>t rs fs. process_conn_server 3 (env_msg (request 9)) 4 tcp0 = Ok True t \<and> length rs = 3 \<and>
    requests 4 (hist t) = rs \<and> frames 4 (hist t) = fs \<and>
    list_all2 framed (filter (\<lambda>c. c \<in> commands) (map command_of rs)) fs"
proof -
  have "client_ok (env_msg (request 9)) 4"
    by (simp add: client_ok_def read_answer_msg) (simp add: request_def)
  from conversation_served [OF gpio_up_msg share_ok_msg this, of tcp0 3] show ?thesis by auto
qed

text \<open>C35: a longer request overruns the 300-byte buffer on the stack, because the code reads up to 1024
  bytes into it.\<close>

theorem request_overflow:
  assumes "gpio_up e" and "share_ok e" and "\<And>sz d. read_answer e sock sz d \<Longrightarrow> 300 < sz"
  shows "\<exists>t. process_conn_server_body e sock s = Fail Undefined t"
proof -
  have "wp (process_conn_server_body e sock) (\<lambda>_ _. False) (\<lambda>a. a = Undefined) s"
    by (rule wp_body [OF assms(1)]) (use assms(2,3) in \<open>force+\<close>)
  then show ?thesis by (simp add: wp_def split: result.splits)
qed

theorem request_overflow_witness:
  "\<exists>t. process_conn_server_body (env_msg (replicate 301 0)) 4 tcp0 = Fail Undefined t"
  by (rule request_overflow [OF gpio_up_msg share_ok_msg]) (simp add: read_answer_msg)

text \<open>C36: a connection whose reads fail is served for ever: the code only leaves its loop when \<open>read\<close>
  returns 0, so after an error the process polls on without end.\<close>

theorem read_error_spins:
  assumes "gpio_up e" and "share_ok e" and "\<And>h. k_ret e h (Read sock 1024) = -1"
    and "length (buffer s) = 300" and "buffer s ! 3 \<notin> commands"
  shows "\<exists>t. process_conn_server n e sock s = Ok True t"
  using server_error [OF assms] .

theorem read_error_spins_witness:
  "\<exists>t. process_conn_server 1000 (env0\<lparr>k_ret := \<lambda>h c. case c of Read f n \<Rightarrow> -1 | _ \<Rightarrow> ret0 h c\<rparr>) 4 tcp0
    = Ok True t"
proof (rule read_error_spins)
  let ?e = "env0\<lparr>k_ret := \<lambda>h c. case c of Read f n \<Rightarrow> -1 | _ \<Rightarrow> ret0 h c\<rparr>"
  show "gpio_up ?e" by (simp add: gpio_up_def)
  show "share_ok ?e" by (simp add: share_ok_def env0_def ret0_def EXT3_SUPEP_MAGIC_def)
qed (simp_all add: commands_def)

end
