(* ===== verification/Tcp_Server.thy ===== *)
theory Tcp_Server
  imports Tcp_Protocol
begin

text \<open>
  \<open>tcp_server.c\<close>: the thread that accepts clients.  \<open>fork\<close> makes two processes of one; the model
  follows the one whose answer of \<open>fork\<close> the environment gives, so the child and the parent are
  two environments.  A child shares no memory with the recorder but the BRAM.
\<close>

definition PORT :: nat where "PORT = 10881"
definition BACKLOG :: nat where "BACKLOG = 2"

text \<open>Up to the loop; \<open>None\<close> is the return of -1.\<close>

definition net_setup :: "env \<Rightarrow> ('m machine_scheme, int option) prog" where
  "net_setup e =
     bindR (syscall e (Net Socket)) (\<lambda>ss. if ss < 0 then ret None else
     bindR (syscall e (Net (Bind ss ''192.168.127.151'' PORT))) (\<lambda>err. if err < 0 then ret None else
     bindR (syscall e (Net (Listen ss BACKLOG))) (\<lambda>err. if err < 0 then ret None else
       ret (Some ss))))"

text \<open>
  One iteration of the loop.  The child serves its connection, here for at most \<open>n\<close> requests, and
  then goes on in the same loop; \<open>f\<close> is the indeterminate \<open>sfs\<close> of \<open>process_conn_server\<close>.
\<close>

definition net_accept ::
  "nat \<Rightarrow> statfs_t \<Rightarrow> env \<Rightarrow> int \<Rightarrow> ('m tcp_state_scheme, unit) prog" where
  "net_accept n f e ss =
     bindR (syscall e (Net (Accept ss))) (\<lambda>sc. if sc < 0 then ret () else
     bindR (syscall e (Net Fork)) (\<lambda>pid. if pid = 0
       then seqR
         [sysdo e (Close ss),
          process_conn_enter f,
          bindR (process_conn_server n e sc) (\<lambda>busy. if busy then abort_with Hang else ret ())]
       else sysdo e (Close sc)))"

text \<open>The server, for \<open>k\<close> iterations of its loop: its result if it returned.\<close>

definition net_routine ::
  "nat \<Rightarrow> nat \<Rightarrow> statfs_t \<Rightarrow> env \<Rightarrow> ('m tcp_state_scheme, int option) prog" where
  "net_routine k n f e = bindR (net_setup e) (\<lambda>ss. case ss of
     None \<Rightarrow> ret (Some (-1))
   | Some ss \<Rightarrow> bindR (iterR k (net_accept n f e ss)) (\<lambda>_. ret None))"

section \<open>Listening sockets\<close>

primrec listen_step :: "int set \<Rightarrow> entry \<Rightarrow> int set" where
  "listen_step acc (Pair c rd) = (case c of
     Net m \<Rightarrow> (case m of Listen f n \<Rightarrow> if fst rd = 0 then insert f acc else acc | _ \<Rightarrow> acc)
   | Close f \<Rightarrow> acc - {f}
   | _ \<Rightarrow> acc)"

text \<open>The sockets the process listens on.\<close>

definition listening :: "history \<Rightarrow> int set" where
  "listening h = foldl listen_step {} h"

lemma listening_append [simp]: "listening (h @ h') = foldl listen_step (listening h) h'"
  by (simp add: listening_def)

text \<open>\<open>accept\<close> fails on everything but a listening socket.\<close>

definition accept_listens :: "env \<Rightarrow> int \<Rightarrow> bool" where
  "accept_listens e ss \<longleftrightarrow> (\<forall>h. ss \<notin> listening h \<longrightarrow> k_ret e h (Net (Accept ss)) < 0)"

text \<open>Nothing below the server makes a socket listen.\<close>

definition deaf :: "int \<Rightarrow> 'm machine_scheme \<Rightarrow> bool" where
  "deaf ss s \<longleftrightarrow> ss \<notin> listening (hist s)"

lemma deaf_emit: "deaf ss s \<Longrightarrow> (\<And>m. c \<noteq> Net m) \<Longrightarrow> deaf ss (emit c r d s)"
  by (cases c) (auto simp: deaf_def)

lemma deaf_hist: "hist t = hist s \<Longrightarrow> deaf ss t = deaf ss s"
  by (simp add: deaf_def)

lemma deaf_emits [simp]:
  "deaf ss s \<Longrightarrow> deaf ss (emit (Usleep n) r d s)" "deaf ss s \<Longrightarrow> deaf ss (emit (Write g b) r d s)"
  "deaf ss s \<Longrightarrow> deaf ss (emit (Read g n) r d s)" "deaf ss s \<Longrightarrow> deaf ss (emit (Open p fl n) r d s)"
  "deaf ss s \<Longrightarrow> deaf ss (emit (Close g) r d s)" "deaf ss s \<Longrightarrow> deaf ss (emit (Statfs p) r d s)"
  "deaf ss s \<Longrightarrow> deaf ss (emit (BramSt w i v) r d s)" "deaf ss s \<Longrightarrow> deaf ss (emit (BramCp w n) r d s)"
  "deaf ss s \<Longrightarrow> deaf ss (emit (Time x) r d s)" "deaf ss s \<Longrightarrow> deaf ss (emit (Dir y) r d s)"
  by (simp_all add: deaf_emit)

lemma deaf_fields [simp]:
  "deaf ss (s\<lparr>buffer := b\<rparr>) = deaf ss s" "deaf ss (s\<lparr>sfs := f\<rparr>) = deaf ss s"
  "deaf ss (s\<lparr>path := p\<rparr>) = deaf ss s" "deaf ss (s\<lparr>errno := k\<rparr>) = deaf ss s"
  "deaf ss (s\<lparr>start_record := a\<rparr>) = deaf ss s" "deaf ss (s\<lparr>new_file := c\<rparr>) = deaf ss s"
  "deaf ss (s\<lparr>fisk_warn := w\<rparr>) = deaf ss s" "deaf ss (s\<lparr>fisk_threshold := w\<rparr>) = deaf ss s"
  by (simp_all add: deaf_def)

lemma deaf_bram_put [simp]: "deaf ss s \<Longrightarrow> deaf ss (bram_put w i vs s)"
proof -
  have "foldl listen_step A (map (\<lambda>j. (BramSt w (i + j) (vs ! j), 0, [])) xs) = A" for A xs
    by (induction xs arbitrary: A) auto
  then show "deaf ss s \<Longrightarrow> deaf ss (bram_put w i vs s)" by (simp add: deaf_def bram_put_hist)
qed

lemma deaf_bram_upd [simp]: "deaf ss s \<Longrightarrow> deaf ss (bram_upd w i v s)"
  by (simp add: deaf_def)

lemma deaf_set_line [simp]: "deaf ss s \<Longrightarrow> deaf ss (set_line e p v s)"
  by (auto simp: deaf_def set_line_def Let_def)

section \<open>Serving a request\<close>

lemma wp_deaf_lan_up: "deaf ss u \<Longrightarrow> wp (lan_up e i) (\<lambda>_ t. deaf ss t) A u"
  by (simp add: lan_up_def)

lemma wp_deaf_connect_check: "deaf ss u \<Longrightarrow> wp (connect_check e) (\<lambda>_ t. deaf ss t) A u"
  by (auto simp: connect_check_def intro!: wp_mono [OF wp_deaf_lan_up [where ss = ss]])

lemma wp_deaf_file_count:
  fixes u v :: "'a tcp_state_scheme"
  shows "deaf ss u \<Longrightarrow> wp (get_file_count e p) (\<lambda>_ t. deaf ss t) (\<lambda>_. True) u"
  "deaf ss v \<Longrightarrow> wp (count_entries e p dir tot es) (\<lambda>_ t. deaf ss t) (\<lambda>_. True) v"
proof (induction e p and e p dir tot es arbitrary: u and v
    rule: get_file_count_count_entries.induct)
  case (1 e root)
  then show ?case by (subst get_file_count.simps) simp
next
  case (2 e root dir tot)
  then show ?case by (subst count_entries.simps) simp
next
  case (3 e root dir tot d_name d_type es)
  let ?c = "Dir (Readdir dir)"
  let ?u = "emit ?c (k_ret e (hist v) ?c) (k_data e (hist v) ?c) v"
  have u: "deaf ss ?u" using 3(6) by simp
  have sub: "wp (get_file_count e (root @ ''/'' @ d_name))
      (\<lambda>n. wp (count_entries e root dir (tot + n) es) (\<lambda>_. deaf ss) (\<lambda>_. True)) (\<lambda>_. True) ?u"
    if "\<not> (d_name = ''.'' \<or> d_name = ''..'')" "d_type = DT_DIR"
      "\<not> 256 \<le> length (root @ ''/'' @ d_name)"
    by (rule wp_mono [OF 3(2) [OF that u]]) (rule 3(3) [OF that], assumption+)
  show ?case using 3(1,4,5) u sub by (subst count_entries.simps) simp
qed

lemma wp_deaf_ack: "deaf ss u \<Longrightarrow> wp (plain_ack e sock c m) (\<lambda>_ t. deaf ss t) A u"
  by (simp add: plain_ack_def Let_def)

lemma wp_deaf_set_datetime: "deaf ss u \<Longrightarrow> wp (set_datetime e y mo d h mi se) (\<lambda>_ t. deaf ss t) A u"
  by (simp add: set_datetime_def)

lemma wp_deaf_set_pl_clock: "deaf ss u \<Longrightarrow> wp (set_pl_clock e us tb) (\<lambda>_ t. deaf ss t) A u"
  by (simp add: set_pl_clock_def)

lemma wp_deaf_start_parameters: "deaf ss u \<Longrightarrow> wp (start_parameters e b) (\<lambda>_ t. deaf ss t) A u"
  by (auto simp: start_parameters_def Let_def intro!: wp_mono [OF wp_deaf_set_datetime [where ss = ss]]
      wp_mono [OF wp_deaf_set_pl_clock [where ss = ss]])

lemma wp_deaf_start: "gpio_up e \<Longrightarrow> deaf ss u \<Longrightarrow> wp (start_recording e) (\<lambda>_ t. deaf ss t) A u"
  by (auto simp: start_recording_def reset_pl_def enable_data_source_def
      intro!: wp_mono [OF wp_deaf_start_parameters [where ss = ss]])

lemma wp_deaf_dispatch:
  assumes "gpio_up e" and "deaf ss u"
  shows "wp (dispatch e sock) (\<lambda>_ t. deaf ss t) (\<lambda>_. True) u"
proof -
  let ?D = "\<lambda>m :: ('a tcp_state_scheme, unit) prog. wp m (\<lambda>_ t. deaf ss t) (\<lambda>_. True) u"
  have "?D (cmd_get_status e sock)" using assms by (simp add: cmd_get_status_def Let_def)
  moreover have "?D (cmd_get_volt_temp e sock)" using assms(2)
    by (auto simp: cmd_get_volt_temp_def Let_def intro!: wp_mono [OF wp_deaf_connect_check [where ss = ss]])
  moreover have "?D (cmd_set_start e sock)" using assms
    by (auto simp: cmd_set_start_def intro!: wp_mono [OF wp_deaf_start [where ss = ss]] wp_deaf_ack)
  moreover have "?D (cmd_set_stop e sock)" using assms
    by (auto simp: cmd_set_stop_def enable_data_source_def intro!: wp_deaf_ack)
  moreover have "?D (cmd_set_rtc e sock)" using assms(2)
    by (auto simp: cmd_set_rtc_def intro!: wp_mono [OF wp_deaf_set_datetime [where ss = ss]] wp_mono [OF wp_deaf_ack [where ss = ss]]
        wp_deaf_set_pl_clock)
  moreover have "?D (cmd_get_rtc e sock)" using assms by (simp add: cmd_get_rtc_def Let_def)
  moreover have "?D (cmd_choose_source e sock)" using assms
    by (auto simp: cmd_choose_source_def select_data_source_def intro!: wp_deaf_ack)
  moreover have "?D (cmd_threshold e sock)" using assms by (auto simp: cmd_threshold_def intro!: wp_deaf_ack)
  moreover have "?D (cmd_version e sock)" using assms(2)
    by (auto simp: cmd_version_def Let_def intro!: wp_mono [OF wp_deaf_connect_check [where ss = ss]])
  moreover have "?D (cmd_file_info e sock)" using assms(2)
    by (auto simp: cmd_file_info_def Let_def intro!: wp_mono [OF wp_deaf_file_count(1) [where ss = ss]])
  ultimately show ?thesis using assms(2) by (simp add: dispatch_def)
qed

lemma wp_deaf_statfs: "deaf ss u \<Longrightarrow> wp (read_statfs e) (\<lambda>_ t. deaf ss t) A u"
  by (simp add: read_statfs_def)

lemma wp_deaf_disk:
  "gpio_up e \<Longrightarrow> deaf ss u \<Longrightarrow> wp (disk_warning e) (\<lambda>_ t. deaf ss t) A u"
  "gpio_up e \<Longrightarrow> deaf ss u \<Longrightarrow> wp (disk_state e) (\<lambda>_ t. deaf ss t) A u"
  by (simp_all add: disk_warning_def disk_state_def enable_data_source_def)

lemma wp_deaf_receive: "deaf ss u \<Longrightarrow> wp (receive e sock) (\<lambda>_ t. deaf ss t) (\<lambda>_. True) u"
  by (simp add: receive_def)

lemma wp_deaf_body:
  assumes "gpio_up e" and "deaf ss u"
  shows "wp (process_conn_server_body e sock) (\<lambda>_ t. deaf ss t) (\<lambda>_. True) u"
  using assms unfolding process_conn_server_body_def wp_bindR wp_statement(3,4)
  by (auto intro!: wp_mono [OF wp_deaf_statfs [where ss = ss]] wp_mono [OF wp_deaf_disk(1) [where ss = ss]]
      wp_mono [OF wp_deaf_disk(2) [where ss = ss]] wp_mono [OF wp_deaf_receive [where ss = ss]]
      wp_mono [OF wp_deaf_dispatch [where ss = ss]])

lemma deaf_server:
  "process_conn_server n e sock s = Ok r t \<Longrightarrow> gpio_up e \<Longrightarrow> deaf ss s \<Longrightarrow> deaf ss t"
proof (induction n arbitrary: s)
  case 0
  then show ?case by simp
next
  case (Suc n)
  then obtain q v where v: "process_conn_server_body e sock s = Ok q v"
    by (auto split: result.splits)
  then have "deaf ss v" using wp_Ok [OF wp_deaf_body [OF Suc.prems(2,3)]] by blast
  with Suc v show ?case by (auto split: result.splits if_splits bool.splits)
qed

section \<open>The accept loop\<close>

text \<open>What the parent does for an answer \<open>r\<close> of \<open>accept\<close>, and the answers so far.\<close>

definition connection :: "int \<Rightarrow> int \<Rightarrow> event list" where
  "connection ss r = Net (Accept ss) # (if r < 0 then [] else [Net Fork, Close r])"

primrec answer_of :: "int \<Rightarrow> entry \<Rightarrow> int list" where
  "answer_of ss (Pair c rd) = (if c = Net (Accept ss) then [fst rd] else [])"

definition answers :: "int \<Rightarrow> history \<Rightarrow> int list" where
  "answers ss h = concat (map (answer_of ss) h)"

lemma answers_simps [simp]:
  "answers ss (h @ h') = answers ss h @ answers ss h'" "answers ss [] = []"
  "answers ss (x # h) = answer_of ss x @ answers ss h"
  by (simp_all add: answers_def)

lemma wp_parent:
  assumes "\<forall>h. k_ret e h (Net Fork) \<noteq> 0"
  shows "wp (net_accept n f e ss) (\<lambda>_ t. bram_ps t = bram_ps s \<and> machine.more t = machine.more s \<and>
    (\<exists>r. answers ss (hist t) = answers ss (hist s) @ [r] \<and>
      map fst (hist t) = map fst (hist s) @ connection ss r)) (\<lambda>_. False) s"
  using assms by (simp add: net_accept_def connection_def)

lemma deaf_child:
  assumes "gpio_up e" and "\<forall>h. k_ret e h (Net Fork) = 0" and "0 \<le> k_ret e (hist s) (Net (Accept ss))"
    and "net_accept n f e ss s = Ok () t"
  shows "deaf ss t"
proof -
  let ?s = "\<lambda>u :: 'a tcp_state_scheme. u\<lparr>sfs := f, buffer := replicate BUFFERSIZE 0, start_record := 0, new_file := 0\<rparr>"
  let ?a = "emit (Net (Accept ss)) (k_ret e (hist s) (Net (Accept ss))) (k_data e (hist s) (Net (Accept ss))) s"
  let ?b = "emit (Net Fork) 0 (k_data e (hist ?a) (Net Fork)) ?a"
  let ?c = "emit (Close ss) (k_ret e (hist ?b) (Close ss)) (k_data e (hist ?b) (Close ss)) ?b"
  have "process_conn_server n e (k_ret e (hist s) (Net (Accept ss))) (?s ?c) = Ok False t"
    using assms(2-4)
    by (auto simp: net_accept_def run_simps syscall_def sysdo_def process_conn_enter_def not_less [symmetric]
        split: result.splits if_splits)
  moreover have "deaf ss (?s ?c)" by (simp add: deaf_def)
  ultimately show ?thesis using deaf_server assms(1) by blast
qed

lemma wp_orphan:
  assumes "accept_listens e ss" and "deaf ss s"
  shows "wp (net_accept n f e ss) (\<lambda>_ t. deaf ss t \<and> bram_ps t = bram_ps s \<and>
    map fst (hist t) = map fst (hist s) @ [Net (Accept ss)]) (\<lambda>_. False) s"
  using assms by (simp add: net_accept_def accept_listens_def deaf_def)

lemma orphan_iter:
  fixes s :: "'a tcp_state_scheme"
  assumes "accept_listens e ss" and "deaf ss s"
  shows "\<exists>t. iterR k (net_accept n f e ss) s = Ok () t \<and> bram_ps t = bram_ps s \<and>
    map fst (hist t) = map fst (hist s) @ replicate k (Net (Accept ss))"
  using assms(2)
proof (induction k arbitrary: s)
  case 0
  then show ?case by simp
next
  case (Suc k)
  obtain u where u: "net_accept n f e ss s = Ok () u" "deaf ss u" "bram_ps u = bram_ps s"
      "map fst (hist u) = map fst (hist s) @ [Net (Accept ss)]"
    using wp_returns [OF wp_orphan [OF assms(1) Suc.prems]] by blast
  with Suc.IH [OF u(2)] show ?case by auto
qed

section \<open>A concrete server\<close>

text \<open>
  \<open>accept\<close> returns 5 on a listening socket, \<open>fork\<close> returns \<open>pid\<close>, and clients disconnect at once.
\<close>

definition env_serving :: "int \<Rightarrow> env" where
  "env_serving pid = env0\<lparr>k_ret := (\<lambda>h c. case c of
     Net m \<Rightarrow> (case m of Accept g \<Rightarrow> if g \<in> listening h then 5 else -1 | Fork \<Rightarrow> pid | _ \<Rightarrow> ret0 h c)
   | Read g m \<Rightarrow> 0 | _ \<Rightarrow> ret0 h c)\<rparr>"

lemma gpio_up_serving: "gpio_up (env_serving pid)"
  by (simp add: gpio_up_def env_serving_def)

lemma accept_listens_serving: "accept_listens (env_serving pid) ss"
  by (simp add: accept_listens_def env_serving_def)

text \<open>Socket 3 listens.\<close>

definition tcp_listening :: tcp_state where
  "tcp_listening = tcp0\<lparr>hist := [(Net (Listen 3 2), 0, [])]\<rparr>"

lemma body_ends:
  assumes "gpio_up e" and "\<forall>h. k_ret e h (Read sock 1024) = 0"
  shows "wp (process_conn_server_body e sock) (\<lambda>ok _. \<not> ok) (\<lambda>_. False) s"
proof -
  have "wp (bindR (seqR [disk_warning e, disk_state e]) (\<lambda>_. bindR (receive e sock) (\<lambda>sz.
      if sz = 0 then ret False else bindR (dispatch e sock) (\<lambda>_. ret True)))) (\<lambda>ok _. \<not> ok) (\<lambda>_. False) u"
    for u :: "'a tcp_state_scheme"
    unfolding wp_bindR
    by (rule wp_mono [OF wp_disk [OF assms(1), where sock = sock]]) (use assms(2) in \<open>simp_all add: receive_def\<close>)
  then show ?thesis
    unfolding process_conn_server_body_def wp_bindR by (simp add: read_statfs_def)
qed

lemma child_returns:
  "wp (net_accept 1 f (env_serving 0) 3) (\<lambda>_ _. True) (\<lambda>_. False) tcp_listening"
proof -
  have "wp (process_conn_server 1 (env_serving 0) 5) (\<lambda>ok _. \<not> ok) (\<lambda>_. False) s" for s :: tcp_state
    using wp_total [OF body_ends [OF gpio_up_serving [of 0], of 5 s]]
    by (auto simp: env_serving_def wp_def)
  then have "wp (process_conn_server 1 (env_serving 0) 5) (\<lambda>ok. wp (if ok then abort_with Hang else ret ())
      (\<lambda>_ _. True) (\<lambda>_. False)) (\<lambda>_. False) s" for s :: tcp_state
    by (rule wp_mono) auto
  moreover have "k_ret (env_serving 0) (hist tcp_listening) (Net (Accept 3)) = 5"
      "\<And>h. k_ret (env_serving 0) h (Net Fork) = 0"
    by (simp_all add: env_serving_def tcp_listening_def listening_def)
  ultimately show ?thesis
    by (simp add: net_accept_def process_conn_enter_def)
qed

section \<open>Properties\<close>

text \<open>The parent only dispatches: in any number of iterations it forks once for every client it
  accepts and closes its copy of the connection before it accepts the next; it never touches the
  BRAM, and a failing \<open>accept\<close> or \<open>fork\<close> does not end it.\<close>

theorem parent_dispatches:
  fixes s :: "'a tcp_state_scheme"
  assumes "\<forall>h. k_ret e h (Net Fork) \<noteq> 0"
  shows "\<exists>t rs. iterR k (net_accept n f e ss) s = Ok () t \<and> length rs = k \<and>
    answers ss (hist t) = answers ss (hist s) @ rs \<and>
    map fst (hist t) = map fst (hist s) @ concat (map (connection ss) rs) \<and>
    bram_ps t = bram_ps s \<and> machine.more t = machine.more s"
proof (induction k arbitrary: s)
  case 0
  then show ?case by simp
next
  case (Suc k)
  obtain u r where u: "net_accept n f e ss s = Ok () u" "bram_ps u = bram_ps s"
      "machine.more u = machine.more s" "answers ss (hist u) = answers ss (hist s) @ [r]"
      "map fst (hist u) = map fst (hist s) @ connection ss r"
    using wp_returns [OF wp_parent [OF assms]] by blast
  obtain t rs where t: "iterR k (net_accept n f e ss) u = Ok () t" "length rs = k"
      "answers ss (hist t) = answers ss (hist u) @ rs"
      "map fst (hist t) = map fst (hist u) @ concat (map (connection ss) rs)"
      "bram_ps t = bram_ps u" "machine.more t = machine.more u"
    using Suc by blast
  show ?case
    by (rule exI [of _ t], rule exI [of _ "r # rs"]) (use u t in simp)
qed

theorem parent_dispatches_witness:
  "\<exists>t rs. iterR 3 (net_accept 1 (k_statfs env0 []) (env_serving 7) 3) tcp0 = Ok () t \<and> length rs = 3 \<and>
    map fst (hist t) = concat (map (connection 3) rs)"
  using parent_dispatches [of "env_serving 7" 3 1 "k_statfs env0 []" 3 tcp0] by (auto simp: env_serving_def)

text \<open>C28: a child never ends: when its client has disconnected it goes on in the loop of the server,
  where \<open>accept\<close> on the socket it has closed fails for ever, without a pause.\<close>

theorem child_never_ends:
  assumes "gpio_up e" and "accept_listens e ss" and "\<forall>h. k_ret e h (Net Fork) = 0"
    and "0 \<le> k_ret e (hist s) (Net (Accept ss))" and "net_accept n f e ss s = Ok () t"
  shows "\<exists>u. iterR k (net_accept n f e ss) t = Ok () u \<and>
    map fst (hist u) = map fst (hist t) @ replicate k (Net (Accept ss))"
  using orphan_iter [OF assms(2) deaf_child [OF assms(1,3-5)]] by blast

theorem child_never_ends_witness:
  "\<exists>t u. net_accept 1 (k_statfs env0 []) (env_serving 0) 3 tcp_listening = Ok () t \<and>
    iterR 7 (net_accept 1 (k_statfs env0 []) (env_serving 0) 3) t = Ok () u \<and>
    map fst (hist u) = map fst (hist t) @ replicate 7 (Net (Accept 3))"
proof -
  obtain t where t: "net_accept 1 (k_statfs env0 []) (env_serving 0) 3 tcp_listening = Ok () t"
    using wp_returns [OF child_returns] by blast
  have "0 \<le> k_ret (env_serving 0) (hist tcp_listening) (Net (Accept 3))"
    by (simp add: env_serving_def tcp_listening_def listening_def)
  from child_never_ends [OF gpio_up_serving accept_listens_serving _ this t, of 7] t show ?thesis
    by (auto simp: env_serving_def)
qed

end
