(* ===== verification/Store_System.thy ===== *)
theory Store_System
  imports Concurrent Store_Control Tcp_Server
begin

text \<open>
  The recorder as a whole: its threads and its clients taking turns on one state.  Channels 0
  and 1, the index, the slicing control, the heartbeat and the server are threads of one
  process and share its descriptors; the clients are served by processes of their own, which
  share nothing but the BRAM.
\<close>

section \<open>The actors\<close>

datatype actor = Channel0 | Channel1 | Index | Control | Heartbeat | Server | Client

text \<open>
  \<open>ss\<close> is the socket the server listens on, \<open>hb\<close> the descriptor of the heartbeat's serial port.
  The server's globals are those of tcp_process.c, which the recorders do not use.  A client
  may do to the BRAM whatever it likes.
\<close>

fun system_step ::
  "env \<Rightarrow> int \<Rightarrow> int \<Rightarrow> actor \<Rightarrow> 'm store_state_scheme \<Rightarrow> 'm store_state_scheme \<Rightarrow> bool" where
  "system_step e ss hb Channel0 s t = (chan_recv_body e 0 s = Ok () t)"
| "system_step e ss hb Channel1 s t = (chan1_recv_body e 1 s = Ok () t)"
| "system_step e ss hb Index s t = (index_recv_body e s = Ok () t)"
| "system_step e ss hb Control s t = (store_control e s = Ok () t)"
| "system_step e ss hb Heartbeat s t = (heartbeat_beat e hb s = Ok () t)"
| "system_step e ss hb Server s t = (\<exists>n f u v :: tcp_state. hist u = hist s \<and> bram_ps u = bram_ps s \<and>
     net_accept n f e ss u = Ok () v \<and> t = s\<lparr>hist := hist v, bram_ps := bram_ps v\<rparr>)"
| "system_step e ss hb Client s t = (\<exists>h m. (\<forall>x \<in> set h. quiet (fst x)) \<and>
     t = s\<lparr>hist := hist s @ h, bram_ps := m\<rparr>)"

text \<open>
  No open file is held by two threads, no engine is shared, and the kernel has handed out no
  descriptor that was open.
\<close>

definition apart :: "int \<Rightarrow> 'm store_state_scheme \<Rightarrow> bool" where
  "apart hb s \<longleftrightarrow> (\<forall>f \<in> open_fds (hist s). count_list [mn_fd s, ls_file s, sy_file s, hb] f \<le> 1) \<and>
     mn_dma s \<noteq> ls_dma s \<and> fresh_hist (hist s)"

lemma apart_owner:
  assumes "apart hb s" and "f \<in> open_fds (hist s)"
  shows "f = mn_fd s \<Longrightarrow> f \<noteq> ls_file s \<and> f \<noteq> sy_file s \<and> f \<noteq> hb"
    and "f = ls_file s \<Longrightarrow> f \<noteq> mn_fd s \<and> f \<noteq> sy_file s \<and> f \<noteq> hb"
    and "f = sy_file s \<Longrightarrow> f \<noteq> mn_fd s \<and> f \<noteq> ls_file s \<and> f \<noteq> hb"
proof -
  have "count_list [mn_fd s, ls_file s, sy_file s, hb] f \<le> 1" using assms by (simp add: apart_def)
  then show "f = mn_fd s \<Longrightarrow> f \<noteq> ls_file s \<and> f \<noteq> sy_file s \<and> f \<noteq> hb"
    "f = ls_file s \<Longrightarrow> f \<noteq> mn_fd s \<and> f \<noteq> sy_file s \<and> f \<noteq> hb"
    "f = sy_file s \<Longrightarrow> f \<noteq> mn_fd s \<and> f \<noteq> ls_file s \<and> f \<noteq> hb" by (auto split: if_splits)
qed

section \<open>What each thread guarantees\<close>

declare One_nat_def [simp del]

lemma mn_inv_open:
  assumes "mn_inv s"
  shows "gMutexDma s = 0" and "mn_recording s \<longrightarrow> mn_fd s \<in> open_fds (hist s)"
  using assms by (auto simp: mn_inv_def mn_inv_upto_def mn_stream_def)

lemma mn_guarantee:
  assumes "chan_recv_body e 0 s = Ok () t" and "recorder_env e" and "mn_inv s" and "sy_inv s"
    and "apart hb s" and "apart hb t"
  shows "ls_rely s t \<and> sy_rely s t"
proof -
  have "ls_dma s \<noteq> mn_dma s" using assms(5) by (simp add: apart_def)
  then have p: "mn_part f (ls_dma s) s t" for f
    by (rule wp_Ok [OF wp_mn_part [OF assms(2,3)] assms(1)])
  have eq: "ls t = ls s" "sy t = sy s" "rxmem t 1 = rxmem s 1" "axidma t = axidma s" "gMutexDma t = 0"
      "chan0_indexed t = chan0_indexed s" "chan0_index_alt t = chan0_index_alt s"
      "dma_within (ls_dma s) n (hist t) = dma_within (ls_dma s) n (hist s)" for n
    using p [of 0] by (simp_all add: mn_part_def)
  have kept: "left_alone f (ls_dma s) (hist s) (hist t)" if "f \<in> open_fds (hist s)" "f \<noteq> mn_fd s" for f
    using p [of f] that assms(6) by (simp add: mn_part_def apart_def)
  have ls: "left_alone (ls_file s) (ls_dma s) (hist s) (hist t)" if "ls_file s \<in> open_fds (hist s)"
    using that apart_owner(2) [OF assms(5) that] by (simp add: kept)
  have sy: "sy_file s \<in> open_fds (hist t)" if "sy_file s \<in> open_fds (hist s)"
    using that apart_owner(3) [OF assms(5) that] kept [of "sy_file s"] by (simp add: left_alone_def)
  have "ls_file s \<in> open_fds (hist s)" if "ls_file s \<in> open_fds (hist t)"
    using p [of 0] that apart_owner(2) [OF assms(6) that] by (auto simp: mn_part_def eq)
  with ls sy show ?thesis
    by (simp add: ls_rely_def ls_is_open_def sy_rely_def sy_recording_def eq left_alone_def)
qed

lemma ls_guarantee:
  assumes "chan1_recv_body e 1 s = Ok () t" and "ls_inv s" and "mn_inv s" and "apart hb s" and "apart hb t"
  shows "mn_rely s t \<and> sy_rely s t"
proof -
  have "mn_dma s \<noteq> ls_dma s" using assms(4) by (simp add: apart_def)
  then have p: "ls_part f (mn_dma s) s t" for f
    by (rule wp_Ok [OF wp_ls_part [OF assms(2)] assms(1)])
  have eq: "mn t = mn s" "sy t = sy s" "rxmem t 0 = rxmem s 0" "axidma t = axidma s" "gMutexDma t = 0"
      "chan_stored t 0 = chan_stored s 0" "chan_slice_alt t = chan_slice_alt s" "st_fd t = st_fd s"
      "chan0_indexed t = chan0_indexed s" "chan0_index_alt t = chan0_index_alt s"
      "dma_within (mn_dma s) n (hist t) = dma_within (mn_dma s) n (hist s)" for n
    using p [of 0] by (simp_all add: ls_part_def)
  have kept: "left_alone f (mn_dma s) (hist s) (hist t)" if "f \<in> open_fds (hist s)" "f \<noteq> ls_file s" for f
    using p [of f] that assms(5) by (simp add: ls_part_def apart_def)
  have "left_alone (mn_fd s) (mn_dma s) (hist s) (hist t)" if "mn_fd s \<in> open_fds (hist s)"
    using that apart_owner(1) [OF assms(4) that] by (simp add: kept)
  moreover have "sy_file s \<in> open_fds (hist t)" if "sy_file s \<in> open_fds (hist s)"
    using that apart_owner(3) [OF assms(4) that] kept [of "sy_file s"] by (simp add: left_alone_def)
  ultimately show ?thesis using mn_inv_open [OF assms(3)]
    by (simp add: mn_rely_def mn_recording_def sy_rely_def sy_recording_def eq left_alone_def)
qed

lemma sy_guarantee:
  assumes "index_recv_body e s = Ok () t" and "sy_inv s" and "mn_inv s" and "apart hb s" and "apart hb t"
  shows "mn_rely s t \<and> ls_rely s t"
proof -
  have p: "sy_part f d s t" for f d
    by (rule wp_Ok [OF wp_sy_part [OF assms(2)] assms(1)])
  have eq: "mn t = mn s" "ls t = ls s" "rxmem t = rxmem s" "axidma t = axidma s" "gMutexDma t = 0"
      "chan_stored t = chan_stored s" "chan_slice_alt t = chan_slice_alt s" "st_fd t = st_fd s"
      "dma_within d n (hist t) = dma_within d n (hist s)" for n d
    using p [of 0 d] mn_inv_open [OF assms(3)] by (simp_all add: sy_part_def)
  have kept: "left_alone f d (hist s) (hist t)" if "f \<in> open_fds (hist s)" "f \<noteq> sy_file s" for f d
    using p [of f d] that assms(5) by (simp add: sy_part_def apart_def)
  have "left_alone (mn_fd s) d (hist s) (hist t)" if "mn_fd s \<in> open_fds (hist s)" for d
    using that apart_owner(1) [OF assms(4) that] by (simp add: kept)
  moreover have "left_alone (ls_file s) d (hist s) (hist t)" if "ls_file s \<in> open_fds (hist s)" for d
    using that apart_owner(2) [OF assms(4) that] by (simp add: kept)
  moreover have "ls_file s \<in> open_fds (hist s)" if "ls_file s \<in> open_fds (hist t)"
    using p [of 0 0] that apart_owner(2) [OF assms(5) that] by (auto simp: sy_part_def)
  ultimately show ?thesis using mn_inv_open [OF assms(3)]
    by (simp add: mn_rely_def mn_recording_def ls_rely_def ls_is_open_def eq left_alone_def)
qed

text \<open>A step that leaves the variables alone and disturbs no file of the recorders.\<close>

lemma onlooker_guarantee:
  assumes "machine.more t = machine.more s" and "mn_inv s" and "apart hb s"
    and "\<And>f d. f \<in> open_fds (hist s) \<Longrightarrow> f \<noteq> hb \<Longrightarrow> left_alone f d (hist s) (hist t)"
    and "open_fds (hist t) \<subseteq> open_fds (hist s)"
    and "\<And>d n. dma_within d n (hist t) = dma_within d n (hist s)"
  shows "mn_rely s t \<and> ls_rely s t \<and> sy_rely s t"
proof -
  note same = same_globals [OF assms(1)]
  have rec: "mn_recording t = mn_recording s" "sy_recording t = sy_recording s"
    unfolding mn_recording_def sy_recording_def same by simp_all
  note mn_inv_open [OF assms(2)]
  moreover have "left_alone f d (hist s) (hist t)"
    if "f \<in> open_fds (hist s)" "f \<in> {mn_fd s, ls_file s, sy_file s}" for f d
    using that apart_owner [OF assms(3) that(1)] assms(4) by blast
  ultimately show ?thesis using assms(5,6)
    unfolding mn_rely_def ls_rely_def sy_rely_def ls_is_open_def rec same left_alone_def
    by auto
qed

lemma heartbeat_guarantee:
  assumes "heartbeat_beat e hb s = Ok () t" and "mn_inv s" and "apart hb s"
  shows "mn_rely s t \<and> ls_rely s t \<and> sy_rely s t"
proof -
  have "wp (heartbeat_beat e hb) (\<lambda>_ t. machine.more t = machine.more s \<and> open_fds (hist t) = open_fds (hist s) \<and>
      (\<forall>f d. f \<in> open_fds (hist s) \<longrightarrow> f \<noteq> hb \<longrightarrow> left_alone f d (hist s) (hist t)) \<and>
      (\<forall>d n. dma_within d n (hist t) = dma_within d n (hist s))) (\<lambda>_. True) s"
    by (simp add: heartbeat_beat_def serial_send_def left_alone_def hist_simps)
  note t = wp_Ok [OF this assms(1)]
  show ?thesis by (rule onlooker_guarantee [OF _ assms(2,3)]) (use t in auto)
qed

text \<open>The process of the server is the parent of those that serve clients.\<close>

definition forks :: "env \<Rightarrow> bool" where
  "forks e \<longleftrightarrow> (\<forall>h. k_ret e h (Net Fork) \<noteq> 0)"

lemma server_guarantee:
  assumes "system_step e ss hb Server s t" and "forks e" and "mn_inv s" and "apart hb s" and "apart hb t"
  shows "mn_rely s t \<and> ls_rely s t \<and> sy_rely s t"
proof -
  obtain n f and u v :: tcp_state where u: "hist u = hist s" "net_accept n f e ss u = Ok () v"
      and t: "t = s\<lparr>hist := hist v, bram_ps := bram_ps v\<rparr>"
    using assms(1) by auto
  have "wp (net_accept n f e ss) (\<lambda>_ v. fresh_hist (hist v) \<longrightarrow> open_fds (hist v) = open_fds (hist u) \<and>
      (\<forall>f d. f \<in> open_fds (hist u) \<longrightarrow> left_alone f d (hist u) (hist v)) \<and>
      (\<forall>d n. dma_within d n (hist v) = dma_within d n (hist u))) (\<lambda>_. True) u"
    using assms(2) by (auto simp: net_accept_def forks_def left_alone_def hist_simps)
  note v = wp_Ok [OF this u(2)]
  have "fresh_hist (hist v)" using assms(5) by (simp add: apart_def t)
  with v show ?thesis
    by (intro onlooker_guarantee [OF _ assms(3,4)]) (simp_all add: t u(1))
qed

lemma client_guarantee:
  assumes "system_step e ss hb Client s t" and "mn_inv s" and "apart hb s"
  shows "mn_rely s t \<and> ls_rely s t \<and> sy_rely s t"
proof -
  obtain h m where h: "\<forall>x \<in> set h. quiet (fst x)" "t = s\<lparr>hist := hist s @ h, bram_ps := m\<rparr>"
    using assms(1) by auto
  show ?thesis
    by (rule onlooker_guarantee [OF _ assms(2,3)]) (simp_all add: h quiet_views left_alone_def)
qed

section \<open>The system\<close>

definition recorders :: "actor set" where
  "recorders = {Channel0, Channel1, Index}"

fun recorder_body :: "env \<Rightarrow> actor \<Rightarrow> ('m store_state_scheme, unit) prog" where
  "recorder_body e Channel0 = chan_recv_body e 0"
| "recorder_body e Channel1 = chan1_recv_body e 1"
| "recorder_body e Index = index_recv_body e"
| "recorder_body e _ = ret ()"

fun recorder_rely :: "actor \<Rightarrow> 'm store_state_scheme \<Rightarrow> 'm store_state_scheme \<Rightarrow> bool" where
  "recorder_rely Channel0 = mn_rely"
| "recorder_rely Channel1 = ls_rely"
| "recorder_rely Index = sy_rely"
| "recorder_rely _ = (\<lambda>_ _. True)"

definition system_env :: "env \<Rightarrow> bool" where
  "system_env e \<longleftrightarrow> recorder_env e \<and> index_env e \<and> forks e"

fun recorder_inv :: "env \<Rightarrow> actor \<Rightarrow> 'm store_state_scheme \<Rightarrow> bool" where
  "recorder_inv e Channel0 s = (system_env e \<and> mn_inv s)"
| "recorder_inv e Channel1 s = (system_env e \<and> ls_inv s)"
| "recorder_inv e Index s = (system_env e \<and> sy_inv s)"
| "recorder_inv e _ s = True"

lemma recorder_loops:
  assumes "j \<in> recorders"
  shows "rely_loop (recorder_body e j :: ('m store_state_scheme, unit) prog) (recorder_rely j) (recorder_inv e j)"
proof -
  have "rely_loop (recorder_body e Channel0 :: ('m store_state_scheme, unit) prog) (recorder_rely Channel0)
      (recorder_inv e Channel0)"
    by unfold_locales (auto simp: system_env_def dest: wp_Ok [OF wp_chan_recv_body] intro: mn_rely_inv)
  moreover have "rely_loop (recorder_body e Channel1 :: ('m store_state_scheme, unit) prog) (recorder_rely Channel1)
      (recorder_inv e Channel1)"
    by unfold_locales (auto simp: system_env_def dest: wp_Ok [OF wp_chan1_recv_body] intro: ls_rely_inv)
  moreover have "rely_loop (recorder_body e Index :: ('m store_state_scheme, unit) prog) (recorder_rely Index)
      (recorder_inv e Index)"
    by unfold_locales (auto simp: system_env_def dest: wp_Ok [OF wp_index_recv_body] intro: sy_rely_inv)
  ultimately show ?thesis using assms by (auto simp: recorders_def)
qed

lemma system_guarantee:
  assumes "apart hb s" and "apart hb t" and "\<And>k. k \<in> recorders \<Longrightarrow> recorder_inv e k s"
    and "system_step e ss hb i s t" and "j \<in> recorders" and "j \<noteq> i"
  shows "recorder_rely j s t"
proof -
  have inv: "system_env e" "mn_inv s" "ls_inv s" "sy_inv s"
    using assms(3) [of Channel0] assms(3) [of Channel1] assms(3) [of Index] by (simp_all add: recorders_def)
  have env: "recorder_env e" "forks e" using inv(1) by (simp_all add: system_env_def)
  have fresh: "fresh_hist (hist t)" using assms(2) by (simp add: apart_def)
  consider "i = Channel0" | "i = Channel1" | "i = Index" | "mn_rely s t \<and> ls_rely s t \<and> sy_rely s t"
  proof (cases i)
    case Control
    with control_relies [OF _ inv(2) fresh] assms(4) that(4) show ?thesis by simp
  next
    case Heartbeat
    with heartbeat_guarantee [OF _ inv(2) assms(1)] assms(4) that(4) show ?thesis by simp
  next
    case Server
    with server_guarantee [OF _ env(2) inv(2) assms(1,2)] assms(4) that(4) show ?thesis by metis
  next
    case Client
    with client_guarantee [OF _ inv(2) assms(1)] assms(4) that(4) show ?thesis by metis
  qed (use that in blast)+
  then show ?thesis
  proof cases
    case 1
    with assms(4-6) mn_guarantee [OF _ env(1) inv(2,4) assms(1,2)] show ?thesis by (auto simp: recorders_def)
  next
    case 2
    with assms(4-6) ls_guarantee [OF _ inv(3,2) assms(1,2)] show ?thesis by (auto simp: recorders_def)
  next
    case 3
    with assms(4-6) sy_guarantee [OF _ inv(4,2) assms(1,2)] show ?thesis by (auto simp: recorders_def)
  next
    case 4
    with assms(5) show ?thesis by (auto simp: recorders_def)
  qed
qed

interpretation recorder_system: parallel "system_step e ss hb" "apart hb" recorders "recorder_body e"
    recorder_rely "recorder_inv e" for e ss hb
proof (rule parallel.intro)
  show "rely_loop (recorder_body e j) (recorder_rely j) (recorder_inv e j)" if "j \<in> recorders" for j
    using that by (rule recorder_loops)
  show "recorder_body e j s = Ok () t" if "j \<in> recorders" "system_step e ss hb j s t" for j
    and s t :: "'a store_state_scheme"
    using that by (auto simp: recorders_def)
qed (rule system_guarantee)

lemma recorder_system_inv:
  assumes "system_env e" and "mn_begin s" and "ls_begin s" and "sy_begin s" and "k \<in> recorders"
  shows "recorder_inv e k s"
  using assms by (auto simp: recorders_def intro: mn_begin_inv ls_begin_inv sy_begin_inv)

lemma system_invs:
  assumes "system_env e" and "mn_begin s" and "ls_begin s" and "sy_begin s"
    and "schedule (system_step e ss hb) (apart hb) s t"
  shows "mn_inv t \<and> ls_inv t \<and> sy_inv t"
proof -
  have inv: "recorder_inv e j t" if "j \<in> recorders" for j
    using recorder_system.schedule_threads [OF assms(5) recorder_system_inv [OF assms(1-4)] that] by blast
  from inv [of Channel0] inv [of Channel1] inv [of Index] show ?thesis by (simp add: recorders_def)
qed

section \<open>A run of the system\<close>

definition env_run :: env where
  "env_run = env_on\<lparr>k_ret := (\<lambda>h c. if c = Net Fork then 1 else ret0 h c)\<rparr>"

definition store1 :: store_state where
  "store1 = store0\<lparr>axidma := map (\<lambda>a. a\<lparr>dma_fd := 7 + dma_num a\<rparr>) axidma_init\<rparr>"

lemma env_run_simps [simp]:
  "k_ret env_run h (Open p fl m) = 3" "k_ret env_run h (Write f b) = int (length b)"
  "k_ret env_run h (Ioctl f DMA_RD off) = 0x8000" "k_data env_run = data0"
  "pl_word env_run h w i = 0x400" "k_time env_run h = (0, 0)"
  by (simp_all add: env_run_def)

lemma system_env_run: "system_env env_run"
  by (simp add: system_env_def recorder_env_def full_writes_def dma_blocks_def record_opens_def seek_ends_def
      index_env_def forks_def) (simp add: env_run_def ret0_def)

lemma store1_begin: "mn_begin store1" "ls_begin store1" "sy_begin store1"
  by (simp_all add: store1_def store0_def mn_begin_def ls_begin_def sy_begin_def mn_recording_def sy_recording_def ls_fresh_def
      ls_is_open_def dma_within_def open_fds_def axidma_init_def)

text \<open>Channel 0 opens its file and reads a first block; then a client writes to the BRAM.\<close>

lemma system_run:
  obtains t where "schedule (system_step env_run 5 9) (apart 9) store1 t" and "mn_recording t" and "mn_fd t = 3"
    and "mn_dma t = 7" and "received 7 3 (hist t) = replicate 0x8000 0" and "bram_ps t 23 = 1"
proof -
  have "wp (chan_recv_body env_run 0) (\<lambda>_ t. apart 9 t \<and> mn_recording t \<and> mn_fd t = 3 \<and> mn_dma t = 7 \<and>
     received 7 3 (hist t) = replicate 0x8000 0) (\<lambda>_. False) store1"
    by (simp add: chan_recv_body_def mn_record_def mn_open_def sprintf_fits_def gettimeofday_def
        mn_fetch_def chan_fifo_count_def mn_flush_def store_words DMA_SIZE_def wp_dma_read_one
        block_ok_def block_data_def bram_word_pl DMA_TRANS_SIZE_def DMA_PREREAD_def IFD_WRITE_MN_def store1_def
        store0_def axidma_init_def apart_def fresh_hist_def written_def received_def open_fds_def mn_recording_def
        data0_def)
  then obtain t where t: "chan_recv_body env_run 0 store1 = Ok () t" "apart 9 t" "mn_recording t" "mn_fd t = 3"
      "mn_dma t = 7" "received 7 3 (hist t) = replicate 0x8000 0"
    by (blast dest: wp_returns)
  have "apart 9 store1" by (simp add: apart_def store1_def axidma_init_def store0_def open_fds_def fresh_hist_def)
  then have run: "schedule (system_step env_run 5 9) (apart 9) store1 t"
    using t(1,2) by (intro schedule.act [OF schedule.idle, of _ _ _ Channel0]) simp_all
  let ?u = "t\<lparr>hist := hist t @ [], bram_ps := (bram_ps t)(23 := 1)\<rparr>"
  have "system_step env_run 5 9 Client t ?u"
    unfolding system_step.simps by (rule exI [of _ "[]"], rule exI [of _ "(bram_ps t)(23 := 1)"]) simp
  moreover have "apart 9 ?u" using t(2) by (simp add: apart_def)
  ultimately have "schedule (system_step env_run 5 9) (apart 9) store1 ?u"
    by (rule schedule.act [OF run])
  then show thesis by (rule that) (use t in \<open>simp_all add: mn_recording_def\<close>)
qed

section \<open>Properties\<close>

text \<open>C5: the threads compose.  Whatever turns the recorders, the slicing control, the heartbeat, the
  server and the clients take, as long as no open file is held by two threads, the run is for each
  recorder one of its own loop under interference it can rely on.\<close>

theorem system_interleaves:
  assumes "system_env e" and "mn_begin s" and "ls_begin s" and "sy_begin s"
    and "schedule (system_step e ss hb) (apart hb) s t"
  shows "interleave (chan_recv_body e 0) mn_rely s t \<and> interleave (chan1_recv_body e 1) ls_rely s t \<and>
    interleave (index_recv_body e) sy_rely s t"
proof -
  have "interleave (recorder_body e j) (recorder_rely j) s t" if "j \<in> recorders" for j
    using recorder_system.schedule_threads [OF assms(5) recorder_system_inv [OF assms(1-4)] that] by blast
  from this [of Channel0] this [of Channel1] this [of Index] show ?thesis by (simp add: recorders_def)
qed

theorem system_interleaves_witness:
  "\<exists>t. schedule (system_step env_run 5 9) (apart 9) store1 t \<and> mn_recording t \<and>
     interleave (chan_recv_body env_run 0) mn_rely store1 t"
proof -
  obtain t where t: "schedule (system_step env_run 5 9) (apart 9) store1 t" "mn_recording t" by (rule system_run)
  with system_interleaves [OF system_env_run store1_begin t(1)] show ?thesis by blast
qed

text \<open>C3: in every state such a run reaches, both channels have all they received: what the engine
  delivered since the file was opened is what the file holds followed by what waits in the
  buffer, which the engine never overran; and the index recorder, while it records, has its
  file open.\<close>

theorem system_records:
  assumes "system_env e" and "mn_begin s" and "ls_begin s" and "sy_begin s"
    and "schedule (system_step e ss hb) (apart hb) s t"
  shows "(mn_recording t \<longrightarrow> mn_fd t \<in> open_fds (hist t) \<and> received (mn_dma t) (mn_fd t) (hist t)
      = written (mn_fd t) (hist t) @ mem_bytes (rxmem t 0) 0 (mn_pending t)) \<and>
    (ls_is_open t \<longrightarrow> received (ls_dma t) (ls_file t) (hist t)
      = written (ls_file t) (hist t) @ mem_bytes (rxmem t 1) 0 (ls_pending t)) \<and>
    dma_within (mn_dma t) 0x60000 (hist t) \<and> dma_within (ls_dma t) 0x60000 (hist t) \<and>
    (sy_recording t \<longrightarrow> sy_file t \<in> open_fds (hist t))"
  using system_invs [OF assms]
  by (auto simp: mn_inv_def mn_inv_upto_def mn_stream_def ls_inv_def ls_inv_upto_def ls_stream_def sy_inv_def)

theorem system_records_witness:
  "\<exists>t. schedule (system_step env_run 5 9) (apart 9) store1 t \<and> mn_recording t \<and>
     received 7 3 (hist t) = replicate 0x8000 0 \<and>
     received 7 3 (hist t) = written 3 (hist t) @ mem_bytes (rxmem t 0) 0 (mn_pending t)"
proof -
  obtain t where t: "schedule (system_step env_run 5 9) (apart 9) store1 t" "mn_recording t" "mn_fd t = 3"
      "mn_dma t = 7" "received 7 3 (hist t) = replicate 0x8000 0" by (rule system_run)
  with system_records [OF system_env_run store1_begin t(1)] show ?thesis by metis
qed

text \<open>C34: without that condition the index can lose its file.  Channel 0 keeps the number of a file it
  has closed; when the kernel has given that number to the file of the index, a stop request
  makes channel 0 close it, and the index goes on recording into a closed descriptor.\<close>

theorem stale_stop_closes:
  assumes "mn_fd s = sy_file s" and "sy_recording s" and "bram_ps s MN_STOP_STORE = 1"
  shows "\<exists>t. chan_recv_body e 0 s = Ok () t \<and> sy_recording t \<and> sy_file t \<notin> open_fds (hist t)"
proof -
  have "wp (chan_recv_body e 0) (\<lambda>_ t. sy_recording t \<and> sy_file t \<notin> open_fds (hist t)) (\<lambda>_. False) s"
    using assms
    by (simp add: chan_recv_body_def mn_stop_def sy_recording_def store_words hist_simps)
  then show ?thesis by (blast dest: wp_returns)
qed

theorem stale_stop_closes_witness:
  "\<exists>(s :: store_state) t. hist s = [(Open ''a'' FLAGS MODE, 3, []), (Close 3, 0, []), (Open ''b'' [O_RDWR] MODE, 3, [])] \<and>
     sy_file s \<in> open_fds (hist s) \<and> chan_recv_body env_run 0 s = Ok () t \<and> sy_file t \<notin> open_fds (hist t)"
proof -
  define s where "s = store1\<lparr>hist := [(Open ''a'' FLAGS MODE, 3, []), (Close 3, 0, []),
    (Open ''b'' [O_RDWR] MODE, 3, [])], st_fd := (\<lambda>_. 3), sy := (sy store1)\<lparr>sy_fd := 3\<rparr>, chan0_index_alt := 0,
    bram_ps := (\<lambda>_. 1)\<rparr>"
  have "mn_fd s = sy_file s" "sy_recording s" "bram_ps s MN_STOP_STORE = 1"
    and "sy_file s \<in> open_fds (hist s)"
    and "hist s = [(Open ''a'' FLAGS MODE, 3, []), (Close 3, 0, []), (Open ''b'' [O_RDWR] MODE, 3, [])]"
    by (simp_all add: s_def sy_recording_def store1_def store0_def open_fds_def)
  with stale_stop_closes [OF this(1-3), of env_run] show ?thesis by blast
qed

end
