(* ===== verification/Store_Race.thy ===== *)
theory Store_Race
  imports Store_System
begin

text \<open>
  The beginning of a recording.  Channel 1 clears the word \<open>FILE_MARK\<close> when it has made a new
  name; the index and channel 0 each open their file when they see it cleared, and channel 0 sets
  it again.
\<close>

section \<open>Waiting for a new name\<close>

declare One_nat_def [simp del]

text \<open>Channel 0 and the index are armed, have the same file number, and the name is there.\<close>

definition awaiting :: "string \<Rightarrow> 'm store_state_scheme \<Rightarrow> bool" where
  "awaiting nm s \<longleftrightarrow> bram_ps s FILE_MARK = 0 \<and> bram_ps s MN_STOP_STORE \<noteq> 1 \<and> bram_ps s SY_STOP_STORE \<noteq> 1 \<and>
     chan_stored s 0 = 0 \<and> chan_slice_alt s 0 \<noteq> 0 \<and> chan_slice s 0 = 0 \<and>
     chan0_indexed s = 0 \<and> chan0_index_alt s \<noteq> 0 \<and> chan0_index s = 0 \<and>
     file_name_all s (nat (mn_file_num s mod cyc_mark)) = nm \<and>
     file_name_all s (nat (sy_file_num s mod cyc_mark)) = nm \<and> length nm < 120"

text \<open>The path each open descriptor was opened for.\<close>

primrec path_step :: "(int \<rightharpoonup> string) \<Rightarrow> entry \<Rightarrow> (int \<rightharpoonup> string)" where
  "path_step m (Pair c rd) = (case c of
     Open p fl n \<Rightarrow> m(fst rd \<mapsto> p)
   | Close f \<Rightarrow> m(f := None)
   | _ \<Rightarrow> m)"

definition paths :: "history \<Rightarrow> int \<rightharpoonup> string" where
  "paths h = foldl path_step Map.empty h"

lemma paths_append [hist_simps]: "paths (h @ h') = foldl path_step (paths h) h'"
  by (simp add: paths_def)

lemma paths_quiet:
  assumes "\<forall>x \<in> set h'. quiet (fst x)"
  shows "paths (h @ h') = paths h"
  using assms
proof (induction h' rule: rev_induct)
  case Nil
  then show ?case by simp
next
  case (snoc x h')
  obtain c r d where x: "x = (c, r, d)" by (cases x)
  with snoc have "quiet c" by simp
  with snoc x show ?case by (cases c) (simp_all add: hist_simps flip: append_assoc)
qed

section \<open>Channel 0\<close>

definition mn_opened :: "string \<Rightarrow> 'm store_state_scheme \<Rightarrow> 'm store_state_scheme \<Rightarrow> bool" where
  "mn_opened nm s t \<longleftrightarrow> mn_recording t \<and> paths (hist t) (mn_fd t) = Some (nm @ ''.bxsldmn'') \<and>
     bram_ps t = (bram_ps s)(19 := 1) \<and> chan0_index t = chan0_index s \<and> chan_slice t 0 = 0 \<and>
     (\<forall>f. f \<noteq> mn_fd t \<longrightarrow> paths (hist t) f = paths (hist s) f) \<and>
     (fresh_hist (hist t) \<longrightarrow> mn_fd t \<notin> open_fds (hist s)) \<and>
     gMutexDma t = 0 \<and> dma_num (axidma t ! 0) = 0"

lemma wp_mn_opened_fetch: "mn_opened nm s u \<Longrightarrow> wp (mn_fetch e 0) (\<lambda>_ t. mn_opened nm s t) A u"
  by (auto simp: mn_fetch_def chan_fifo_count_def DMA_SIZE_def wp_dma_read_one mn_opened_def mn_recording_def
      hist_simps)

lemma wp_mn_opened_flush: "mn_opened nm s u \<Longrightarrow> wp (mn_flush e 0) (\<lambda>_ t. mn_opened nm s t) A u"
  by (auto simp: mn_flush_def mn_write_def mn_opened_def mn_recording_def hist_simps)

lemma wp_mn_opened:
  assumes "recorder_env e" and "mn_inv s" and "bram_ps s FILE_MARK = 0" and "bram_ps s MN_STOP_STORE \<noteq> 1"
    and "chan_stored s 0 = 0" and "chan_slice_alt s 0 \<noteq> 0" and "chan_slice s 0 = 0"
    and "file_name_all s (nat (mn_file_num s mod cyc_mark)) = nm" and "length nm < 120"
  shows "wp (chan_recv_body e 0) (\<lambda>_ t. mn_opened nm s t) (\<lambda>_. False) s"
proof -
  have op: "0 \<le> k_ret e h (Open p FLAGS MODE)" "k_ret e h (Open p FLAGS MODE) < 0x80000000" for h p
    using assms(1) by (auto simp: recorder_env_def record_opens_def intro: less_imp_le)
  have inv: "gMutexDma s = 0" "dma_num (axidma s ! 0) = 0"
    using assms(2) by (simp_all add: mn_inv_def mn_inv_upto_def)
  have opn: "wp (mn_open e 0) (\<lambda>v t. v \<and> mn_opened nm s t) (\<lambda>_. False) s"
    using assms(3-) op inv
    by (simp add: mn_open_def sprintf_fits_def gettimeofday_def sint_fd mn_opened_def mn_recording_def
        store_words hist_simps)
  have rest: "wp (seqR [mn_fetch e 0, mn_flush e 0, whenR (\<lambda>s. chan_slice s 0 \<noteq> 0) (mn_cut e 0)])
      (\<lambda>_ t. mn_opened nm s t) (\<lambda>_. False) u" if "mn_opened nm s u" for u :: "'a store_state_scheme"
    unfolding wp_statement(4)
    by (rule wp_mono [OF wp_mn_opened_fetch [OF that]], rule wp_mono [OF wp_mn_opened_flush], assumption)
      (auto simp: mn_opened_def)
  have "wp (mn_record e 0) (\<lambda>_ t. mn_opened nm s t) (\<lambda>_. False) s"
    unfolding mn_record_def wp_bindR wp_ifR wp_if
    using assms(3,6) by (auto simp: store_words simp del: wp_statement intro!: wp_mono [OF opn] rest)
  with assms(4,5) show ?thesis by (simp add: chan_recv_body_def)
qed

section \<open>The index\<close>

text \<open>With no stop request and no cut, the body is the fetch, perhaps an open, and the save.\<close>

definition sy_opened :: "string \<Rightarrow> 'm store_state_scheme \<Rightarrow> 'm store_state_scheme \<Rightarrow> bool" where
  "sy_opened nm s t \<longleftrightarrow> sy_recording t \<and> paths (hist t) (sy_file t) = Some (nm @ ''.bxsldsy'') \<and>
     (\<forall>i. i \<noteq> 6 \<longrightarrow> bram_ps t i = bram_ps s i) \<and> chan0_index t = 0 \<and>
     (\<forall>f. f \<noteq> sy_file t \<longrightarrow> paths (hist t) f = paths (hist s) f)"

lemma wp_sy_opened:
  assumes "index_env e" and "sy_inv s" and "bram_ps s FILE_MARK = 0" and "bram_ps s SY_STOP_STORE \<noteq> 1"
    and "chan0_indexed s = 0" and "chan0_index_alt s \<noteq> 0" and "chan0_index s = 0"
    and "file_name_all s (nat (sy_file_num s mod cyc_mark)) = nm" and "length nm < 120"
  shows "wp (index_recv_body e) (\<lambda>_ t. sy_opened nm s t) (\<lambda>a. a = Hang) s"
proof -
  have op: "\<not> k_ret e h (Open p [O_RDWR, O_CREAT, O_TRUNC] MODE) < 0" for h p
    using assms(1) by (simp add: index_env_def not_less)
  have "wp (sy_open e) (\<lambda>v t. v \<and> sy_opened nm s t) (\<lambda>a. a = Hang) u" if u: "sy_fetched s u"
    for u :: "'a store_state_scheme"
  proof -
    from u obtain h where "hist u = hist s @ h" "\<forall>x \<in> set h. quiet (fst x)" by (auto simp: sy_fetched_def)
    then have "paths (hist u) = paths (hist s)" by (simp add: paths_quiet)
    with u assms(5-) op show ?thesis
      by (simp add: sy_open_def sprintf_fits_def sy_opened_def sy_recording_def sy_fetched_def hist_simps)
  qed
  note opn = this
  have save: "wp (seqR [sy_save e, whenR (\<lambda>s. chan0_index s = 1) (sy_cut e)])
      (\<lambda>_ t. sy_opened nm s t) (\<lambda>a. a = Hang) u" if "sy_opened nm s u" for u :: "'a store_state_scheme"
    using that by (simp add: sy_save_def sy_opened_def sy_recording_def hist_simps)
  have "wp (sy_record e) (\<lambda>_ t. sy_opened nm s t) (\<lambda>a. a = Hang) s"
    unfolding sy_record_def wp_bindR wp_ifR wp_if
    by (rule wp_mono [OF wp_sy_fetch [OF assms(2)]])
      (use assms(3,6) in \<open>auto simp: sy_fetched_def store_words simp del: wp_statement intro!: wp_mono [OF opn] save\<close>)
  with assms(4,5) show ?thesis by (simp add: index_recv_body_def)
qed

text \<open>An index recorder that has no file and finds the mark set.\<close>

definition sy_idle :: "'m store_state_scheme \<Rightarrow> 'm store_state_scheme \<Rightarrow> bool" where
  "sy_idle s t \<longleftrightarrow> sy_inv t \<and> chan0_indexed t = 0 \<and> chan0_index_alt t = chan0_index_alt s \<and>
     chan0_index t = chan0_index s \<and> sy_file t = sy_file s \<and> (\<forall>i. i \<noteq> 6 \<longrightarrow> bram_ps t i = bram_ps s i) \<and>
     (\<exists>h. hist t = hist s @ h \<and> (\<forall>x \<in> set h. quiet (fst x)))"

lemma wp_sy_idle:
  assumes "sy_inv s" and "bram_ps s FILE_MARK \<noteq> 0" and "bram_ps s SY_STOP_STORE \<noteq> 1"
    and "chan0_indexed s = 0" and "chan0_index_alt s \<noteq> 0" and "chan0_index s = 0"
  shows "wp (index_recv_body e) (\<lambda>_ t. sy_idle s t) (\<lambda>a. a = Hang) s"
proof -
  have save: "wp (seqR [sy_save e, whenR (\<lambda>s. chan0_index s = 1) (sy_cut e)])
      (\<lambda>_ t. sy_idle s t) (\<lambda>a. a = Hang) u" if u: "sy_fetched s u" for u :: "'a store_state_scheme"
  proof -
    from u obtain h where h: "hist u = hist s @ h" "\<forall>x \<in> set h. quiet (fst x)"
        "unat (sy_ret_bytes (sy u)) = length (captured h)" "captured h = [] \<or> length (captured h) = 0x2000"
      by (auto simp: sy_fetched_def)
    have "sy_ret_bytes (sy u) = 0 \<or> sy_ret_bytes (sy u) = 0x2000"
      using h(3,4) by (auto simp: word_unat_eq_iff)
    with u assms h(1,2) show ?thesis
      by (auto simp: sy_save_def sy_idle_def sy_inv_def sy_recording_def sy_fetched_def IDX_WRITE_THRESHOLD_def)
  qed
  have "wp (sy_record e) (\<lambda>_ t. sy_idle s t) (\<lambda>a. a = Hang) s"
    unfolding sy_record_def wp_bindR wp_ifR wp_if
    by (rule wp_mono [OF wp_sy_fetch [OF assms(1)]])
      (use assms(2) in \<open>auto simp: sy_fetched_def store_words simp del: wp_statement intro!: save\<close>)
  with assms(3,4) show ?thesis by (simp add: index_recv_body_def)
qed

lemma sy_idle_trans: "sy_idle s t \<Longrightarrow> sy_idle t u \<Longrightarrow> sy_idle s u"
  by (fastforce simp: sy_idle_def)

lemma sy_idles:
  assumes "sy_inv s" and "bram_ps s FILE_MARK \<noteq> 0" and "bram_ps s SY_STOP_STORE \<noteq> 1"
    and "chan0_indexed s = 0" and "chan0_index_alt s \<noteq> 0" and "chan0_index s = 0"
    and "iterR n (index_recv_body e) s = Ok () t"
  shows "sy_idle s t"
  using assms
proof (induction n arbitrary: s)
  case 0
  then show ?case by (simp add: sy_idle_def)
next
  case (Suc n)
  from Suc.prems(7) obtain u where u: "index_recv_body e s = Ok () u" "iterR n (index_recv_body e) u = Ok () t"
    by (auto split: result.splits)
  have i: "sy_idle s u" by (rule wp_Ok [OF wp_sy_idle [OF Suc.prems(1-6)] u(1)])
  have "sy_idle u t"
    by (rule Suc.IH) (use i u(2) Suc.prems(2-6) in \<open>simp_all add: sy_idle_def store_words\<close>)
  with i show ?case by (rule sy_idle_trans)
qed

section \<open>Concrete kernels\<close>

text \<open>Two descriptors; and a PL whose index buffer is full until it is acknowledged.\<close>

definition env_pair :: env where
  "env_pair = env_on\<lparr>k_ret := (\<lambda>h c. case c of
     Open p fl m \<Rightarrow> (if open_fds h = {} then 3 else 4) | _ \<Rightarrow> ret0 h c)\<rparr>"

definition env_full :: env where
  "env_full = env_pair\<lparr>polls := Suc 0, pl_word := (\<lambda>h w i. if i = 521 then
     (if \<exists>x \<in> set h. fst x = BramSt 1 6 1 then 0 else 1) else 0x400)\<rparr>"

lemma pair_env: "recorder_env env_pair" "index_env env_pair" "recorder_env env_full" "index_env env_full"
  by (simp_all add: env_full_def env_pair_def recorder_env_def index_env_def full_writes_def dma_blocks_def record_opens_def
      seek_ends_def ret0_def)

lemma awaiting_store0: "awaiting [] store0" "mn_inv store0" "sy_inv store0"
  by (simp add: awaiting_def) (auto intro: mn_begin_inv mn_begin_store0 sy_begin_inv sy_begin_store0)

definition awaiting_mn :: "'m store_state_scheme \<Rightarrow> bool" where
  "awaiting_mn s \<longleftrightarrow> bram_ps s 19 = 0 \<and> bram_ps s 23 = 0 \<and> chan_stored s 0 = 0 \<and> chan_slice_alt s 0 \<noteq> 0 \<and>
     chan_slice s 0 = 0 \<and> file_name_all s = (\<lambda>_. [])"

lemma env_pair_simps [simp]:
  "k_ret env_pair h (Open p fl m) = (if open_fds h = {} then 3 else 4)"
  "pl_word env_pair h w i = 0x400" "k_time env_pair h = (0, 0)"
  by (simp_all add: env_pair_def)

lemma ibv_val_pair [simp]: "ibv_val env_pair s = 0"
proof -
  have "ucast (0x400 :: u64) = (0 :: u8)" by code_simp
  then show ?thesis by (simp add: ibv_val_def bram_word_pl)
qed

lemma pair_first:
  "wp (index_recv_body env_pair) (\<lambda>_ t. fresh_hist (hist t) \<and> open_fds (hist t) = {3} \<and>
    dma_within 0 0x60000 (hist t) \<and> bram_ps t = (\<lambda>_. 0)) (\<lambda>_. False) store0"
  by (simp add: index_recv_body_def sy_record_def sy_fetch_def ibv_tick_def
      sy_open_def sprintf_fits_def sy_save_def IDX_WRITE_THRESHOLD_def store_words
      fresh_hist_def open_fds_def dma_within_def)

lemma pair_first_inv:
  assumes "index_recv_body env_pair store0 = Ok () t"
  shows "mn_inv t \<and> awaiting_mn t"
proof -
  have p: "sy_part f d store0 t" for f d
    by (rule wp_Ok [OF wp_sy_part [OF awaiting_store0(3)] assms])
  have "mn (store0 :: store_state) = mn store0" ..
  with p [of 0 0] wp_Ok [OF pair_first assms] show ?thesis
    by (simp add: mn_inv_def mn_inv_upto_def mn_recording_def awaiting_mn_def sy_part_def)
qed

lemma pair_second:
  assumes "fresh_hist (hist s)" and "open_fds (hist s) = {3}" and "mn_inv s" and "awaiting_mn s"
  shows "wp (chan_recv_body env_pair 0) (\<lambda>_ u. fresh_hist (hist u)) (\<lambda>_. False) s"
proof -
  have inv: "gMutexDma s = 0" "dma_num (axidma s ! 0) = 0"
    using assms(3) by (simp_all add: mn_inv_def mn_inv_upto_def)
  show ?thesis using assms inv
    by (simp add: chan_recv_body_def mn_record_def mn_open_def gettimeofday_def sprintf_fits_def awaiting_mn_def
        mn_fetch_def chan_fifo_count_def mn_flush_def mn_write_def store_words DMA_SIZE_def wp_dma_read_one
        hist_simps env_pair_def)
qed

lemma pair_run:
  "\<exists>t u. index_recv_body env_pair store0 = Ok () t \<and> chan_recv_body env_pair 0 t = Ok () u \<and> fresh_hist (hist u)"
proof -
  obtain t where t: "index_recv_body env_pair store0 = Ok () t" "fresh_hist (hist t)" "open_fds (hist t) = {3}"
      "mn_inv t" "awaiting_mn t"
    using wp_returns [OF pair_first] pair_first_inv by blast
  with wp_returns [OF pair_second [OF t(2-5)]] show ?thesis by blast
qed

definition unacked :: "'m store_state_scheme \<Rightarrow> bool" where
  "unacked s \<longleftrightarrow> captured (hist s) = [] \<and> (\<forall>x \<in> set (hist s). fst x \<noteq> BramSt 1 6 1)"

lemma full_first: "wp (chan_recv_body env_full 0) (\<lambda>_ t. unacked t \<and> chan0_indexed t = 0 \<and> chan0_index_alt t \<noteq> 0 \<and>
    chan0_index t = 0 \<and> bram_ps t 19 = 1 \<and> bram_ps t 24 = 0 \<and> sy_inv t) (\<lambda>_. False) store0"
  by (simp add: unacked_def chan_recv_body_def mn_record_def mn_open_def gettimeofday_def sprintf_fits_def mn_fetch_def
      chan_fifo_count_def mn_flush_def store_words DMA_SIZE_def wp_dma_read_one block_ok_def bram_word_pl
      DMA_TRANS_SIZE_def DMA_PREREAD_def IFD_WRITE_MN_def env_full_def env_pair_def)
    (simp add: store0_def sy_inv_def sy_recording_def)

lemma full_second:
  assumes "unacked s" and "chan0_indexed s = 0" and "chan0_index_alt s \<noteq> 0" and "chan0_index s = 0"
    and "bram_ps s 19 = 1" and "bram_ps s 24 = 0" and "sy_inv s"
  shows "wp (index_recv_body env_full) (\<lambda>_ u. length (captured (hist u)) = 0x2000) (\<lambda>_. False) s"
proof -
  have full: "polls env_full = Suc 0" "pl_word env_full h w 521 = (if \<exists>x \<in> set h. fst x = BramSt 1 6 1 then 0 else 1)" for h w
    by (simp_all add: env_full_def)
  have poll: "wp (poll_while (Suc 0) (index_buf_valid env_full)) Q A u = Q () (ibv_tick env_full u)"
    if "ibv_val env_full u = 0" for Q A and u :: "'a store_state_scheme"
    using that by (simp add: wp_def index_buf_valid_eq)
  have v: "wp (index_buf_invalid env_full) (\<lambda>_ u. length (captured (hist u)) = 0x2000 \<and>
       chan0_index_alt u \<noteq> 0 \<and> chan0_index u = 0 \<and> bram_ps u 19 = 1) (\<lambda>_. False) u"
    if "length (captured (hist u)) = 0x2000" "chan0_index_alt u \<noteq> 0" "chan0_index u = 0" "bram_ps u 19 = 1"
    for u :: "'a store_state_scheme"
    using that
    by (simp add: index_buf_invalid_def full poll ibv_val_def ibv_tick_def bram_word_pl)
  have save: "wp (seqR [sy_save env_full, whenR (\<lambda>s. chan0_index s = 1) (sy_cut env_full)])
      (\<lambda>_ u. length (captured (hist u)) = 0x2000) (\<lambda>_. False) u"
    if "length (captured (hist u)) = 0x2000" "chan0_index_alt u \<noteq> 0" "chan0_index u = 0"
    for u :: "'a store_state_scheme"
    using that by (simp add: sy_save_def)
  have fetch: "wp (sy_fetch env_full) (\<lambda>_ u. length (captured (hist u)) = 0x2000 \<and>
       chan0_index_alt u \<noteq> 0 \<and> chan0_index u = 0 \<and> bram_ps u 19 = 1) (\<lambda>_. False) s"
    using assms
    by (auto simp: sy_fetch_def BRAM_SIZE_def unacked_def ibv_val_def ibv_tick_def bram_word_pl bram_bytes_def full
        intro!: v)
  have "wp (sy_record env_full) (\<lambda>_ u. length (captured (hist u)) = 0x2000) (\<lambda>_. False) s"
    unfolding sy_record_def wp_bindR wp_ifR wp_if
    by (rule wp_mono [OF fetch]) (auto simp: store_words simp del: wp_statement intro!: save)
  with assms(2,6) show ?thesis by (simp add: index_recv_body_def store_words)
qed

lemma full_run:
  "\<exists>t u. chan_recv_body env_full 0 store0 = Ok () t \<and> index_recv_body env_full t = Ok () u \<and>
     length (captured (hist u)) = 0x2000"
proof -
  obtain t where t: "chan_recv_body env_full 0 store0 = Ok () t" "unacked t" "chan0_indexed t = 0"
      "chan0_index_alt t \<noteq> 0" "chan0_index t = 0" "bram_ps t 19 = 1" "bram_ps t 24 = 0" "sy_inv t"
    using wp_returns [OF full_first] by blast
  with wp_returns [OF full_second [OF t(2-8)]] show ?thesis by blast
qed

section \<open>Properties\<close>

text \<open>C15: when the index looks before channel 0 does, both open their file of a new recording, under the
  name channel 1 has made, and the mark is set again.\<close>

theorem recording_opens_both:
  assumes "recorder_env e" and "index_env e" and "mn_inv s" and "sy_inv s" and "awaiting nm s"
    and "index_recv_body e s = Ok () t" and "chan_recv_body e 0 t = Ok () u" and "fresh_hist (hist u)"
  shows "sy_recording u \<and> paths (hist u) (sy_file u) = Some (nm @ ''.bxsldsy'') \<and>
    mn_recording u \<and> paths (hist u) (mn_fd u) = Some (nm @ ''.bxsldmn'') \<and> bram_ps u FILE_MARK = 1"
proof -
  have w: "bram_ps s FILE_MARK = 0" "bram_ps s MN_STOP_STORE \<noteq> 1" "bram_ps s SY_STOP_STORE \<noteq> 1"
      "chan_stored s 0 = 0" "chan_slice_alt s 0 \<noteq> 0" "chan_slice s 0 = 0" "chan0_indexed s = 0"
      "chan0_index_alt s \<noteq> 0" "chan0_index s = 0" "length nm < 120"
      "file_name_all s (nat (mn_file_num s mod cyc_mark)) = nm"
      "file_name_all s (nat (sy_file_num s mod cyc_mark)) = nm"
    using assms(5) by (simp_all add: awaiting_def)
  have o: "sy_opened nm s t"
    by (rule wp_Ok [OF wp_sy_opened [OF assms(2,4) w(1,3,7,8,9,12,10)] assms(6)])
  have p: "sy_part f d s t" for f d
    by (rule wp_Ok [OF wp_sy_part [OF assms(4)] assms(6)])
  have inv: "mn_inv t"
  proof (rule mn_inv_idle [OF assms(3)])
    have "\<not> mn_recording s" using w(5) by (simp add: mn_recording_def)
    with assms(3) show "mn_pending t = 0" "\<not> mn_recording t"
      using p [of 0 0] w(5) by (simp_all add: mn_inv_def mn_inv_upto_def sy_part_def mn_recording_def)
  qed (use p in \<open>simp_all add: sy_part_def\<close>)
  have m: "mn_opened nm t u"
    by (rule wp_Ok [OF wp_mn_opened [OF assms(1) inv] assms(7)])
      (use p [of 0 0] o w in \<open>simp_all add: sy_part_def sy_opened_def store_words\<close>)
  have "sy_inv t" by (rule sy_loop.body_inv [of e s, THEN conjunct2]) (use assms in simp_all)
  with o have f: "sy_file t \<in> open_fds (hist t)" by (simp add: sy_inv_def sy_opened_def)
  with m assms(8) have "sy_file t \<noteq> mn_fd u" by (auto simp: mn_opened_def)
  moreover have "wp (chan_recv_body e 0) (\<lambda>_ u. mn_part 0 (mn_dma t + 1) t u) (\<lambda>_. True) t"
    by (rule wp_mn_part [OF assms(1) inv]) simp
  note k = wp_Ok [OF this assms(7)]
  ultimately show ?thesis using o m
    by (simp add: mn_opened_def sy_opened_def mn_part_def sy_recording_def store_words)
qed

theorem recording_opens_both_witness:
  "\<exists>t u. index_recv_body env_pair store0 = Ok () t \<and> chan_recv_body env_pair 0 t = Ok () u \<and>
     paths (hist u) (sy_file u) = Some ''.bxsldsy'' \<and> paths (hist u) (mn_fd u) = Some ''.bxsldmn''"
proof -
  obtain t u where "index_recv_body env_pair store0 = Ok () t" "chan_recv_body env_pair 0 t = Ok () u"
      "fresh_hist (hist u)"
    using pair_run by blast
  from recording_opens_both [OF pair_env(1,2) awaiting_store0(2,3,1) this] this show ?thesis by auto
qed

text \<open>C16: when channel 0 is first, the index misses the recording: it opens no file until a new name is made,
  however often it runs, and every index buffer it takes from the PL meanwhile is dropped.\<close>

theorem index_misses_recording:
  assumes "recorder_env e" and "mn_inv s" and "sy_inv s" and "awaiting nm s"
    and "chan_recv_body e 0 s = Ok () t" and "iterR n (index_recv_body e) t = Ok () u"
  shows "mn_recording t \<and> \<not> sy_recording u \<and> bram_ps u FILE_MARK = 1 \<and> sy_recv_bytes (sy u) = 0 \<and>
    (\<exists>h. hist u = hist t @ h \<and> (\<forall>x \<in> set h. quiet (fst x)))"
proof -
  have w: "bram_ps s FILE_MARK = 0" "bram_ps s MN_STOP_STORE \<noteq> 1" "bram_ps s SY_STOP_STORE \<noteq> 1"
      "chan_stored s 0 = 0" "chan_slice_alt s 0 \<noteq> 0" "chan_slice s 0 = 0" "chan0_indexed s = 0"
      "chan0_index_alt s \<noteq> 0" "chan0_index s = 0" "length nm < 120"
      "file_name_all s (nat (mn_file_num s mod cyc_mark)) = nm"
    using assms(4) by (simp_all add: awaiting_def)
  have m: "mn_opened nm s t"
    by (rule wp_Ok [OF wp_mn_opened [OF assms(1,2) w(1,2,4,5,6,11,10)] assms(5)])
  have "wp (chan_recv_body e 0) (\<lambda>_ t. mn_part 0 (mn_dma s + 1) s t) (\<lambda>_. True) s"
    by (rule wp_mn_part [OF assms(1,2)]) simp
  note k = wp_Ok [OF this assms(5)]
  have "sy_inv t" using k w(8) assms(3) by (simp add: sy_inv_def mn_part_def sy_recording_def)
  then have "sy_idle t u"
    by (rule sy_idles [OF _ _ _ _ _ _ assms(6)])
      (use k m w in \<open>simp_all add: mn_part_def mn_opened_def store_words\<close>)
  with m k w show ?thesis
    by (auto simp: sy_idle_def mn_opened_def mn_part_def sy_recording_def sy_inv_def store_words)
qed

theorem index_misses_recording_witness:
  "\<exists>t u. chan_recv_body env_full 0 store0 = Ok () t \<and> index_recv_body env_full t = Ok () u \<and>
     length (captured (hist u)) = 0x2000 \<and> \<not> sy_recording u \<and> written 9 (hist u) = written 9 (hist t)"
proof -
  obtain t u where r: "chan_recv_body env_full 0 store0 = Ok () t" "index_recv_body env_full t = Ok () u"
      "length (captured (hist u)) = 0x2000"
    using full_run by blast
  then have "iterR 1 (index_recv_body env_full) t = Ok () u" by (simp add: One_nat_def)
  from index_misses_recording [OF pair_env(3) awaiting_store0(2,3,1) r(1) this] r
  show ?thesis by (auto simp: quiet_views)
qed

end
