(* ===== verification/Directories.thy ===== *)
theory Directories
  imports Store
begin

text \<open>
  \<open>CreateDir\<close> of store.c on a file system: the directories on the way to a file exist when it
  returns 0, and when it returns -1 it has stopped at the first one that cannot be made.
\<close>

section \<open>The directories that exist\<close>

text \<open>\<open>D\<close> are the directories at the beginning; \<open>mkdir\<close> adds one when it does not return -1.\<close>

definition dir_exists :: "string set \<Rightarrow> history \<Rightarrow> string \<Rightarrow> bool" where
  "dir_exists D h q \<longleftrightarrow> q \<in> D \<or> (\<exists>x \<in> set h. \<exists>m. fst x = Mkdir q m \<and> fst (snd x) \<noteq> -1)"

lemma dir_exists_append:
  "dir_exists D (h @ h') q \<longleftrightarrow> dir_exists D h q \<or> (\<exists>x \<in> set h'. \<exists>m. fst x = Mkdir q m \<and> fst (snd x) \<noteq> -1)"
  by (auto simp: dir_exists_def)

text \<open>\<open>access\<close> finds what exists.\<close>

definition finds_dirs :: "env \<Rightarrow> string set \<Rightarrow> bool" where
  "finds_dirs e D \<longleftrightarrow> (\<forall>h q. k_ret e h (Access q 0) = 0 \<longleftrightarrow> dir_exists D h q)"

text \<open>The directories on the way to \<open>p\<close>: what comes before a slash.\<close>

definition parents :: "string \<Rightarrow> nat list \<Rightarrow> string set" where
  "parents p is = (\<lambda>i. take i p) ` {i \<in> set is. p ! i = CHR ''/''}"

lemma parents_simps [simp]:
  "parents p [] = {}"
  "parents p (i # is) = (if p ! i = CHR ''/'' then insert (take i p) (parents p is) else parents p is)"
  by (auto simp: parents_def)

section \<open>What the loop does\<close>

text \<open>From \<open>s\<close>, with result \<open>r\<close> and new state \<open>t\<close>.\<close>

definition dirs_made ::
  "string set \<Rightarrow> string set \<Rightarrow> 'm machine_scheme \<Rightarrow> int \<Rightarrow> 'm machine_scheme \<Rightarrow> bool" where
  "dirs_made D Q s r t \<longleftrightarrow> r \<in> {0, -1} \<and>
     (r = 0 \<longrightarrow> (\<forall>q \<in> Q. dir_exists D (hist t) q)) \<and>
     (r = -1 \<longrightarrow> (\<exists>q \<in> Q. \<not> dir_exists D (hist t) q \<and> fst (last (hist t)) = Mkdir q 511 \<and>
        (\<forall>q' \<in> Q. length q' < length q \<longrightarrow> dir_exists D (hist t) q'))) \<and>
     (\<forall>q. dir_exists D (hist s) q \<longrightarrow> dir_exists D (hist t) q) \<and>
     (\<forall>q. dir_exists D (hist t) q \<longrightarrow> dir_exists D (hist s) q \<or> q \<in> Q)"

lemma dirs_made_step:
  assumes "dirs_made D (parents p is) u r t" and "sorted_wrt (<) (i # is)" and "\<forall>j \<in> set (i # is). j < length p"
    and "\<And>q. dir_exists D (hist u) q \<longleftrightarrow> dir_exists D (hist s) q \<or> q = take i p" and "p ! i = CHR ''/''"
  shows "dirs_made D (parents p (i # is)) s r t"
proof -
  have "length (take i p) < length q" if "q \<in> parents p is" for q
    using that assms(2,3) by (auto simp: parents_def)
  with assms show ?thesis unfolding dirs_made_def by (auto dest: less_asym)
qed

lemma wp_dirs_made:
  assumes "finds_dirs e D"
  shows "sorted_wrt (<) is \<Longrightarrow> \<forall>j \<in> set is. j < length p \<Longrightarrow>
    wp (create_dirs e p is) (\<lambda>r t. dirs_made D (parents p is) s r t) (\<lambda>_. False) s"
proof (induction "is" arbitrary: s)
  case Nil
  then show ?case by (simp add: wp_def dirs_made_def)
next
  case (Cons i "is")
  have IH: "wp (create_dirs e p is) (\<lambda>r t. dirs_made D (parents p (i # is)) s r t) (\<lambda>_. False) u"
    if "p ! i = CHR ''/''" "\<And>q. dir_exists D (hist u) q \<longleftrightarrow> dir_exists D (hist s) q \<or> q = take i p" for u
    by (rule wp_mono [OF Cons.IH dirs_made_step [OF _ Cons.prems that(2,1)]]) (use Cons.prems in simp_all)
  have found: "k_ret e h (Access q 0) = 0 \<longleftrightarrow> dir_exists D h q" for h q
    using assms by (simp add: finds_dirs_def)
  show ?case
  proof (cases "p ! i = CHR ''/''")
    case False
    then show ?thesis unfolding wp_create_dirs_Cons using Cons.IH Cons.prems by simp
  next
    case slash: True
    let ?q = "take i p" let ?c = "Access ?q 0" let ?m = "Mkdir ?q 511"
    let ?a = "emit ?c (k_ret e (hist s) ?c) (k_data e (hist s) ?c) s"
    let ?b = "emit ?m (k_ret e (hist ?a) ?m) (k_data e (hist ?a) ?m) ?a"
    have longer: "\<not> length q' < i" if "q' \<in> parents p is" for q'
      using that Cons.prems by (auto simp: parents_def)
    consider "dir_exists D (hist s) ?q" | "\<not> dir_exists D (hist s) ?q" "k_ret e (hist ?a) ?m = -1"
      | "\<not> dir_exists D (hist s) ?q" "k_ret e (hist ?a) ?m \<noteq> -1" by blast
    then show ?thesis
    proof cases
      case 1
      then have "wp (create_dirs e p is) (\<lambda>r t. dirs_made D (parents p (i # is)) s r t) (\<lambda>_. False) ?a"
        by (intro IH [OF slash]) (auto simp: dir_exists_append)
      with 1 slash show ?thesis unfolding wp_create_dirs_Cons by (simp add: found)
    next
      case 2
      then have "dirs_made D (parents p (i # is)) s (-1) ?b"
        using slash longer Cons.prems(2) by (auto simp: dirs_made_def dir_exists_append)
      with 2 slash show ?thesis unfolding wp_create_dirs_Cons by (simp add: found)
    next
      case 3
      then have "wp (create_dirs e p is) (\<lambda>r t. dirs_made D (parents p (i # is)) s r t) (\<lambda>_. False)
          (emit (Chmod ?q 511) (k_ret e (hist ?b) (Chmod ?q 511)) (k_data e (hist ?b) (Chmod ?q 511)) ?b)"
        by (intro IH [OF slash]) (auto simp: dir_exists_append)
      with 3 slash show ?thesis unfolding wp_create_dirs_Cons by (simp add: found)
    qed
  qed
qed

lemma wp_create_dirs_ok:
  assumes "\<And>h q. k_ret e h (Mkdir q 511) \<noteq> -1"
  shows "wp (create_dirs e p is) (\<lambda>r _. r = 0) (\<lambda>_. False) s"
proof (induction "is" arbitrary: s)
  case Nil
  then show ?case by (simp add: wp_def)
next
  case (Cons i "is")
  then show ?case using assms unfolding wp_create_dirs_Cons by simp
qed

section \<open>Properties\<close>

text \<open>C29: \<open>CreateDir\<close> returns; on 0 every directory on the way to the file exists, on -1 it has stopped at
  the first that \<open>mkdir\<close> refused, with those above it in place; it makes no other directory and
  loses none.\<close>

theorem create_dir_makes:
  assumes "finds_dirs e D" and "length p < 256"
  shows "\<exists>r t. CreateDir e p s = Ok r t \<and> r \<in> {0, -1} \<and>
    (r = 0 \<longrightarrow> (\<forall>q \<in> parents p [1..<length p]. dir_exists D (hist t) q)) \<and>
    (r = -1 \<longrightarrow> (\<exists>q \<in> parents p [1..<length p]. \<not> dir_exists D (hist t) q \<and>
      fst (last (hist t)) = Mkdir q 511 \<and>
      (\<forall>q' \<in> parents p [1..<length p]. length q' < length q \<longrightarrow> dir_exists D (hist t) q'))) \<and>
    (\<forall>q. dir_exists D (hist s) q \<longrightarrow> dir_exists D (hist t) q) \<and>
    (\<forall>q. dir_exists D (hist t) q \<longrightarrow> dir_exists D (hist s) q \<or> q \<in> parents p [1..<length p])"
proof -
  have "wp (CreateDir e p) (\<lambda>r t. dirs_made D (parents p [1..<length p]) s r t) (\<lambda>_. False) s"
    using assms(2) by (simp add: CreateDir_def wp_dirs_made [OF assms(1)] del: One_nat_def)
  then obtain r t where "CreateDir e p s = Ok r t" "dirs_made D (parents p [1..<length p]) s r t"
    by (auto simp: wp_def split: result.splits)
  then show ?thesis unfolding dirs_made_def by (intro exI [of _ r] exI [of _ t]) simp
qed

text \<open>A file system that holds \<open>/smbshare\<close> and lets everything be made.\<close>

definition env_dirs :: env where
  "env_dirs = env0\<lparr>k_ret := (\<lambda>h c. case c of
     Access q m \<Rightarrow> if dir_exists {''/smbshare''} h q then 0 else -1 | _ \<Rightarrow> ret0 h c)\<rparr>"

theorem create_dir_makes_witness:
  "\<exists>t. CreateDir env_dirs ''/smbshare/a/'' machine0 = Ok 0 t \<and>
     dir_exists {''/smbshare''} (hist t) ''/smbshare/a''"
proof -
  have f: "finds_dirs env_dirs {''/smbshare''}" by (simp add: finds_dirs_def env_dirs_def)
  have len: "length ''/smbshare/a/'' < 256" by simp
  obtain r t where t: "CreateDir env_dirs ''/smbshare/a/'' machine0 = Ok r t"
      "r = 0 \<longrightarrow> (\<forall>q \<in> parents ''/smbshare/a/'' [1..<length ''/smbshare/a/'']. dir_exists {''/smbshare''} (hist t) q)"
    using create_dir_makes [OF f len, of machine0] by blast
  have "wp (CreateDir env_dirs ''/smbshare/a/'') (\<lambda>r _. r = 0) (\<lambda>_. False) machine0"
    by (simp add: CreateDir_def wp_create_dirs_ok env_dirs_def ret0_def del: upt_Suc)
  with t(1) have "r = 0" by (simp add: wp_def)
  moreover have "''/smbshare/a'' \<in> parents ''/smbshare/a/'' [1..<length ''/smbshare/a/'']"
    by (simp add: upt_rec)
  ultimately show ?thesis using t by blast
qed

end
