(* ===== verification/Zh3t_Demo.thy ===== *)
theory Zh3t_Demo
  imports Store_System
begin

text \<open>
  \<open>zh3t_demo.c\<close>: the main program.  It starts the heartbeat, initialises the hardware and the
  BRAM, starts the four threads and then becomes the slicing control.  The lemmas follow the
  start-up call by call: it makes no DMA transfer, opens no record file, gives each engine a
  descriptor of its own, and hands each recorder the initial state of its loop.
\<close>

definition main_start :: "env \<Rightarrow> ('m store_state_scheme, unit) prog" where
  "main_start e = seqR
     [start_heartbeat e,
      drop_val (store_init e),
      bram_st 1 2 0x8000,
      bram_st 1 18 0,
      bram_st 1 19 1,
      bram_st 1 22 0,
      bram_st 1 22 0,
      bram_st 1 23 0,
      bram_st 1 3 0,
      bram_st 1 4 0,
      bram_st 1 6 0,
      drop_val (store_prepare_recv e)]"

text \<open>The program, for \<open>k\<close> iterations of the loop it ends in.\<close>

definition main :: "nat \<Rightarrow> env \<Rightarrow> ('m store_state_scheme, unit) prog" where
  "main k e = seqR [main_start e, store_control_enter, iterR k (store_control e)]"

section \<open>Start-up\<close>

text \<open>Devices that can be opened and memory that can be mapped.\<close>

definition devices_up :: "env \<Rightarrow> bool" where
  "devices_up e \<longleftrightarrow> (\<forall>h p fl m. 0 \<le> k_ret e h (Open p fl m)) \<and>
     (\<forall>h fl n fd a. (word_of_int (k_ret e h (Mem (Mmap fl n fd a))) :: u64) \<noteq> MAP_FAILED) \<and>
     (\<forall>h a n. k_ret e h (Mem (Mlock a n)) \<noteq> -1) \<and>
     (\<forall>h p. k_ret e h (Dir (Fopen p)) \<noteq> 0) \<and> (\<forall>h f off. k_ret e h (Dir (Fseek f off)) = 0)"

lemma devices_gpio: "devices_up e \<Longrightarrow> gpio_up e"
  by (simp add: devices_up_def gpio_up_def)

primrec transfer :: "event \<Rightarrow> bool" where
  "transfer (Open p f m) = (m = MODE)"
| "transfer (Close f) = False"
| "transfer (Read f n) = False"
| "transfer (Write f b) = False"
| "transfer (Lseek f n w) = False"
| "transfer (Ftruncate f n) = False"
| "transfer (Ioctl f q off) = (q = DMA_RD)"
| "transfer (Remove p) = False"
| "transfer (Access p m) = False"
| "transfer (Mkdir p m) = False"
| "transfer (Chmod p m) = False"
| "transfer (Statfs p) = False"
| "transfer (Usleep n) = False"
| "transfer (BramLd w i) = False"
| "transfer (BramSt w i v) = False"
| "transfer (BramCp w n) = False"
| "transfer (Mem x1) = False"
| "transfer (Dir x2) = False"
| "transfer (Tty x3) = False"
| "transfer (Net x4) = False"
| "transfer (Time x5) = False"

lemma transfer_Open [simp]: "\<not> transfer (Open p f 0)" "\<not> transfer (Open p f 777)"
  by (simp_all add: MODE_def)

declare transfer.simps(1) [simp del]

text \<open>Histories without a DMA transfer, without a new record file and without a new thread.\<close>

definition silent :: "history \<Rightarrow> bool" where
  "silent h \<longleftrightarrow> (\<forall>x \<in> set h. \<not> transfer (fst x) \<and> (\<forall>n. fst x \<noteq> Net n))"

lemma silent_simps [simp]:
  "silent []" "silent (h @ h') \<longleftrightarrow> silent h \<and> silent h'"
  "silent (x # h) \<longleftrightarrow> (\<not> transfer (fst x) \<and> (\<forall>n. fst x \<noteq> Net n)) \<and> silent h"
  by (auto simp: silent_def)

text \<open>
  The descriptors in \<open>h'\<close>, after \<open>h\<close>, are those the environment gives.
\<close>

fun answered :: "env \<Rightarrow> history \<Rightarrow> history \<Rightarrow> bool" where
  "answered e h [] = True"
| "answered e h ((c, r, d) # h') = ((case c of
       Open p fl m \<Rightarrow> r = k_ret e h c
     | Net n \<Rightarrow> (case n of Accept f \<Rightarrow> r = k_ret e h c | _ \<Rightarrow> True)
     | _ \<Rightarrow> True) \<and> answered e (h @ [(c, r, d)]) h')"

lemma answered_append [simp]: "answered e h (h' @ h'') \<longleftrightarrow> answered e h h' \<and> answered e (h @ h') h''"
  by (induction e h h' rule: answered.induct) simp_all

text \<open>
  \<open>t\<close> comes from \<open>s\<close> by calls that change no variable and no BRAM word; if descriptors have been
  fresh, every file open in \<open>s\<close> is still open.
\<close>

definition prepares :: "env \<Rightarrow> 'm machine_scheme \<Rightarrow> 'm machine_scheme \<Rightarrow> bool" where
  "prepares e s t \<longleftrightarrow> (\<exists>h. hist t = hist s @ h \<and> silent h \<and> answered e (hist s) h) \<and>
     (fresh_hist (hist t) \<longrightarrow> open_fds (hist s) \<subseteq> open_fds (hist t)) \<and>
     bram_ps t = bram_ps s \<and> machine.more t = machine.more s"

lemma prepares_refl [simp]: "prepares e s s"
  by (simp add: prepares_def)

primrec plain :: "event \<Rightarrow> bool" where
  "plain (Open p f m) = False"
| "plain (Close f) = False"
| "plain (Read f n) = True"
| "plain (Write f b) = True"
| "plain (Lseek f n w) = True"
| "plain (Ftruncate f n) = True"
| "plain (Ioctl f q off) = True"
| "plain (Remove p) = True"
| "plain (Access p m) = True"
| "plain (Mkdir p m) = True"
| "plain (Chmod p m) = True"
| "plain (Statfs p) = True"
| "plain (Usleep n) = True"
| "plain (BramLd w i) = True"
| "plain (BramSt w i v) = True"
| "plain (BramCp w n) = True"
| "plain (Mem x1) = True"
| "plain (Dir x2) = True"
| "plain (Tty x3) = True"
| "plain (Net x4) = False"
| "plain (Time x5) = True"

lemma prepares_emit [simp]:
  "prepares e s t \<Longrightarrow> plain c \<Longrightarrow> \<not> transfer c \<Longrightarrow> prepares e s (emit c r d t)"
  by (cases c) (auto simp: prepares_def hist_simps)

lemma prepares_open [simp]:
  "prepares e s t \<Longrightarrow> \<not> transfer (Open p f m) \<Longrightarrow>
   prepares e s (emit (Open p f m) (k_ret e (hist t) (Open p f m)) d t)"
  by (auto simp: prepares_def hist_simps)

lemma prepares_trans: "prepares e s t \<Longrightarrow> prepares e t u \<Longrightarrow> prepares e s u"
  by (auto simp: prepares_def fresh_hist_append)

text \<open>A file that was opened on the way from \<open>s\<close> to \<open>t\<close> can be closed again.\<close>

definition lent :: "env \<Rightarrow> 'm machine_scheme \<Rightarrow> int \<Rightarrow> 'm machine_scheme \<Rightarrow> bool" where
  "lent e s r t \<longleftrightarrow> prepares e s t \<and> (fresh_hist (hist t) \<longrightarrow> r \<notin> open_fds (hist s))"

lemma lent_emit [simp]: "lent e s r t \<Longrightarrow> plain c \<Longrightarrow> \<not> transfer c \<Longrightarrow> lent e s r (emit c r' d t)"
  by (simp add: lent_def hist_simps)

lemma lent_open [simp]:
  "prepares e s t \<Longrightarrow> \<not> transfer (Open p f m) \<Longrightarrow>
   lent e s (k_ret e (hist t) (Open p f m)) (emit (Open p f m) (k_ret e (hist t) (Open p f m)) d t)"
  by (auto simp: lent_def prepares_def hist_simps)

lemma prepares_close [simp]: "lent e s r t \<Longrightarrow> prepares e s (emit (Close r) r' d t)"
  by (auto simp: lent_def prepares_def hist_simps)

lemma prepares_set_line [simp]: "prepares e s t \<Longrightarrow> prepares e s (set_line e p v t)"
  by (simp add: set_line_def Let_def)

lemma wp_gpio_set [simp]: "gpio_up e \<Longrightarrow> wp (gpio_set e p v) Q A s = Q () (set_line e p v s)"
  by (simp add: wp_def gpio_set_up)

lemma wp_seq_prepares:
  assumes "\<And>p u. p \<in> set ps \<Longrightarrow> wp p (\<lambda>_ t. prepares e u t) (\<lambda>_. False) u"
  shows "wp (seqR ps) (\<lambda>_ t. prepares e s t) (\<lambda>_. False) s"
  using assms
proof (induction ps arbitrary: s)
  case Nil
  then show ?case by (simp add: wp_def)
next
  case (Cons p ps)
  have "wp (seqR ps) (\<lambda>_ t. prepares e s t) (\<lambda>_. False) u" if "prepares e s u" for u
    using Cons.IH [of u] Cons.prems that by (auto elim!: wp_mono intro: prepares_trans)
  then show ?case unfolding wp_statement(4)
    by - (rule wp_mono [OF Cons.prems [of p s]], auto)
qed

lemma wp_prepares_gpio_init:
  assumes "devices_up e"
  shows "wp (gpio_init e n) (\<lambda>_ t. prepares e s t) (\<lambda>_. False) s"
  unfolding gpio_init_def
  by (rule wp_seq_prepares)
    (use assms in \<open>auto simp: gpio_export_def gpio_direction_def devices_up_def not_less [symmetric]\<close>)

lemma wp_prepares_reset_pl:
  "devices_up e \<Longrightarrow> wp (reset_pl e) (\<lambda>_ t. prepares e s t) (\<lambda>_. False) s"
  by (simp add: reset_pl_def devices_gpio)

lemma wp_prepares_vir2phy:
  "devices_up e \<Longrightarrow> prepares e s u \<Longrightarrow> wp (mem_addr_vir2phy e a) (\<lambda>_ t. prepares e s t) (\<lambda>_. False) u"
  by (auto simp: mem_addr_vir2phy_def Let_def)

lemma wp_prepares_check_pages:
  assumes "devices_up e"
  shows "prepares e s u \<Longrightarrow> wp (check_pages e a is) (\<lambda>_ t. prepares e s t) (\<lambda>_. False) u"
proof (induction "is" arbitrary: u)
  case Nil
  then show ?case by (simp add: wp_def)
next
  case (Cons i "is")
  have step: "wp (check_pages e a (i # is)) Q A u = wp (bindR (mem_addr_vir2phy e (a + of_nat i * 0x1000))
      (\<lambda>(r, x). if r \<noteq> 0 then ret False else check_pages e a is)) Q A u" for Q A
    by (simp add: wp_def)
  show ?case unfolding step wp_bindR
    by (rule wp_mono [OF wp_prepares_vir2phy [OF assms Cons.prems]]) (auto intro: Cons.IH)
qed

lemma wp_prepares_page_frame:
  assumes "devices_up e" and "prepares e s u"
  shows "wp (get_page_frame_number_of_address e a) (\<lambda>_ t. prepares e s t) (\<lambda>_. False) u"
  using assms
  by (auto simp: get_page_frame_number_of_address_def Let_def devices_up_def simp del: upt_Suc
      intro!: wp_mono [OF wp_prepares_check_pages [OF assms(1), where s = s]])

lemma wp_prepares_create_buffer:
  "devices_up e \<Longrightarrow> prepares e s u \<Longrightarrow> wp (create_buffer e n) (\<lambda>_ t. prepares e s t) (\<lambda>_. False) u"
  by (simp add: create_buffer_def Let_def devices_up_def)

section \<open>The state after start-up\<close>

text \<open>The globals the threads depend on have their initial values.\<close>

definition initial :: "'m store_state_scheme \<Rightarrow> bool" where
  "initial s \<longleftrightarrow> gMutexDma s = 0 \<and> length (axidma s) = 4 \<and> (\<forall>i<4. dma_num (axidma s ! i) = int i) \<and>
     chan_stored s = (\<lambda>_. 0) \<and> chan_slice_alt s = (\<lambda>_. 1) \<and> chan0_indexed s = 0 \<and>
     chan0_index_alt s = 1 \<and> length (file_name_sys s) = 320 \<and> st_fd s = (\<lambda>_. 0) \<and>
     chan_slice s = (\<lambda>_. 0) \<and> file_name_all s = (\<lambda>_. '''') \<and> ls_file_num s = 0 \<and> mn_file_num s = 0 \<and>
     sy_file_num s = 0"

text \<open>The first \<open>k\<close> engines are open, each with a descriptor of its own.\<close>

definition engines :: "nat \<Rightarrow> 'm store_state_scheme \<Rightarrow> bool" where
  "engines k s \<longleftrightarrow> (fresh_hist (hist s) \<longrightarrow> (\<forall>i<k. dma_fd (axidma s ! i) \<in> open_fds (hist s) \<and>
     (\<forall>j<i. dma_fd (axidma s ! j) \<noteq> dma_fd (axidma s ! i))))"

text \<open>
  The start-up from history \<open>h\<close> and BRAM \<open>m\<close> has reached \<open>s\<close>: no transfer and no thread yet,
  \<open>k\<close> engines open, and no BRAM word but 18 and 19 set.
\<close>

definition booting :: "env \<Rightarrow> nat \<Rightarrow> history \<Rightarrow> (nat \<Rightarrow> u64) \<Rightarrow> 'm store_state_scheme \<Rightarrow> bool" where
  "booting e k h m s \<longleftrightarrow> initial s \<and> engines k s \<and>
     (\<exists>h'. hist s = h @ h' \<and> silent h' \<and> answered e h h') \<and> (\<forall>i. i \<notin> {18, 19} \<longrightarrow> bram_ps s i = m i)"

lemma booting_prepares:
  assumes "booting e k h m s" and "prepares e s t"
  shows "booting e k h m t"
proof -
  have more: "machine.more t = machine.more s" using assms(2) by (simp add: prepares_def)
  note same = same_globals [OF more]
  have "initial t" using assms(1) unfolding booting_def initial_def same by simp
  moreover have "engines k t"
    using assms unfolding booting_def engines_def prepares_def same by (auto simp: fresh_hist_append)
  ultimately show ?thesis using assms by (auto simp: booting_def prepares_def)
qed

lemma initial_fields [simp]:
  "initial (s\<lparr>bram_vptr := p\<rparr>) = initial s" "initial (s\<lparr>index_aligned_buffer := b\<rparr>) = initial s"
  "initial (s\<lparr>dma_mode := k\<rparr>) = initial s" "initial (s\<lparr>dma_buff := d\<rparr>) = initial s"
  "initial (s\<lparr>data_buffer_begin := b\<rparr>) = initial s" "initial (s\<lparr>data_buffer_end := b\<rparr>) = initial s"
  by (simp_all add: initial_def)

lemma engines_fields [simp]:
  "engines k (s\<lparr>bram_vptr := p\<rparr>) = engines k s" "engines k (s\<lparr>index_aligned_buffer := b\<rparr>) = engines k s"
  "engines k (s\<lparr>dma_mode := i\<rparr>) = engines k s" "engines k (s\<lparr>dma_buff := d\<rparr>) = engines k s"
  "engines k (s\<lparr>data_buffer_begin := b\<rparr>) = engines k s" "engines k (s\<lparr>data_buffer_end := b\<rparr>) = engines k s"
  by (simp_all add: engines_def)

lemma booting_fields [simp]:
  "booting e k h m (s\<lparr>bram_vptr := p\<rparr>) = booting e k h m s"
  "booting e k h m (s\<lparr>index_aligned_buffer := b\<rparr>) = booting e k h m s"
  "booting e k h m (s\<lparr>dma_mode := i\<rparr>) = booting e k h m s"
  "booting e k h m (s\<lparr>dma_buff := d\<rparr>) = booting e k h m s"
  "booting e k h m (s\<lparr>data_buffer_begin := b\<rparr>) = booting e k h m s"
  "booting e k h m (s\<lparr>data_buffer_end := b\<rparr>) = booting e k h m s"
  by (simp_all add: booting_def)

lemma booting_emit [simp]:
  "booting e k h m s \<Longrightarrow> plain c \<Longrightarrow> \<not> transfer c \<Longrightarrow> booting e k h m (emit c r d s)"
  by (erule booting_prepares) simp

lemma booting_open [simp]:
  "booting e k h m s \<Longrightarrow> \<not> transfer (Open p f md) \<Longrightarrow>
   booting e k h m (emit (Open p f md) (k_ret e (hist s) (Open p f md)) d s)"
  by (erule booting_prepares) simp

lemma booting_set_line [simp]: "booting e k h m s \<Longrightarrow> booting e k h m (set_line e p v s)"
  by (erule booting_prepares) simp

lemma booting_bram: "booting e k h m s \<Longrightarrow> i = 18 \<or> i = 19 \<Longrightarrow> booting e k h m (bram_upd 1 i v s)"
  by (auto simp: booting_def initial_def engines_def hist_simps)

text \<open>The number and the buffers of an engine; its descriptor.\<close>

lemma booting_axidma:
  assumes "booting e k h m s" and "\<And>a. dma_num (f a) = dma_num a \<or> dma_num (f a) = int i"
    and "i < k \<Longrightarrow> \<forall>a. dma_fd (f a) = dma_fd a"
  shows "booting e k h m (s\<lparr>axidma := (axidma s)[i := f (axidma s ! i)]\<rparr>)"
proof -
  have "initial s" "engines k s" using assms(1) by (simp_all add: booting_def)
  have num: "dma_num ((axidma s)[i := f (axidma s ! i)] ! j) = int j" if "j < 4" for j
    using that \<open>initial s\<close> assms(2) [of "axidma s ! i"] by (cases "j = i") (auto simp: initial_def)
  have fd: "dma_fd ((axidma s)[i := f (axidma s ! i)] ! j) = dma_fd (axidma s ! j)" if "j < k" for j
    using that assms(3) by (cases "j = i"; cases "i < length (axidma s)") (auto simp: list_update_beyond)
  have "initial (s\<lparr>axidma := (axidma s)[i := f (axidma s ! i)]\<rparr>)"
    using \<open>initial s\<close> num by (simp add: initial_def)
  moreover have "engines k (s\<lparr>axidma := (axidma s)[i := f (axidma s ! i)]\<rparr>)"
    using \<open>engines k s\<close> fd by (simp add: engines_def)
  ultimately show ?thesis using assms(1) by (simp add: booting_def)
qed

lemma booting_engine:
  assumes "booting e k h m s" and "\<not> transfer (Open p f md)" and "0 \<le> r" and "k < 4"
    and "r = k_ret e (hist s) (Open p f md)"
  shows "booting e (Suc k) h m (emit (Open p f md) r d s
    \<lparr>axidma := (axidma s)[k := (axidma s ! k)\<lparr>dma_fd := r\<rparr>]\<rparr>)"
proof -
  let ?u = "emit (Open p f md) r d s"
  have u: "booting e k h m ?u" unfolding assms(5) using assms(1,2) by (rule booting_open)
  have b: "booting e k h m (?u\<lparr>axidma := (axidma ?u)[k := (axidma ?u ! k)\<lparr>dma_fd := r\<rparr>]\<rparr>)"
    by (rule booting_axidma [OF u]) simp_all
  have len: "length (axidma s) = 4" and "engines k s" using assms(1) by (simp_all add: booting_def initial_def)
  have "engines (Suc k) (?u\<lparr>axidma := (axidma s)[k := (axidma s ! k)\<lparr>dma_fd := r\<rparr>]\<rparr>)"
    using \<open>engines k s\<close> assms(3,4) len
    by (auto simp: engines_def less_Suc_eq nth_list_update fresh_hist_append hist_simps)
  with b show ?thesis by (simp add: booting_def)
qed

text \<open>A descriptor that is no engine's can be closed.\<close>

definition spare :: "nat \<Rightarrow> int \<Rightarrow> 'm store_state_scheme \<Rightarrow> bool" where
  "spare k r s \<longleftrightarrow> (fresh_hist (hist s) \<longrightarrow> (\<forall>i<k. dma_fd (axidma s ! i) \<noteq> r))"

lemma spare_emit [simp]: "spare k r s \<Longrightarrow> spare k r (emit c r' d s)"
  by (simp add: spare_def hist_simps)

lemma spare_bram [simp]: "spare k r (s\<lparr>bram_vptr := p\<rparr>) = spare k r s"
  by (simp add: spare_def)

lemma booting_spare: "booting e k h m s \<Longrightarrow> spare k r (emit (Open p f md) r d s)"
  by (auto simp: booting_def engines_def spare_def hist_simps)

lemma booting_close [simp]: "booting e k h m s \<Longrightarrow> spare k r s \<Longrightarrow> booting e k h m (emit (Close r) r' d s)"
  by (auto simp: booting_def engines_def spare_def initial_def hist_simps)

text \<open>A step of the start-up, which opens the engines from \<open>k\<close> to \<open>k'\<close> and returns \<open>v\<close> with \<open>P v\<close>.\<close>

definition boots :: "env \<Rightarrow> nat \<Rightarrow> nat \<Rightarrow> ('a \<Rightarrow> bool) \<Rightarrow> ('m store_state_scheme, 'a) prog \<Rightarrow> bool" where
  "boots e k k' P p \<longleftrightarrow> (\<forall>h m s. booting e k h m s \<longrightarrow>
     wp p (\<lambda>v t. P v \<and> booting e k' h m t) (\<lambda>_. False) s)"

abbreviation yes :: "'a \<Rightarrow> bool" where
  "yes \<equiv> \<lambda>_. True"

lemma boots_prepares:
  assumes "\<And>s. wp p (\<lambda>_ t. prepares e s t) (\<lambda>_. False) s"
  shows "boots e k k yes p"
  unfolding boots_def by (intro allI impI, rule wp_mono [OF assms]) (auto intro: booting_prepares)

lemma boots_ret: "P v \<Longrightarrow> boots e k k P (ret v)" "boots e k k yes (gets f)"
  by (simp_all add: boots_def)

lemma boots_bind:
  "boots e k k' yes p \<Longrightarrow> (\<And>v. boots e k' k'' P (f v)) \<Longrightarrow> boots e k k'' P (bindR p f)"
  unfolding boots_def wp_bindR by (fastforce elim: wp_mono)

lemma boots_drop: "boots e k k' yes p \<Longrightarrow> boots e k k' yes (drop_val p)"
  unfolding boots_def wp_drop_val by simp

lemma boots_seq: "boots e k k yes (seqR [])"
  "boots e k k' yes p \<Longrightarrow> boots e k' k'' yes (seqR ps) \<Longrightarrow> boots e k k'' yes (seqR (p # ps))"
  unfolding boots_def wp_statement(3,4) by (fastforce elim: wp_mono)+

lemma boots_if:
  "(b \<Longrightarrow> boots e k k' P p) \<Longrightarrow> (\<not> b \<Longrightarrow> boots e k k' P q) \<Longrightarrow> boots e k k' P (if b then p else q)"
  by simp

lemma boots_case: "(\<And>a b. boots e k k' P (f a b)) \<Longrightarrow> boots e k k' P (case x of (a, b) \<Rightarrow> f a b)"
  by (cases x) simp

lemma boots_modify: "(\<And>h m s. booting e k h m s \<Longrightarrow> booting e k h m (f s)) \<Longrightarrow> boots e k k yes (modify f)"
  by (simp add: boots_def)

lemma boots_call:
  "plain c \<Longrightarrow> \<not> transfer c \<Longrightarrow> boots e k k yes (syscall e c)"
  "plain c \<Longrightarrow> \<not> transfer c \<Longrightarrow> boots e k k yes (sysdo e c)"
  "plain c \<Longrightarrow> \<not> transfer c \<Longrightarrow> boots e k k yes (syscall_data e c)"
  by (simp_all add: boots_def)

lemma boots_open: "boots e k k yes (syscall e (Open p f 0))"
  by (simp add: boots_def)

lemma boots_bram: "i = 18 \<or> i = 19 \<Longrightarrow> boots e k k yes (bram_st 1 i v)"
  by (simp add: boots_def booting_bram del: One_nat_def)

lemma boots_gpio: "devices_up e \<Longrightarrow> boots e k k yes (gpio_set e p v)"
  by (simp add: boots_def devices_gpio)

lemma boots_axidma:
  "(\<And>a. dma_num (f a) = dma_num a \<or> dma_num (f a) = int i) \<Longrightarrow> (i < k \<Longrightarrow> \<forall>a. dma_fd (f a) = dma_fd a) \<Longrightarrow>
   boots e k k yes (upd_axidma i f)"
  unfolding upd_axidma_def by (intro boots_modify booting_axidma)

lemmas boots_intros = boots_ret boots_bind boots_drop boots_seq boots_if boots_call boots_open boots_gpio boots_axidma

section \<open>The steps of the start-up\<close>

lemma boots_gpio_init: "devices_up e \<Longrightarrow> boots e k k yes (gpio_init e n)"
  by (rule boots_prepares) (rule wp_prepares_gpio_init)

lemma boots_create_buffer: "devices_up e \<Longrightarrow> boots e k k yes (create_buffer e n)"
  by (rule boots_prepares) (simp add: wp_prepares_create_buffer)

lemma boots_page_frame: "devices_up e \<Longrightarrow> boots e k k yes (get_page_frame_number_of_address e a)"
  by (rule boots_prepares) (simp add: wp_prepares_page_frame)

lemma boots_ubram_init: "devices_up e \<Longrightarrow> boots e k k yes (ubram_init e)"
  unfolding boots_def ubram_init_def ubram_map_def
  by (auto simp: devices_up_def not_less [symmetric] booting_spare)

text \<open>Each engine gets a descriptor no other has.\<close>

lemma boots_dma_open:
  assumes "devices_up e" and "i < 4" and "\<And>fd. boots e (Suc i) (Suc i) P (q fd)"
  shows "boots e i (Suc i) P (bindR (gets (\<lambda>s. dma_path (axidma s ! i))) (\<lambda>p. bindR (dma_open e p) (\<lambda>fd.
     bindR (upd_axidma i (\<lambda>a. a\<lparr>dma_fd := fd\<rparr>)) (\<lambda>_. if fd < 0 then ret v else q fd))))"
proof -
  have up: "0 \<le> k_ret e h (Open p fl m)" for h p fl m using assms(1) by (simp add: devices_up_def)
  have "\<not> k_ret e h (Open p fl m) < 0" for h p fl m using up by (simp add: not_less)
  then show ?thesis
    using assms(3) by (simp add: boots_def dma_open_def upd_axidma_def booting_engine [OF _ _ up assms(2) refl])
qed

lemma boots_dma_one:
  assumes "devices_up e" and "i < 4"
  shows "boots e i (Suc i) (\<lambda>ok. ok) (dma_init_one e i)"
  unfolding dma_init_one_def
  by (rule boots_bind [OF boots_axidma]; (rule boots_dma_open assms)?)
    (rule boots_intros boots_create_buffer boots_page_frame assms | simp)+

lemma boots_dma_loop:
  assumes "devices_up e"
  shows "i \<le> 4 \<Longrightarrow> boots e i 4 yes (dma_init_loop e [i..<4] :: ('a store_state_scheme, _) prog)"
proof (induction "4 - i" arbitrary: i)
  case 0
  have "dma_init_loop e [] = (bindR (sysdo e (Usleep 50)) (\<lambda>_. ret 0) :: 'a store_state_scheme \<Rightarrow> _)"
    by (rule ext) simp
  with 0 show ?case by (auto intro!: boots_intros)
next
  case (Suc n)
  have "dma_init_loop e [i..<4] = (bindR (dma_init_one e i)
      (\<lambda>ok. if ok then dma_init_loop e [Suc i..<4] else ret (-1)) :: 'a store_state_scheme \<Rightarrow> _)"
    using Suc by (intro ext) (simp add: upt_conv_Cons)
  with Suc boots_dma_one [OF assms, of i, where 'a = 'a] show ?case
    by (fastforce simp: boots_def elim: wp_mono)
qed

lemma boots_store_init:
  assumes "devices_up e"
  shows "boots e 0 4 yes (store_init e)"
proof -
  have buffer: "boots e k k yes (bindR (posix_memalign e al sz) (\<lambda>p. modify (\<lambda>s. case p of None \<Rightarrow> s
      | Some b \<Rightarrow> s\<lparr>data_buffer_begin := b\<rparr>)))" "boots e k k yes (bindR (posix_memalign e al sz) (\<lambda>p.
      modify (\<lambda>s. case p of None \<Rightarrow> s | Some b \<Rightarrow> s\<lparr>data_buffer_end := b\<rparr>)))" for k al sz
    unfolding boots_def posix_memalign_def by (simp_all split: option.split)
  have "[0, 1, 2, 3] = [0..<4::nat]" by (simp add: upt_rec)
  note dma = boots_dma_loop [OF assms, of 0, folded this]
  show ?thesis
    unfolding store_init_def store_words reset_pl_def use_dma_buf_flag_def select_frame_length_def
      select_frame_count_def select_data_source_def check_en_def enable_data_source_def dma_init_def
    by (rule boots_intros boots_bram buffer boots_gpio_init boots_ubram_init dma assms boots_modify | simp)+
qed

text \<open>The threads, in the order they are created.\<close>

definition thread_names :: "string list" where
  "thread_names = [''chan0_recv_routine'', ''chan1_recv_routine'', ''index_recv_routine'', ''net_routine'']"

text \<open>The BRAM words the main program sets.\<close>

definition boot_words :: "(nat \<times> u64) list" where
  "boot_words = [(2, 0x8000), (3, 0), (4, 0), (6, 0), (18, 0), (19, 1), (22, 0), (23, 0)]"

text \<open>The calls of the start-up: the first and the last four start the threads.\<close>

definition boot_calls :: "history \<Rightarrow> bool" where
  "boot_calls h \<longleftrightarrow> (\<exists>c. map fst h = Net (Pthread_create ''heartbeat_routine'') # c
     @ map (Net \<circ> Pthread_create) thread_names \<and> (\<forall>x \<in> set c. \<not> transfer x \<and> (\<forall>n. x \<noteq> Net n)))"

definition boot_done :: "env \<Rightarrow> history \<Rightarrow> (nat \<Rightarrow> u64) \<Rightarrow> 'm store_state_scheme \<Rightarrow> bool" where
  "boot_done e h m t \<longleftrightarrow> initial t \<and> engines 4 t \<and> (\<forall>(i, v) \<in> set boot_words. bram_ps t i = v) \<and>
     (\<forall>i. i \<notin> fst ` set boot_words \<longrightarrow> bram_ps t i = m i) \<and>
     (\<exists>h'. hist t = h @ h' \<and> answered e h h' \<and> boot_calls h')"

lemma initial_emit [simp]: "initial (emit c r d s) = initial s"
  by (simp add: initial_def)

lemma initial_bram [simp]: "initial (bram_upd w i v s) = initial s"
  by (simp add: initial_def)

lemma engines_emit [simp]: "engines k s \<Longrightarrow> (\<And>f. c \<noteq> Close f) \<Longrightarrow> engines k (emit c r d s)"
  by (cases c) (auto simp: engines_def hist_simps)

lemma engines_bram [simp]: "engines k (bram_upd w i v s) = engines k s"
  by (simp add: engines_def hist_simps)

lemma wp_main_start:
  assumes "devices_up e" and "initial s"
  shows "wp (main_start e) (\<lambda>_ t. boot_done e (hist s) (bram_ps s) t) (\<lambda>_. False) s"
proof -
  let ?c = "Net (Pthread_create ''heartbeat_routine'')"
  let ?s = "emit ?c (k_ret e (hist s) ?c) (k_data e (hist s) ?c) s"
  let ?rest = "[bram_st 1 2 0x8000, bram_st 1 18 0, bram_st 1 19 1, bram_st 1 22 0, bram_st 1 22 0,
    bram_st 1 23 0, bram_st 1 3 0, bram_st 1 4 0, bram_st 1 6 0, drop_val (store_prepare_recv e)]"
  have b: "booting e 0 (hist ?s) (bram_ps ?s) ?s"
    using assms(2) by (auto simp: booting_def engines_def intro: exI [of _ "[]"])
  have "wp (store_init e) (\<lambda>_ t. booting e 4 (hist ?s) (bram_ps ?s) t) (\<lambda>_. False) ?s"
    using boots_store_init [OF assms(1)] b by (auto simp: boots_def)
  then have "wp (store_init e) (\<lambda>_. wp (seqR ?rest) (\<lambda>_ t. boot_done e (hist s) (bram_ps s) t) (\<lambda>_. False))
      (\<lambda>_. False) ?s"
  proof (rule wp_mono)
    fix t :: "'a store_state_scheme" assume "booting e 4 (hist ?s) (bram_ps ?s) t"
    then obtain h where t: "initial t" "engines 4 t" "hist t = hist ?s @ h" "silent h" "answered e (hist ?s) h"
        "\<forall>i. i \<notin> {18, 19} \<longrightarrow> bram_ps t i = bram_ps s i"
      by (auto simp: booting_def)
    show "wp (seqR ?rest) (\<lambda>_ t. boot_done e (hist s) (bram_ps s) t) (\<lambda>_. False) t"
      using t
      by (auto simp: store_prepare_recv_def boot_done_def boot_calls_def boot_words_def thread_names_def silent_def
          intro!: exI [of _ "map fst h @ map (\<lambda>(i, v). BramSt 1 i v) [(2, 0x8000), (18, 0), (19, 1), (22, 0),
            (22, 0), (23, 0), (3, 0), (4, 0), (6, 0)]"])
  qed simp
  then show ?thesis by (simp add: main_start_def start_heartbeat_def)
qed

lemma boot_calls_transfer: "boot_calls h \<Longrightarrow> x \<in> set h \<Longrightarrow> \<not> transfer (fst x)"
proof -
  assume "boot_calls h" and x: "x \<in> set h"
  then obtain c where c: "map fst h = Net (Pthread_create ''heartbeat_routine'') # c
      @ map (Net \<circ> Pthread_create) thread_names" "\<forall>x \<in> set c. \<not> transfer x"
    unfolding boot_calls_def by (elim conjE exE) simp
  have "fst x \<in> set (map fst h)" using x by simp
  with c(2) show ?thesis unfolding c(1) by auto
qed

lemma no_transfer_within: "(\<And>x. x \<in> set h \<Longrightarrow> \<not> transfer (fst x)) \<Longrightarrow> dma_within dfd n h"
proof -
  have "req_within dfd n x" if "\<not> transfer (fst x)" for x
    using that by (cases x; cases "fst x") auto
  then show "(\<And>x. x \<in> set h \<Longrightarrow> \<not> transfer (fst x)) \<Longrightarrow> dma_within dfd n h" by (simp add: dma_within_def)
qed

section \<open>Up to the loops of the threads\<close>

text \<open>
  The start-up, the opening of the heartbeat's port, \<open>n\<close> polls of the flow control request channel
  0 waits for, and the entry of each recording thread; \<open>fd\<close>, \<open>ad\<close>, \<open>f\<close> and \<open>buf\<close> are what the
  locals they do not initialise hold.
\<close>

definition boot_system ::
  "env \<Rightarrow> nat \<Rightarrow> int \<Rightarrow> bytes \<Rightarrow> string \<Rightarrow> (nat \<Rightarrow> u8) \<Rightarrow> ('m store_state_scheme, int option) prog" where
  "boot_system e n fd ad f buf = bindR (main_start e) (\<lambda>_. bindR (heartbeat_open e) (\<lambda>hb. bindR
     (seqR [iterR n (drop_val (chan0_recv_wait e)), chan_recv_enter, chan1_recv_enter fd ad,
       index_recv_enter f buf]) (\<lambda>_. ret hb)))"

lemma wp_prepares_wait:
  assumes "devices_up e"
  shows "wp (iterR n (drop_val (chan0_recv_wait e))) (\<lambda>_ t. prepares e s t) (\<lambda>_. False) s"
proof (induction n arbitrary: s)
  case 0
  then show ?case by (simp add: wp_def)
next
  case (Suc n)
  have step: "wp (iterR (Suc n) m) Q A u = wp m (\<lambda>_. wp (iterR n m) Q A) A u" for m Q A u
    by (simp add: wp_def split: result.splits)
  have "wp (chan0_recv_wait e) (\<lambda>_ t. prepares e s t) (\<lambda>_. False) s"
    using assms by (simp add: chan0_recv_wait_def flow_ctrl_req_def flow_ctrl_ack_def gpio_get_def Let_def devices_gpio)
      (simp add: devices_up_def not_less)
  then have "wp (chan0_recv_wait e) (\<lambda>_. wp (iterR n (drop_val (chan0_recv_wait e)))
      (\<lambda>_ t. prepares e s t) (\<lambda>_. False)) (\<lambda>_. False) s"
    by (rule wp_mono) (auto intro: wp_mono [OF Suc.IH] prepares_trans)
  then show ?case by (simp only: step wp_drop_val)
qed

lemma wp_heartbeat_open: "wp (heartbeat_open e) (\<lambda>_ t. prepares e s t) (\<lambda>_. True) s"
proof -
  have "wp (serial_init e fd) (\<lambda>_ t. prepares e s t) (\<lambda>_. True) u" if "prepares e s u" for fd u
    using that by (simp add: serial_init_def serial_set_def split: option.split)
  from wp_mono [OF this] show ?thesis by (auto simp: heartbeat_open_def serial_open_def wp_statement)
qed

text \<open>Ready for the threads to enter their loops.\<close>

definition ready :: "env \<Rightarrow> (nat \<Rightarrow> u64) \<Rightarrow> 'm store_state_scheme \<Rightarrow> bool" where
  "ready e m u \<longleftrightarrow> initial u \<and> engines 4 u \<and> answered e [] (hist u) \<and>
     (\<forall>x \<in> set (hist u). \<not> transfer (fst x)) \<and> (\<forall>(i, v) \<in> set boot_words. bram_ps u i = v) \<and>
     (\<forall>i. i \<notin> fst ` set boot_words \<longrightarrow> bram_ps u i = m i)"

lemma ready_prepares:
  assumes "ready e m s" and "prepares e s t"
  shows "ready e m t"
proof -
  have "machine.more t = machine.more s" using assms(2) by (simp add: prepares_def)
  note same = same_globals [OF this]
  obtain h where h: "hist t = hist s @ h" "silent h" "answered e (hist s) h" "bram_ps t = bram_ps s"
    using assms(2) by (auto simp: prepares_def)
  have "initial t" using assms(1) unfolding ready_def initial_def same by simp
  moreover have "engines 4 t"
    using assms unfolding ready_def engines_def prepares_def same by (auto simp: fresh_hist_append)
  ultimately show ?thesis using assms(1) h by (auto simp: ready_def silent_def)
qed

lemma ready_locals [simp]:
  "ready e m (s\<lparr>mn := x\<rparr>) = ready e m s" "ready e m (s\<lparr>ls := y\<rparr>) = ready e m s"
  "ready e m (s\<lparr>sy := z\<rparr>) = ready e m s"
  by (simp_all add: ready_def initial_def engines_def)

lemma boot_done_ready: "boot_done e [] m t \<Longrightarrow> ready e m t"
  by (auto simp: boot_done_def ready_def dest: boot_calls_transfer)

lemma wp_boot_system:
  assumes "devices_up e" and "initial s" and "hist s = []"
  shows "wp (boot_system e n fd ad f buf) (\<lambda>_ u. ready e (bram_ps s) u \<and> ls_file u = fd \<and> sy_file u = 0 \<and>
     mn_pending u = 0 \<and> ls_pending u = 0 \<and> ls_ret_bytes (ls u) = 0 \<and> sy_recv_bytes (sy u) = 0 \<and>
     sy_ret_bytes (sy u) = 0) (\<lambda>_. True) s"
proof -
  let ?ready = "ready e (bram_ps s) :: 'a store_state_scheme \<Rightarrow> bool"
  let ?entered = "\<lambda>u :: 'a store_state_scheme. ?ready u \<and> ls_file u = fd \<and> sy_file u = 0 \<and>
     mn_pending u = 0 \<and> ls_pending u = 0 \<and> ls_ret_bytes (ls u) = 0 \<and> sy_recv_bytes (sy u) = 0 \<and>
     sy_ret_bytes (sy u) = 0"
  have threads: "wp (seqR [iterR n (drop_val (chan0_recv_wait e)), chan_recv_enter, chan1_recv_enter fd ad,
      index_recv_enter f buf]) (\<lambda>_. wp (ret hb) (\<lambda>_. ?entered) (\<lambda>_. True)) (\<lambda>_. True) t"
    if "?ready t" for t hb
    unfolding wp_statement(4) by (rule wp_mono [OF wp_prepares_wait [OF assms(1)]])
      (use that in \<open>auto simp: chan_recv_enter_def chan1_recv_enter_def index_recv_enter_def intro: ready_prepares\<close>)
  have start: "wp (main_start e) (\<lambda>_. ?ready) (\<lambda>_. True) s"
    using wp_main_start [OF assms(1,2)] unfolding assms(3) by (rule wp_mono) (simp_all add: boot_done_ready)
  show ?thesis
    unfolding boot_system_def wp_bindR
    by (rule wp_mono [OF start], rule wp_mono [OF wp_heartbeat_open], rule threads, rule ready_prepares) simp_all
qed

lemma boot_system_begin:
  assumes "devices_up e" and "initial s" and "hist s = []" and "boot_system e n fd ad f buf s = Ok hb u"
    and "fd \<notin> open_fds (hist u)"
  shows "ready e (bram_ps s) u" and "mn_begin u" and "ls_begin u" and "sy_begin u"
    and "fresh_hist (hist u) \<Longrightarrow> 0 \<notin> open_fds (hist u) \<Longrightarrow> apart h u"
proof -
  note u = wp_Ok [OF wp_boot_system [OF assms(1-3)] assms(4)]
  then have "dma_within d k (hist u)" for d k unfolding ready_def by (blast intro: no_transfer_within)
  with u assms(5) show "ready e (bram_ps s) u" "mn_begin u" "ls_begin u" "sy_begin u"
    by (simp_all add: ready_def mn_begin_def ls_begin_def sy_begin_def initial_def mn_recording_def ls_fresh_def
        ls_is_open_def sy_recording_def)
  assume fresh: "fresh_hist (hist u)" and "0 \<notin> open_fds (hist u)"
  moreover have "dma_fd (axidma u ! 0) \<noteq> dma_fd (axidma u ! 1)"
    using u fresh by (simp add: ready_def engines_def)
  ultimately show "apart h u" using u assms(5) by (auto simp: apart_def ready_def initial_def)
qed

section \<open>A concrete start\<close>

text \<open>Devices get a new descriptor at every \<open>open\<close>.\<close>

definition env_boot :: env where
  "env_boot = env_on\<lparr>k_ret := (\<lambda>h c. case c of
     Open p fl m \<Rightarrow> if m = MODE then 3 else 2 ^ 40 + int (length h)
   | Net n \<Rightarrow> (case n of Fork \<Rightarrow> 1 | Accept f \<Rightarrow> 2 ^ 40 + int (length h) | _ \<Rightarrow> 0)
   | Dir d \<Rightarrow> (case d of Fopen p \<Rightarrow> 1 | _ \<Rightarrow> 0) | _ \<Rightarrow> ret0 h c)\<rparr>"

lemma devices_up_boot: "devices_up env_boot"
  by (simp add: devices_up_def env_boot_def ret0_def MAP_FAILED_def)

lemma system_env_boot: "system_env env_boot"
  by (simp add: system_env_def recorder_env_def full_writes_def dma_blocks_def record_opens_def seek_ends_def
      index_env_def forks_def) (simp add: env_boot_def ret0_def)

lemma initial_store0: "initial store0"
  by (simp add: initial_def) (auto simp: less_Suc_eq numeral_eq_Suc store0_def axidma_init_def)

lemma numbered_fresh:
  "answered env_boot h h' \<Longrightarrow> \<forall>x \<in> set h'. \<not> transfer (fst x) \<Longrightarrow>
   \<forall>f \<in> A. 2 ^ 40 \<le> f \<and> f < 2 ^ 40 + int (length h) \<Longrightarrow>
   fresh_from A h' \<and> (\<forall>f \<in> foldl open_step A h'. 2 ^ 40 \<le> f)"
proof (induction h' arbitrary: A h)
  case Nil
  then show ?case by simp
next
  case (Cons x h')
  obtain c r d where x: "x = (c, r, d)" by (cases x)
  have "\<forall>f \<in> open_step A x. 2 ^ 40 \<le> f \<and> f < 2 ^ 40 + int (length (h @ [x]))"
    using Cons.prems by (cases c) (auto simp: x env_boot_def transfer.simps(1))
  moreover have "answered env_boot (h @ [x]) h'" using Cons.prems(1) by (simp add: x)
  ultimately have "fresh_from (open_step A x) h' \<and> (\<forall>f \<in> foldl open_step (open_step A x) h'. 2 ^ 40 \<le> f)"
    using Cons.IH Cons.prems(2) by simp
  moreover have "r \<notin> A" if "(\<exists>p fl m. c = Open p fl m) \<or> (\<exists>f. c = Net (Accept f))"
    using that Cons.prems by (auto simp: x env_boot_def transfer.simps(1))
  ultimately show ?case by (auto simp: x split: event.split net_call.split)
qed

lemma boot_system_env_boot:
  obtains hb u where "boot_system env_boot n fd ad f buf store0 = Ok (Some hb) u" and "fresh_hist (hist u)"
    and "2 ^ 40 \<le> hb" and "\<And>f. f \<in> open_fds (hist u) \<Longrightarrow> 2 ^ 40 \<le> f"
proof -
  obtain t where t: "main_start env_boot store0 = Ok () t"
    using wp_returns [OF wp_main_start [OF devices_up_boot initial_store0]] by blast
  have "serial_options 115200 0 8 1 (CHR ''N'') opt \<noteq> None" for opt using serial_options_8N1 [of opt] by auto
  then have "wp (heartbeat_open env_boot) (\<lambda>r _. r \<noteq> None \<and> 2 ^ 40 \<le> the r) (\<lambda>_. False) t"
    by (auto simp: heartbeat_open_def serial_open_def serial_init_def serial_set_def env_boot_def ret0_def
        MODE_def split: option.split)
  then obtain hb v where v: "heartbeat_open env_boot t = Ok (Some hb) v" "2 ^ 40 \<le> hb"
    by (auto simp: wp_def split: result.splits)
  obtain w where "iterR n (drop_val (chan0_recv_wait env_boot)) v = Ok () w"
    using wp_returns [OF wp_prepares_wait [OF devices_up_boot]] by blast
  then have "\<exists>u. boot_system env_boot n fd ad f buf store0 = Ok (Some hb) u"
    by (simp add: boot_system_def bindR_def t v(1) chan_recv_enter_def chan1_recv_enter_def index_recv_enter_def modify_def ret_def)
  then obtain u where u: "boot_system env_boot n fd ad f buf store0 = Ok (Some hb) u" by blast
  have "hist store0 = []" by (simp add: store0_def)
  from wp_Ok [OF wp_boot_system [OF devices_up_boot initial_store0 this] u]
  have "answered env_boot [] (hist u)" "\<forall>x \<in> set (hist u). \<not> transfer (fst x)" unfolding ready_def by blast+
  from numbered_fresh [OF this, of "{}"] have "fresh_hist (hist u)" "\<forall>f \<in> open_fds (hist u). 2 ^ 40 \<le> f"
    by (simp_all add: fresh_hist_def open_fds_def)
  with u v(2) show thesis by (blast intro: that)
qed

text \<open>A client asks for a file; channel 0 opens it and reads a first block.\<close>

lemma env_boot_simps [simp]:
  "k_ret env_boot h (Open p fl m) = (if m = MODE then 3 else 2 ^ 40 + int (length h))"
  "k_ret env_boot h (Ioctl f DMA_RD off) = 0x8000" "k_data env_boot = data0"
  "pl_word env_boot h w i = 0x400" "k_time env_boot h = (0, 0)"
  by (simp_all add: env_boot_def)

lemma first_turn:
  assumes "initial u" and "mn_read_bytes (mn u) = 0" and "bram_ps u 19 = 0" and "bram_ps u 23 = 0" and "apart hb u"
    and "3 \<notin> open_fds (hist u) \<union> {hb, ls_file u, sy_file u}"
    and "\<forall>f \<in> open_fds (hist u). count_list [ls_file u, sy_file u, hb] f \<le> 1"
  shows "wp (chan_recv_body env_boot 0) (\<lambda>_ v. apart hb v \<and> mn_recording v \<and>
     received (mn_dma v) (mn_fd v) (hist v) = replicate 0x8000 0) (\<lambda>_. False) u"
  using assms
  by (simp add: chan_recv_body_def mn_record_def mn_open_def sprintf_fits_def gettimeofday_def
        mn_fetch_def chan_fifo_count_def mn_flush_def store_words DMA_SIZE_def wp_dma_read_one
        block_ok_def block_data_def bram_word_pl DMA_TRANS_SIZE_def DMA_PREREAD_def IFD_WRITE_MN_def
        initial_def apart_def mn_recording_def data0_def hist_simps)


lemma boot_run:
  obtains hb and u v :: store_state where "boot_system env_boot 1 (-1) [] '''' (\<lambda>_. 0) store0 = Ok (Some hb) u"
    and "fresh_hist (hist u)" and "0 \<notin> open_fds (hist u)" and "-1 \<notin> open_fds (hist u)"
    and "schedule (system_step env_boot 5 hb) (apart hb) u v" and "mn_recording v"
    and "received (mn_dma v) (mn_fd v) (hist v) = replicate 0x8000 0"
proof -
  obtain hb and u :: store_state where u: "boot_system env_boot 1 (-1) [] '''' (\<lambda>_. 0) store0 = Ok (Some hb) u"
      "fresh_hist (hist u)" "2 ^ 40 \<le> hb" "\<And>f. f \<in> open_fds (hist u) \<Longrightarrow> 2 ^ 40 \<le> f"
    by (rule boot_system_env_boot) blast
  have fds: "0 \<notin> open_fds (hist u)" "-1 \<notin> open_fds (hist u)" "3 \<notin> open_fds (hist u)"
    using u(4) by fastforce+
  have h0: "hist store0 = []" by (simp add: store0_def)
  note locals = wp_Ok [OF wp_boot_system [OF devices_up_boot initial_store0 h0] u(1)]
  note start = boot_system_begin [OF devices_up_boot initial_store0 h0 u(1) fds(2)]
  have ap: "apart hb u" using start(5) [OF u(2) fds(1)] .
  let ?u = "u\<lparr>hist := hist u @ [], bram_ps := (bram_ps u)(19 := 0)\<rparr>"
  have "system_step env_boot 5 hb Client u ?u"
    unfolding system_step.simps by (rule exI [of _ "[]"], rule exI [of _ "(bram_ps u)(19 := 0)"]) simp
  moreover have ap': "apart hb ?u" using ap by (simp add: apart_def)
  ultimately have s1: "schedule (system_step env_boot 5 hb) (apart hb) u ?u"
    by (intro schedule.act [OF schedule.idle [of "apart hb"], OF ap])
  have "wp (chan_recv_body env_boot 0) (\<lambda>_ v. apart hb v \<and> mn_recording v \<and>
     received (mn_dma v) (mn_fd v) (hist v) = replicate 0x8000 0) (\<lambda>_. False) ?u"
  proof (rule first_turn)
    show "\<forall>f \<in> open_fds (hist ?u). count_list [ls_file ?u, sy_file ?u, hb] f \<le> 1"
      using locals fds by auto
  qed (use locals ap' fds u(3) in \<open>auto simp: ready_def initial_def boot_words_def unat_eq_zero\<close>)
  then obtain v where v: "chan_recv_body env_boot 0 ?u = Ok () v" "apart hb v" "mn_recording v"
      "received (mn_dma v) (mn_fd v) (hist v) = replicate 0x8000 0"
    by (blast dest: wp_returns)
  have "schedule (system_step env_boot 5 hb) (apart hb) u v"
    by (rule schedule.act [OF s1, where i = Channel0]) (use v in simp_all)
  then show thesis by (rule that [OF u(1,2) fds(1,2)]) (use v in simp_all)
qed

section \<open>Properties\<close>

text \<open>C14: on working devices the start-up ends, with the heartbeat as the first thread, no DMA transfer
  and no record file opened, and the other four threads started only after every BRAM word they
  share has its initial value.  Words 24 and 25, the stop flag of the index recorder and the
  device state, are among those it leaves alone.\<close>

theorem main_start_boots:
  assumes "devices_up e" and "initial s"
  shows "\<exists>t. main_start e s = Ok () t \<and> initial t \<and> (\<forall>(i, v) \<in> set boot_words. bram_ps t i = v) \<and>
    bram_ps t 24 = bram_ps s 24 \<and> bram_ps t 25 = bram_ps s 25 \<and>
    (\<exists>h. hist t = hist s @ h \<and> boot_calls h)"
  using wp_returns [OF wp_main_start [OF assms]] by (auto simp: boot_done_def boot_words_def)

theorem main_start_boots_witness:
  "\<exists>t. main_start env_boot store0 = Ok () t \<and> bram_ps t 2 = 0x8000 \<and> bram_ps t 19 = 1"
  using main_start_boots [OF devices_up_boot initial_store0] by (auto simp: boot_words_def)

text \<open>C6: the system comes up.  When the start-up, the heartbeat and the entries of the threads have
  run, each recorder is in the initial state of its loop and no two share an open file or an
  engine.  From there, in every run of the system in which \<open>apart\<close> holds of every state, that is
  in which at no time an open file is held by two threads, both channels hold all that their
  engines delivered.  Nothing is said of a run after a stale descriptor number has come to name
  another thread's file.\<close>

theorem system_boots:
  assumes "system_env e" and "devices_up e" and "initial s" and "hist s = []"
    and "boot_system e n fd ad f buf s = Ok (Some hb) u"
    and "fresh_hist (hist u)" and "0 \<notin> open_fds (hist u)" and "fd \<notin> open_fds (hist u)"
  shows "mn_begin u \<and> ls_begin u \<and> sy_begin u \<and> apart hb u \<and>
    (\<forall>ss v. schedule (system_step e ss hb) (apart hb) u v \<longrightarrow>
      (mn_recording v \<longrightarrow> received (mn_dma v) (mn_fd v) (hist v)
        = written (mn_fd v) (hist v) @ mem_bytes (rxmem v 0) 0 (mn_pending v)) \<and>
      (ls_is_open v \<longrightarrow> received (ls_dma v) (ls_file v) (hist v)
        = written (ls_file v) (hist v) @ mem_bytes (rxmem v 1) 0 (ls_pending v)))"
proof -
  note start = boot_system_begin [OF assms(2-5,8)]
  have "(mn_recording v \<longrightarrow> received (mn_dma v) (mn_fd v) (hist v)
        = written (mn_fd v) (hist v) @ mem_bytes (rxmem v 0) 0 (mn_pending v)) \<and>
      (ls_is_open v \<longrightarrow> received (ls_dma v) (ls_file v) (hist v)
        = written (ls_file v) (hist v) @ mem_bytes (rxmem v 1) 0 (ls_pending v))"
    if "schedule (system_step e ss hb) (apart hb) u v" for ss v
    using system_invs [OF assms(1) start(2-4) that]
    by (auto simp: mn_inv_def mn_inv_upto_def mn_stream_def ls_inv_def ls_inv_upto_def ls_stream_def)
  with start(2-4) start(5) [OF assms(6,7)] show ?thesis by blast
qed

theorem system_boots_witness:
  "\<exists>hb (u :: store_state) v. boot_system env_boot 1 (-1) [] '''' (\<lambda>_. 0) store0 = Ok (Some hb) u \<and>
     schedule (system_step env_boot 5 hb) (apart hb) u v \<and> mn_recording v \<and>
     received (mn_dma v) (mn_fd v) (hist v) = replicate 0x8000 0 \<and>
     replicate 0x8000 0 = written (mn_fd v) (hist v) @ mem_bytes (rxmem v 0) 0 (mn_pending v)"
proof -
  obtain hb and u v :: store_state where r: "boot_system env_boot 1 (-1) [] '''' (\<lambda>_. 0) store0 = Ok (Some hb) u"
      "fresh_hist (hist u)" "0 \<notin> open_fds (hist u)" "-1 \<notin> open_fds (hist u)"
      "schedule (system_step env_boot 5 hb) (apart hb) u v" "mn_recording v"
      "received (mn_dma v) (mn_fd v) (hist v) = replicate 0x8000 0"
    by (rule boot_run)
  have "hist store0 = []" by (simp add: store0_def)
  from system_boots [OF system_env_boot devices_up_boot initial_store0 this r(1-4)] r(5-7)
  have "replicate 0x8000 0 = written (mn_fd v) (hist v) @ mem_bytes (rxmem v 0) 0 (mn_pending v)" by metis
  with r show ?thesis by blast
qed

end
