(* ===== verification/Selftest.thy ===== *)
theory Selftest
  imports Store
begin

text \<open>
  The test routines of ubram.c, udma.c and the direct memory accesses of ummap.c.  The program
  does not call them; the clock readings they print are left out.
\<close>

section \<open>Direct accesses to memory (ummap.c)\<close>

text \<open>Memory is a function from addresses to bytes; 32-bit values are little-endian.\<close>

definition mmap_write32 :: "u64 \<Rightarrow> u32 \<Rightarrow> u32 \<Rightarrow> (u64 \<Rightarrow> u8) \<Rightarrow> (u64 \<Rightarrow> u8)" where
  "mmap_write32 virtaddr offset v m = (let a = virtaddr + ucast offset in
     m(a := ucast v, a + 1 := ucast (drop_bit 8 v), a + 2 := ucast (drop_bit 16 v),
       a + 3 := ucast (drop_bit 24 v)))"

definition mmap_read32 :: "u64 \<Rightarrow> u32 \<Rightarrow> (u64 \<Rightarrow> u8) \<Rightarrow> u32" where
  "mmap_read32 virtaddr offset m = (let a = virtaddr + ucast offset in
     ucast (m a) OR push_bit 8 (ucast (m (a + 1))) OR push_bit 16 (ucast (m (a + 2)))
       OR push_bit 24 (ucast (m (a + 3))))"

definition open_memory :: "env \<Rightarrow> ('m machine_scheme, int) prog" where
  "open_memory e = bindR (syscall e (Open ''/dev/mem'' [O_RDWR] 0)) (\<lambda>fd.
     if fd = -1 then abort_with (Exited 1) else ret fd)"

text \<open>The position is an \<open>unsigned\<close>: its low 32 bits decide whether the seek failed.\<close>

definition seek_memory :: "env \<Rightarrow> int \<Rightarrow> u64 \<Rightarrow> ('m machine_scheme, unit) prog" where
  "seek_memory e fd offset = bindR (syscall e (Lseek fd (uint offset) SEEK_SET)) (\<lambda>pos.
     if (word_of_int pos :: u32) = -1 then abort_with (Exited 1) else ret ())"

section \<open>The BRAM test (ubram.c)\<close>

definition UBRAM_TEST_LOOP_COUNT :: nat where "UBRAM_TEST_LOOP_COUNT = 10000"

text \<open>The writes of one pass for \<open>count\<close>.\<close>

definition ubram_test_pair :: "nat \<Rightarrow> ('m machine_scheme, unit) prog" where
  "ubram_test_pair count = seqR
     [bram_st 0 count 0xDEADBEFFFACEB00C, bram_st 0 (count + 1) (0x55555555AAAA0000 + of_nat count),
      bram_st 1 count 0xFACEB00CDEADBEFF, bram_st 1 (count + 1) (0xAAAAAAAA55550000 + of_nat count)]"

definition ubram_test_pass :: "('m machine_scheme, unit) prog" where
  "ubram_test_pass = seqR (map (\<lambda>k. ubram_test_pair (2 * k)) [0..<BRAM_SIZE div 8 div 2])"

definition ubram_selftest :: "env \<Rightarrow> ('m machine_scheme, int) prog" where
  "ubram_selftest e = bindR (seqR
     [iterR UBRAM_TEST_LOOP_COUNT ubram_test_pass,
      iterR UBRAM_TEST_LOOP_COUNT (seqR [drop_val (memcpy_from_bram e 0 BRAM_SIZE),
        drop_val (memcpy_from_bram e 1 BRAM_SIZE)])]) (\<lambda>_. ret 0)"

section \<open>The DMA tests (udma.c)\<close>

definition TEST_LEN :: int where "TEST_LEN = 384 * 1024"
definition TEST_LOOP_COUNT :: nat where "TEST_LOOP_COUNT = 10000"

definition axidma_rxfile :: "nat \<Rightarrow> string" where
  "axidma_rxfile n = ''/home/netlogon/nfs/chan'' @ dec n @ ''_rx''"

text \<open>
  The buffer the test fills holds \<open>BUFFER_SIZE\<close> bytes, as \<open>dma_init\<close> allocates it; a copy beyond
  it is undefined.
\<close>

definition reserved_pattern :: bytes where
  "reserved_pattern = concat (map (\<lambda>c. take 4 (le_bytes (of_nat (c + 1)))) [0..<0x2000])"

fun reserved_passes :: "nat list \<Rightarrow> ('m udma_state_scheme, unit) prog" where
  "reserved_passes [] s = Ok () s"
| "reserved_passes (k # ks) s =
     (if BUFFER_SIZE < k * 0x100000 + 0x8000 then Fail Undefined s
      else reserved_passes ks (s\<lparr>rxmem := (rxmem s)(1 :=
        patch (rxmem s 1) (k * 0x100000) (take 0x8000 reserved_pattern))\<rparr>))"

definition dma_reserved_memory_test :: "('m udma_state_scheme, unit) prog" where
  "dma_reserved_memory_test = reserved_passes [0..<100]"

definition dma_selftest :: "('m udma_state_scheme, int) prog" where
  "dma_selftest = ret 0"

text \<open>Every statement of the timed loop is commented out.\<close>

definition ddr_perfmance_test :: "env \<Rightarrow> ('m machine_scheme, int) prog" where
  "ddr_perfmance_test e = bindR (sysdo e (Time Gettimeofday)) (\<lambda>_.
     bindR (sysdo e (Time Gettimeofday)) (\<lambda>_. ret 0))"

definition dma_do_rx_test :: "env \<Rightarrow> nat \<Rightarrow> int \<Rightarrow> int \<Rightarrow> int \<Rightarrow> ('m udma_state_scheme, int) prog" where
  "dma_do_rx_test e n dma file len = bindR (seqR
     [sysdo e (Time Gettimeofday),
      iterR TEST_LOOP_COUNT (drop_val (dma_fwrite e n dma file len)),
      sysdo e (Time Gettimeofday)]) (\<lambda>_. ret 0)"

text \<open>\<open>virtaddr\<close> is the receive buffer of engine \<open>n\<close>, which the \<open>read\<close> fills from \<open>file\<close>.\<close>

definition dma_do_tx_test :: "env \<Rightarrow> nat \<Rightarrow> int \<Rightarrow> int \<Rightarrow> int \<Rightarrow> ('m udma_state_scheme, int) prog" where
  "dma_do_tx_test e n dma file len = bindR (seqR
     [sysdo e (Time Gettimeofday),
      iterR TEST_LOOP_COUNT (seqR
        [bindR (syscall_data e (Read file (nat len))) (\<lambda>(r, d).
           modify (\<lambda>s. s\<lparr>rxmem := (rxmem s)(n := patch (rxmem s n) 0 (take (nat r) d))\<rparr>)),
         drop_val (dma_ioctl_read e n dma 0 len)]),
      sysdo e (Time Gettimeofday)]) (\<lambda>_. ret 0)"

text \<open>\<open>fd\<close> is never assigned.\<close>

definition dma0_test_routine :: "env \<Rightarrow> int \<Rightarrow> ('m udma_state_scheme, int) prog" where
  "dma0_test_routine e fd = bindR (gets (\<lambda>s. axidma s ! 0)) (\<lambda>a.
     bindR (dma_do_rx_test e (nat (dma_num a)) (dma_fd a) fd TEST_LEN) (\<lambda>_.
     bindR (sysdo e (Close fd)) (\<lambda>_. ret 0)))"

text \<open>The routines of engines 1 and 2, which differ in their lengths.\<close>

definition dma_file_test :: "nat \<Rightarrow> int \<Rightarrow> env \<Rightarrow> ('m udma_state_scheme, int) prog" where
  "dma_file_test i len e =
     bindR (syscall e (Open (axidma_rxfile i) FLAGS MODE)) (\<lambda>fd.
     if fd < 0 then ret (-1)
     else bindR (gets (\<lambda>s. axidma s ! i)) (\<lambda>a.
       bindR (dma_do_rx_test e (nat (dma_num a)) (dma_fd a) fd len) (\<lambda>_.
       bindR (sysdo e (Close fd)) (\<lambda>_. ret 0))))"

definition dma1_test_routine :: "env \<Rightarrow> ('m udma_state_scheme, int) prog" where
  "dma1_test_routine = dma_file_test 1 0x1000000"

definition dma2_test_routine :: "env \<Rightarrow> ('m udma_state_scheme, int) prog" where
  "dma2_test_routine = dma_file_test 2 TEST_LEN"

section \<open>What the tests do\<close>

lemma mmap_write_read32: "mmap_read32 a off (mmap_write32 a off v m) = v"
proof -
  define b where "b = a + ucast off"
  have d: "b + 1 \<noteq> b" "b + 2 \<noteq> b" "b + 3 \<noteq> b" "b + 2 \<noteq> b + 1" "b + 3 \<noteq> b + 1" "b + 3 \<noteq> b + 2"
    by simp_all
  have "ucast (ucast v :: u8) OR push_bit 8 (ucast (ucast (drop_bit 8 v) :: u8))
      OR push_bit 16 (ucast (ucast (drop_bit 16 v) :: u8)) OR push_bit 24 (ucast (ucast (drop_bit 24 v) :: u8)) = v"
    (is "?w = v")
  proof (rule bit_word_eqI)
    fix n assume "n < LENGTH(32)"
    then show "bit ?w n = bit v n" by (cases "n < 24"; cases "n < 16") (auto simp: bit_simps)
  qed
  then show ?thesis using d by (simp add: mmap_read32_def mmap_write32_def Let_def flip: b_def)
qed

text \<open>The third pass leaves the receive buffer.\<close>

lemma dma_reserved_memory_test_overflow: "\<exists>t. dma_reserved_memory_test s = Fail Undefined t"
proof -
  have "[0..<100] = 0 # 1 # 2 # [3..<100]" by (simp add: upt_rec)
  then show ?thesis by (simp add: dma_reserved_memory_test_def BUFFER_SIZE_def)
qed

text \<open>The BRAM test overwrites every word of the PS half, the recorder's flags among them.\<close>

definition ubram_pattern :: "nat \<Rightarrow> u64" where
  "ubram_pattern i = (if even i then 0xFACEB00CDEADBEFF else 0xAAAAAAAA55550000 + of_nat (i - 1))"

lemma ubram_test_pairs:
  "\<exists>t. seqR (map (\<lambda>k. ubram_test_pair (2 * k)) ks) s = Ok () t \<and>
    (\<forall>i<512. bram_ps t i = (if i div 2 \<in> set ks then ubram_pattern i else bram_ps s i))"
proof (induction ks arbitrary: s)
  case Nil
  then show ?case by simp
next
  case (Cons k ks)
  obtain u where u: "ubram_test_pair (2 * k) s = Ok () u"
      "\<forall>i<512. bram_ps u i = (if i div 2 = k then ubram_pattern i else bram_ps s i)"
  proof -
    have "wp (ubram_test_pair (2 * k)) (\<lambda>_ u. \<forall>i<512. bram_ps u i
        = (if i div 2 = k then ubram_pattern i else bram_ps s i)) (\<lambda>_. False) s"
      by (auto simp: ubram_test_pair_def ubram_pattern_def)
    then show thesis using that by (blast dest: wp_returns)
  qed
  obtain t where "seqR (map (\<lambda>k. ubram_test_pair (2 * k)) ks) u = Ok () t"
      "\<forall>i<512. bram_ps t i = (if i div 2 \<in> set ks then ubram_pattern i else bram_ps u i)"
    using Cons by blast
  with u show ?case by auto
qed

lemma ubram_test_passes:
  assumes "0 < n"
  shows "\<exists>t. iterR n ubram_test_pass s = Ok () t \<and> (\<forall>i<512. bram_ps t i = ubram_pattern i)"
  using assms
proof (induction n arbitrary: s)
  case 0
  then show ?case by simp
next
  case (Suc n)
  have half: "i div 2 < 512" if "i < 512" for i :: nat using that by linarith
  obtain u where u: "ubram_test_pass s = Ok () u" "\<forall>i<512. bram_ps u i = ubram_pattern i"
    using ubram_test_pairs [of "[0..<BRAM_SIZE div 8 div 2]" s]
    by (auto simp: ubram_test_pass_def BRAM_SIZE_def half simp del: upt_Suc)
  show ?case
  proof (cases "n = 0")
    case True
    with u show ?thesis by simp
  next
    case False
    with Suc.IH [of u] u(1) show ?thesis by auto
  qed
qed

lemma iter_bram_copies:
  "\<exists>t. iterR n (seqR [drop_val (memcpy_from_bram e 0 BRAM_SIZE), drop_val (memcpy_from_bram e 1 BRAM_SIZE)]) s
    = Ok () t \<and> bram_ps t = bram_ps s"
proof (induction n arbitrary: s)
  case 0
  then show ?case by simp
next
  case (Suc n)
  let ?c = "\<lambda>w s. emit (BramCp w BRAM_SIZE) 0 (bram_bytes e w BRAM_SIZE s) s"
  from Suc [of "?c 1 (?c 0 s)"] show ?case
    by (simp add: run_simps memcpy_from_bram_def)
qed

lemma ubram_selftest_clobbers:
  "\<exists>t. ubram_selftest e s = Ok 0 t \<and> (\<forall>i<512. bram_ps t i = ubram_pattern i)"
proof -
  obtain u where u: "iterR UBRAM_TEST_LOOP_COUNT ubram_test_pass s = Ok () u"
      "\<forall>i<512. bram_ps u i = ubram_pattern i"
    using ubram_test_passes [of UBRAM_TEST_LOOP_COUNT s] by (auto simp: UBRAM_TEST_LOOP_COUNT_def)
  obtain t where t: "iterR UBRAM_TEST_LOOP_COUNT (seqR [drop_val (memcpy_from_bram e 0 BRAM_SIZE),
      drop_val (memcpy_from_bram e 1 BRAM_SIZE)]) u = Ok () t" "bram_ps t = bram_ps u"
    using iter_bram_copies by blast
  with u show ?thesis by (simp add: ubram_selftest_def bindR_def ret_def del: One_nat_def)
qed

end
