(* ===== verification/Udmabuf.thy ===== *)
theory Udmabuf
  imports Udma
begin

text \<open>
  \<open>udmabuf.c\<close>: memory tests on the u-dma-buf driver.  The routines \<open>check_buf\<close> and \<open>clear_buf\<close>
  work on any memory, given by its read and write functions; the tests run them on the mapped
  buffer, the memory \<open>dmabuf\<close> of the state.  \<open>print_diff_time\<close> computes \<open>timeval_diff\<close> of Udma.
\<close>

section \<open>The buffer tests\<close>

text \<open>
  The two inner loops of \<open>check_buf\<close> over one block of \<open>m\<close> bytes at \<open>i\<close>.  \<open>i\<close>, \<open>m\<close> and
  \<open>error_count\<close> are \<open>int\<close>s and the size \<open>sz\<close> an \<open>unsigned int\<close>; \<open>None\<close> is the overflow of an \<open>int\<close>.
\<close>

definition fill_block :: "('b \<Rightarrow> nat \<Rightarrow> u8 \<Rightarrow> 'b) \<Rightarrow> int \<Rightarrow> int \<Rightarrow> 'b \<Rightarrow> 'b" where
  "fill_block wr i m b = foldl (\<lambda>b k. wr b (nat (i + int k)) (of_nat k AND 0xFF)) b [0..<nat m]"

primrec count_errors :: "(nat \<Rightarrow> u8) \<Rightarrow> int \<Rightarrow> nat list \<Rightarrow> int \<Rightarrow> int option" where
  "count_errors buf i [] error_count = Some error_count"
| "count_errors buf i (k # ks) error_count =
     (if buf (nat (i + int k)) \<noteq> of_nat k AND 0xFF then
        if int_fits (error_count + 1) then count_errors buf i ks (error_count + 1) else None
      else count_errors buf i ks error_count)"

text \<open>
  One pass over the buffer: blocks of 256 bytes and the rest.  The comparisons with \<open>sz\<close> are
  unsigned; the rest \<open>sz - i\<close> is at most 256, so that \<open>m\<close> holds it.
\<close>

lemma uint_rest_pos: "w < v \<Longrightarrow> 0 < uint (v - w)"
  by (metis diff_eq_diff_eq diff_self order_less_irrefl uint_0_iff uint_ge_0 order_le_less)

function check_pass ::
  "('b \<Rightarrow> nat \<Rightarrow> u8) \<Rightarrow> ('b \<Rightarrow> nat \<Rightarrow> u8 \<Rightarrow> 'b) \<Rightarrow> u32 \<Rightarrow> int \<Rightarrow> int \<times> 'b \<Rightarrow> (int \<times> 'b) option" where
  "check_pass rd wr sz i (error_count, b) =
     (if (word_of_int i :: u32) < sz then
        if \<not> int_fits (i + 256) then None
        else
          let m = (if (word_of_int (i + 256) :: u32) < sz then 256 else uint (sz - word_of_int i));
              b' = fill_block wr i m b
          in case count_errors (rd b') i [0..<nat m] error_count of
               None \<Rightarrow> None
             | Some error_count' \<Rightarrow>
                 if int_fits (i + m) then check_pass rd wr sz (i + m) (error_count', b') else None
      else Some (error_count, b))"
  by pat_completeness auto
termination
  by (relation "measure (\<lambda>(rd, wr, sz, i, x). nat (2 ^ 31 - i))")
    (auto simp: int_fits_def Let_def uint_rest_pos split: if_splits)

declare check_pass.simps [simp del]

definition check_buf ::
  "('b \<Rightarrow> nat \<Rightarrow> u8) \<Rightarrow> ('b \<Rightarrow> nat \<Rightarrow> u8 \<Rightarrow> 'b) \<Rightarrow> u32 \<Rightarrow> 'b \<Rightarrow> (int \<times> 'b) option" where
  "check_buf rd wr sz b = ((\<lambda>x. Option.bind x (check_pass rd wr sz 0)) ^^ 9) (Some (0, b))"

definition clear_buf :: "('b \<Rightarrow> nat \<Rightarrow> u8 \<Rightarrow> 'b) \<Rightarrow> u32 \<Rightarrow> 'b \<Rightarrow> (int \<times> 'b) option" where
  "clear_buf wr sz b = Some (0, ((\<lambda>b. foldl (\<lambda>b k. wr b k 0) b [0..<unat sz]) ^^ 99) b)"

section \<open>The tests on the device\<close>

record udmabuf_state = machine +
  dmabuf :: "nat \<Rightarrow> u8"

definition write_attr :: "env \<Rightarrow> string \<Rightarrow> int \<Rightarrow> ('m machine_scheme, unit) prog" where
  "write_attr e p v = bindR (syscall e (Open p [O_WRONLY] 0)) (\<lambda>fd.
     if fd = -1 then ret () else seqR [sysdo e (Write fd (str_bytes (sdec v))), sysdo e (Close fd)])"

text \<open>
  The array \<open>attr\<close> after a read of an attribute, \<open>None\<close> when it cannot be opened.  The read adds no
  NUL: what follows its bytes is what the array held before.
\<close>

definition read_attr :: "env \<Rightarrow> string \<Rightarrow> bytes \<Rightarrow> ('m machine_scheme, bytes option) prog" where
  "read_attr e p arr = bindR (syscall e (Open p [O_RDONLY] 0)) (\<lambda>fd.
     if fd = -1 then ret None
     else bindR (syscall_data e (Read fd 1024)) (\<lambda>(r, d).
       bindR (sysdo e (Close fd)) (\<lambda>_. ret (Some (take (nat r) d @ drop (nat r) arr)))))"

text \<open>\<open>sscanf(s, "%d", ...)\<close>: the number, when there is one.\<close>

definition scan_d :: "string \<Rightarrow> int option" where
  "scan_d s = (case dropWhile is_space s of [] \<Rightarrow> None
     | c # cs \<Rightarrow>
       if is_digit c \<or> (c = CHR ''-'' \<or> c = CHR ''+'') \<and> cs \<noteq> [] \<and> is_digit (hd cs)
       then Some (atol s) else None)"

text \<open>
  A test of \<open>sz\<close> bytes with the routine \<open>f\<close>.  The result of \<open>mmap\<close> is not checked, and the buffer
  is never unmapped.
\<close>

definition buf_test ::
  "((nat \<Rightarrow> u8) \<Rightarrow> (int \<times> (nat \<Rightarrow> u8)) option) \<Rightarrow> env \<Rightarrow> u32 \<Rightarrow> int \<Rightarrow> bool \<Rightarrow> ('m udmabuf_state_scheme, unit) prog" where
  "buf_test f e sz sync_mode o_sync = seqR
     [write_attr e ''/sys/class/udmabuf/udmabuf0/sync_mode'' sync_mode,
      bindR (syscall e (Open ''/dev/udmabuf0'' (O_RDWR # (if o_sync then [O_SYNC] else [])) 0)) (\<lambda>fd.
        if fd = -1 then ret ()
        else bindR (syscall e (Mem (Mmap [MAP_SHARED] (unat sz) fd 0))) (\<lambda>p. seqR
          [sysdo e (Time Gettimeofday),
           if (word_of_int p :: u64) = MAP_FAILED \<and> 0 < sz then abort_with Undefined
           else bindR (gets (\<lambda>s. f (dmabuf s))) (\<lambda>x.
             case x of None \<Rightarrow> abort_with Undefined
             | Some (error_count, b) \<Rightarrow> modify (\<lambda>s. s\<lparr>dmabuf := b\<rparr>)),
           sysdo e (Time Gettimeofday),
           sysdo e (Close fd)]))]"

definition check_buf_test :: "env \<Rightarrow> u32 \<Rightarrow> int \<Rightarrow> bool \<Rightarrow> ('m udmabuf_state_scheme, unit) prog" where
  "check_buf_test e sz = buf_test (check_buf (\<lambda>b. b) fun_upd sz) e sz"

definition clear_buf_test :: "env \<Rightarrow> u32 \<Rightarrow> int \<Rightarrow> bool \<Rightarrow> ('m udmabuf_state_scheme, unit) prog" where
  "clear_buf_test e sz = buf_test (clear_buf fun_upd sz) e sz"

text \<open>
  \<open>size0\<close> and \<open>attr0\<close> are the indeterminate initial values of \<open>buf_size\<close> and \<open>attr\<close>.  The physical
  address is only printed.
\<close>

definition udmabuf_selftest :: "env \<Rightarrow> u32 \<Rightarrow> bytes \<Rightarrow> ('m udmabuf_state_scheme, unit) prog" where
  "udmabuf_selftest e size0 attr0 =
     bindR (read_attr e ''/sys/class/udmabuf/udmabuf0/phys_addr'' attr0) (\<lambda>a1.
     bindR (read_attr e ''/sys/class/udmabuf/udmabuf0/size'' (case a1 of None \<Rightarrow> attr0 | Some a \<Rightarrow> a)) (\<lambda>a.
     let sz = (case Option.bind a (scan_d \<circ> cstr) of None \<Rightarrow> size0 | Some v \<Rightarrow> word_of_int v) in seqR
       ([write_attr e ''/sys/class/udmabuf/udmabuf0/sync_mode'' 2,
         write_attr e ''/sys/class/udmabuf/udmabuf0/debug_vma'' 0,
         bindR (syscall e (Open ''/dev/udmabuf0'' [O_RDWR] 0)) (\<lambda>fd.
           if fd = -1 then ret ()
           else bindR (syscall e (Lseek fd 0 SEEK_END)) (\<lambda>last_pos.
             if last_pos = -1 then abort_with (Exited (-1)) else sysdo e (Close fd)))]
        @ concat (map (\<lambda>m. [check_buf_test e sz m False, check_buf_test e sz m True]) [0..7])
        @ concat (map (\<lambda>m. [clear_buf_test e sz m False, clear_buf_test e sz m True]) [0..7]))))"

section \<open>A memory with independent cells\<close>

text \<open>
  Every cell answers a write \<open>v\<close> with a fixed value \<open>resp i v\<close>: \<open>v\<close> itself when it is sound,
  another value when bits are stuck.
\<close>

lemma and_255_u8: "(w :: u8) AND 0xFF = w"
proof -
  have "(0xFF :: u8) = - 1" by simp
  then show ?thesis by (simp only: and.right_neutral)
qed

lemma of_nat_block:
  assumes "256 dvd i"
  shows "(of_nat (i + k) :: u8) = of_nat k" "i \<le> j \<Longrightarrow> (of_nat (j - i) :: u8) = of_nat j"
proof -
  have z: "(of_nat i :: u8) = 0" using assms by (simp add: word_of_nat_eq_0_iff)
  then show "(of_nat (i + k) :: u8) = of_nat k" by simp
  show "(of_nat (j - i) :: u8) = of_nat j" if "i \<le> j" using z that by (simp add: of_nat_diff)
qed

text \<open>The count of a block, as long as the counter holds it.\<close>

lemma count_errors_eq:
  assumes "0 \<le> ec" and "ec < 2 ^ 31"
  shows "count_errors buf i ks ec =
    (let n = ec + int (length (filter (\<lambda>k. buf (nat (i + int k)) \<noteq> of_nat k) ks))
     in if n < 2 ^ 31 then Some n else None)"
  using assms by (induction ks arbitrary: ec) (auto simp: Let_def int_fits_def and_255_u8)

text \<open>The test of the loop and the length of a block, for a size the index can reach.\<close>

lemma word_index: "i < 2 ^ 31 \<Longrightarrow> ((of_nat i :: u32) < sz) = (i < unat sz)"
  by (simp add: word_less_nat_alt unat_of_nat)

lemma word_rest: "i < unat sz \<Longrightarrow> uint (sz - of_nat i :: u32) = int (unat sz - i)"
proof -
  assume *: "i < unat sz"
  then have "sz - of_nat i = (of_nat (unat sz - i) :: u32)" by (simp add: of_nat_diff)
  moreover have "unat sz < 2 ^ 32" by (rule order_less_le_trans [OF unsigned_less]) simp
  then have "unat sz - i < 2 ^ 32" by simp
  ultimately show ?thesis by (simp add: uint_nat unat_of_nat del: of_nat_unat)
qed

locale cell_memory =
  fixes rd :: "'b \<Rightarrow> nat \<Rightarrow> u8" and wr :: "'b \<Rightarrow> nat \<Rightarrow> u8 \<Rightarrow> 'b" and resp :: "nat \<Rightarrow> u8 \<Rightarrow> u8"
  assumes rd_wr: "rd (wr b i v) j = (if i = j then resp i v else rd b j)"
begin

text \<open>The byte a pass leaves in cell \<open>j\<close>; the cell is bad when it does not hold that byte.\<close>

lemma rd_fill:
  "rd (fill_block wr (int i) (int n) b) j =
     (if i \<le> j \<and> j < i + n then resp j (of_nat (j - i)) else rd b j)"
  by (induction n) (auto simp: fill_block_def rd_wr and_255_u8 nat_add_distrib)

lemma errors_fill:
  assumes "256 dvd i"
  shows "length (filter (\<lambda>k. rd (fill_block wr (int i) (int n) b) (nat (int i + int k)) \<noteq> of_nat k) [0..<n])
    = card {j. i \<le> j \<and> j < i + n \<and> resp j (of_nat j) \<noteq> of_nat j}"
proof -
  let ?bad = "\<lambda>j. resp j (of_nat j) \<noteq> of_nat j"
  have "length (filter (\<lambda>k. rd (fill_block wr (int i) (int n) b) (nat (int i + int k)) \<noteq> of_nat k) [0..<n])
      = card {k. k < n \<and> ?bad (i + k)}"
    using of_nat_block [OF assms]
    by (auto simp: rd_fill nat_add_distrib length_filter_conv_card intro!: arg_cong [where f = card])
  also have "\<dots> = card ((+) i ` {k. k < n \<and> ?bad (i + k)})"
    by (simp add: card_image)
  also have "(+) i ` {k. k < n \<and> ?bad (i + k)} = {j. i \<le> j \<and> j < i + n \<and> ?bad j}"
    by (force simp: image_iff dest: le_Suc_ex)
  finally show ?thesis .
qed

lemma check_pass_step:
  assumes "256 dvd i" and "i < unat sz" and "i < 2 ^ 31" and "0 \<le> ec" and "ec < 2 ^ 31"
    and n: "n = (if i + 256 < unat sz then 256 else unat sz - i)"
    and c: "c = card {j. i \<le> j \<and> j < i + n \<and> resp j (of_nat j) \<noteq> of_nat j}"
  shows "check_pass rd wr sz (int i) (ec, b) =
    (if 2 ^ 31 \<le> i + 256 \<or> 2 ^ 31 \<le> ec + int c then None
     else check_pass rd wr sz (int (i + n)) (ec + int c, fill_block wr (int i) (int n) b))"
proof (cases "2 ^ 31 \<le> i + 256")
  case True
  then have "\<not> int_fits (int i + 256)" by (simp add: int_fits_def)
  with True assms(2) word_index [OF assms(3), of sz] show ?thesis by (subst check_pass.simps) simp
next
  case False
  let ?b = "fill_block wr (int i) (int n) b"
  have len: "(if (word_of_int (int i + 256) :: u32) < sz then 256 else uint (sz - word_of_int (int i))) = int n"
    using False assms(2) word_index [of "i + 256" sz] word_rest [OF assms(2)] by (simp add: n)
  have fits: "int_fits (int i + 256)" "int_fits (int i + int n)"
    using False by (auto simp: int_fits_def n)
  have "count_errors (rd ?b) (int i) [0..<n] ec = (if ec + int c < 2 ^ 31 then Some (ec + int c) else None)"
    using assms(4,5) by (simp only: count_errors_eq errors_fill [OF assms(1)] c Let_def)
  moreover have "(word_of_int (int i) :: u32) < sz" using word_index assms(2,3) by simp
  ultimately show ?thesis using False fits
    by (subst check_pass.simps) (simp add: len Let_def del: of_int_of_nat_eq of_int_add)
qed

lemma check_pass_counts:
  assumes "256 dvd i \<or> unat sz \<le> i" and "i < 2 ^ 31" and "unat sz \<le> 2 ^ 31 - 256"
    and "0 \<le> ec" and "ec < 2 ^ 31"
    and "c = card {j. i \<le> j \<and> j < unat sz \<and> resp j (of_nat j) \<noteq> of_nat j}"
  shows "if 2 ^ 31 \<le> ec + int c then check_pass rd wr sz (int i) (ec, b) = None
    else \<exists>b'. check_pass rd wr sz (int i) (ec, b) = Some (ec + int c, b') \<and>
      (\<forall>j. rd b' j = (if i \<le> j \<and> j < unat sz then resp j (of_nat j) else rd b j))"
  using assms
proof (induction "unat sz - i" arbitrary: i ec b c rule: less_induct)
  case less
  show ?case
  proof (cases "i < unat sz")
    case False
    then have "c = 0" using less.prems(6) by auto
    with False less.prems show ?thesis by (subst check_pass.simps) (auto simp: word_index)
  next
    case True
    define n where "n = (if i + 256 < unat sz then 256 else unat sz - i)"
    let ?bad = "\<lambda>l u. {j. l \<le> j \<and> j < u \<and> resp j (of_nat j) \<noteq> of_nat j}"
    let ?c = "card (?bad i (i + n))" and ?d = "card (?bad (i + n) (unat sz))"
    have n: "0 < n" "i + n \<le> unat sz" and i: "256 dvd i" and next_i: "256 dvd (i + n) \<or> unat sz \<le> i + n"
      using True less.prems by (auto simp: n_def)
    have split: "c = ?c + ?d"
      using n unfolding less.prems(6) by (subst card_Un_disjoint [symmetric]) (auto intro: arg_cong [where f = card])
    have "i + 256 < 2 ^ 31" using True less.prems(3) i by presburger
    then have step: "check_pass rd wr sz (int i) (ec, b) =
      (if 2 ^ 31 \<le> ec + int ?c then None
       else check_pass rd wr sz (int (i + n)) (ec + int ?c, fill_block wr (int i) (int n) b))"
      using check_pass_step [OF i True less.prems(2,4,5) n_def refl, of b] by simp
    show ?thesis
    proof (cases "2 ^ 31 \<le> ec + int ?c")
      case True
      with split step show ?thesis by simp
    next
      case False
      have "unat sz - (i + n) < unat sz - i" using n True by simp
      moreover have "i + n < 2 ^ 31" using n less.prems(3) by simp
      ultimately have IH: "if 2 ^ 31 \<le> ec + int ?c + int ?d
          then check_pass rd wr sz (int (i + n)) (ec + int ?c, fill_block wr (int i) (int n) b) = None
          else \<exists>b'. check_pass rd wr sz (int (i + n)) (ec + int ?c, fill_block wr (int i) (int n) b)
              = Some (ec + int ?c + int ?d, b') \<and>
            (\<forall>j. rd b' j = (if i + n \<le> j \<and> j < unat sz then resp j (of_nat j)
              else rd (fill_block wr (int i) (int n) b) j))"
        by (intro less.hyps [OF _ next_i _ less.prems(3)]) (use False less.prems(4) in simp_all)
      have cell: "(if i + n \<le> j \<and> j < unat sz then resp j (of_nat j) else rd (fill_block wr (int i) (int n) b) j)
          = (if i \<le> j \<and> j < unat sz then resp j (of_nat j) else rd b j)" for j
        using n of_nat_block(2) [OF i] by (auto simp: rd_fill)
      have sum: "ec + int ?c + int ?d = ec + int c" using split by simp
      show ?thesis using IH False unfolding step sum cell by (simp only: if_False)
    qed
  qed
qed

text \<open>A size the index cannot reach: the last addition before it overflows.\<close>

lemma check_pass_overflows:
  assumes "256 dvd i" and "i < 2 ^ 31" and "2 ^ 31 - 256 < unat sz" and "0 \<le> ec" and "ec < 2 ^ 31"
  shows "check_pass rd wr sz (int i) (ec, b) = None"
  using assms
proof (induction "2 ^ 31 - i" arbitrary: i ec b rule: less_induct)
  case less
  have "i \<le> 2 ^ 31 - 256" using less.prems(1,2) by (auto elim!: dvdE)
  then have i: "i < unat sz" using less.prems(3) by simp
  note step = check_pass_step [OF less.prems(1) i less.prems(2,4,5) refl refl, of b]
  show ?case
  proof (cases "2 ^ 31 \<le> i + 256")
    case True
    with step show ?thesis by simp
  next
    case False
    then have *: "i + 256 < unat sz" using less.prems(1,3) by (auto elim!: dvdE)
    have "check_pass rd wr sz (int (i + 256)) (ec', b') = None" if "0 \<le> ec'" "ec' < 2 ^ 31" for ec' b'
      by (rule less.hyps) (use False less.prems that in simp_all)
    with step less.prems(4) * show ?thesis by simp
  qed
qed

lemma check_passes:
  assumes "unat sz \<le> 2 ^ 31 - 256" and "c = card {j. j < unat sz \<and> resp j (of_nat j) \<noteq> of_nat j}"
  shows "if 2 ^ 31 \<le> int (k * c)
    then ((\<lambda>x. Option.bind x (check_pass rd wr sz 0)) ^^ k) (Some (0, b)) = None
    else \<exists>b'. ((\<lambda>x. Option.bind x (check_pass rd wr sz 0)) ^^ k) (Some (0, b)) = Some (int (k * c), b') \<and>
      (\<forall>j. rd b' j = (if 0 < k \<and> j < unat sz then resp j (of_nat j) else rd b j))"
proof (induction k)
  case 0
  then show ?case by simp
next
  case (Suc k)
    show ?case
  proof (cases "2 ^ 31 \<le> int (k * c)")
    case True
    then have "2 ^ 31 \<le> int (Suc k * c)" by simp
    with True Suc show ?thesis by simp
  next
    case False
    with Suc obtain b' where "((\<lambda>x. Option.bind x (check_pass rd wr sz 0)) ^^ k) (Some (0, b)) = Some (int (k * c), b')"
      "\<forall>j. rd b' j = (if 0 < k \<and> j < unat sz then resp j (of_nat j) else rd b j)" by auto
    moreover have "if 2 ^ 31 \<le> int (k * c) + int c then check_pass rd wr sz (int 0) (int (k * c), b') = None
      else \<exists>b''. check_pass rd wr sz (int 0) (int (k * c), b') = Some (int (k * c) + int c, b'') \<and>
        (\<forall>j. rd b'' j = (if 0 \<le> j \<and> j < unat sz then resp j (of_nat j) else rd b' j))"
      by (rule check_pass_counts) (use assms False in simp_all)
    moreover have "int (k * c) + int c = int (Suc k * c)" by simp
    ultimately show ?thesis by (auto split: if_splits) metis
  qed
qed

lemma counts:
  assumes "c = card {j. j < unat sz \<and> resp j (of_nat j) \<noteq> of_nat j}"
  shows "if 2 ^ 31 - 256 < unat sz \<or> 2 ^ 31 \<le> 9 * c then check_buf rd wr sz b = None
    else \<exists>b'. check_buf rd wr sz b = Some (int (9 * c), b') \<and>
      (\<forall>j. rd b' j = (if j < unat sz then resp j (of_nat j) else rd b j))"
proof (cases "2 ^ 31 - 256 < unat sz")
  case True
  have none: "((\<lambda>x. Option.bind x (check_pass rd wr sz 0)) ^^ k) None = None" for k
    by (induction k) simp_all
  have "check_buf rd wr sz b = ((\<lambda>x. Option.bind x (check_pass rd wr sz 0)) ^^ 8) (check_pass rd wr sz 0 (0, b))"
    by (simp add: check_buf_def numeral_nat)
  also have "check_pass rd wr sz 0 (0, b) = None" using check_pass_overflows [of 0 sz 0 b] True by simp
  finally show ?thesis using True none by simp
next
  case False
  then have "unat sz \<le> 2 ^ 31 - 256" by simp
  from check_passes [OF this assms, of 9 b] False show ?thesis
    by (auto simp: check_buf_def split: if_splits)
qed

end

text \<open>The memory of the tests, with any answers of its cells.\<close>

interpretation cells: cell_memory "\<lambda>b. b" "\<lambda>b i v. b(i := resp i v)" resp for resp
  by unfold_locales auto

text \<open>C39: the check of a buffer counts every bad cell of it, one that does not give back the byte
  written to it, once in each of its nine passes, and no other cell, and leaves what the cells
  answer.  It does so exactly for the sizes up to \<open>2 ^ 31 - 256\<close> and the counts below \<open>2 ^ 31\<close>; for
  any larger one an \<open>int\<close> of its loops overflows.\<close>

theorem check_buf_counts:
  "check_buf (\<lambda>b. b) (\<lambda>b i v. b(i := resp i v)) sz b =
     (let c = card {j. j < unat sz \<and> resp j (of_nat j) \<noteq> of_nat j}
      in if 2 ^ 31 - 256 < unat sz \<or> 2 ^ 31 \<le> 9 * c then None
         else Some (int (9 * c), (\<lambda>j. if j < unat sz then resp j (of_nat j) else b j)))"
proof -
  let ?c = "card {j. j < unat sz \<and> resp j (of_nat j) \<noteq> of_nat j}"
  show ?thesis
  proof (cases "2 ^ 31 - 256 < unat sz \<or> 2 ^ 31 \<le> 9 * ?c")
    case True
    with cells.counts [of ?c sz resp b] show ?thesis by (simp add: Let_def)
  next
    case False
    with cells.counts [of ?c sz resp b] obtain b' where
      "check_buf (\<lambda>b. b) (\<lambda>b i v. b(i := resp i v)) sz b = Some (int (9 * ?c), b')"
      and "\<forall>j. b' j = (if j < unat sz then resp j (of_nat j) else b j)"
      by (simp only: if_False) blast
    moreover from this(2) have "b' = (\<lambda>j. if j < unat sz then resp j (of_nat j) else b j)" by (simp add: fun_eq_iff)
    ultimately show ?thesis using False by (simp add: Let_def)
  qed
qed

lemma check_buf_ram:
  "unat sz \<le> 2 ^ 31 - 256 \<Longrightarrow>
     check_buf (\<lambda>b. b) fun_upd sz b = Some (0, (\<lambda>j. if j < unat sz then of_nat j else b j))"
  using cells.counts [OF refl, of sz "\<lambda>i v. v" b] by (auto simp: fun_eq_iff split: if_splits)

end
