(* ===== verification/Spec2Isabelle.thy ===== *)
theory Spec2Isabelle
  imports Store_Race Directories Zh3t_Demo Selftest Udmabuf
begin

text \<open>
  Verification of the zh3t recorder, the C program under src/src/ that runs on the processing
  system (PS) of a Zynq UltraScale+ board, receives data from the programmable logic (PL) by
  DMA, records it in files, and is controlled by clients over TCP.

  The program and its parts.  \<open>main\<close> (zh3t_demo.c) initialises the hardware, sets the words of
  BRAM window 1 that are the shared state of the system, starts five threads and becomes the
  slicing control (store_control in store.c).  Three threads record: channel 0, channel 1 and the
  index (store.c).  A fourth accepts clients (tcp_server.c) and forks a process for each, which
  serves ten commands (tcp_process.c) and talks to the recorders only through the BRAM.  The
  fifth sends a heartbeat on a serial port (store.c, serport.c).  Below them lie the BRAM windows
  (ubram.c), the GPIO lines (ugpio.c), physical memory (ummap.c) and the DMA engines (udma.c).

  Theories, in the order they build on each other.
  \<^item> Prelude: lists, machine words and their bytes, number formats, C strings.
  \<^item> Machine: events, histories, the environment, programs as state transformers with failures,
    weakest preconditions; the locales \<open>rely_loop\<close> (a loop body under interference),
    \<open>polled_flag\<close> and \<open>pl_handshake\<close> (flags of the PL).
  \<^item> History: what a history means: contents of files, bytes delivered by DMA, sysfs attributes.
  \<^item> Ubram, Ugpio (locale \<open>gpio_port\<close>), Ummap, Udma, Serport: one theory for each C file, one
    definition for each function, under the function's name.
  \<^item> Store: globals and locals of store.c, file names, slicing control, start-up, heartbeat.
    Store_Mn, Store_Ls, Store_Sy: the loops of chan_recv_routine, chan1_recv and
    index_recv_routine, cut into the parts of their bodies, each with the invariant of its loop.
    Store_Frames: what an iteration of each leaves alone.  Store_Control: the slicing control
    against the recorders.  Directories: what CreateDir promises of the file system.
  \<^item> Tcp_Support: connect_check, set_datetime, get_file_count.  Tcp_Process: process_conn_server,
    one definition for each command.  Tcp_Protocol: the encodings of the protocol, whole
    conversations and their failures.  Tcp_Server: tcp_server.c.
  \<^item> Concurrent (locale \<open>parallel\<close>): the rule by which threads that guarantee each other's rely
    relations compose.  Store_System: recorders, control, heartbeat, server and clients as one
    system, with the interpretation of that locale.
    Store_Race: how the threads open the files of a recording, and how the index can miss it.
  \<^item> Selftest, Udmabuf (locale \<open>cell_memory\<close>): the test routines of ubram.c, udma.c and udmabuf.c
    and the accesses of ummap.c that the program itself never calls.
  \<^item> Zh3t_Demo: main.  This theory: what spans the client, the BRAM and the recorder.

  How state and operations correspond.  A C function with effects is a \<open>prog\<close>: a function from the
  state to \<open>Ok\<close> with a result and the new state, or to \<open>Fail\<close> with the reason (\<open>exit\<close>, undefined
  behaviour, a wait that does not end).  The state is a record: the history of events and the
  PS half of BRAM window 1 (words 0 to 511), extended by the globals of each file and the locals
  of each thread.  Everything that is not under src/, the kernel, the DMA driver, the PL and the floating
  point unit, is the parameter \<open>env\<close>: it answers each event as a function of the history.
  Hypotheses on it (\<open>recorder_env\<close>, \<open>index_env\<close>, \<open>forks\<close>, \<open>gpio_up\<close>, \<open>devices_up\<close>, \<open>pl_clock\<close>,
  \<open>pagemap\<close>, \<open>accept_listens\<close>, \<open>finds_dirs\<close>, \<open>share_ok\<close>, \<open>client_ok\<close>, \<open>dma_ready\<close>, \<open>ls_busy\<close>) state
  documented behaviour of those parts, or the case a property is about.

  Integers.  Unsigned integers are words of the width of the C type; \<open>char\<close> is unsigned and \<open>long\<close>
  has 64 bits, as on AArch64.  Signed integers are mathematical ones: return values of system
  calls, descriptors, file and slice numbers, counts of files, calendar and clock values.  Where the code computes with an \<open>int\<close>
  that its input can make overflow, the overflow is written out as undefined behaviour: the
  counters of the transfer loops of udma.c (\<open>for_blocks\<close>, \<open>int_add\<close>) and the index and the error
  count of check_buf in udmabuf.c.  File numbers, one more for each slice of a recording, the total
  of get_file_count and differences of clock readings are not bounded.

  What the lemmas show.  Recorders: whatever other threads, kernel and PL do within the rely
  relation of a thread, no received byte is lost, duplicated or reordered, files are complete
  when a slice ends them, DMA requests stay in their buffer, iterations return; the
  threads guarantee these relations to each other as long as no descriptor number in use is held
  by two of them (a stale number is a defect the code has), so the recorder as a whole is
  lossless in every run with this condition, and the start-up leads to the initial state of that
  system.  Protocol: the device state is a refinement of a three-state automaton, each command has
  the effect and the reply it promises, a conversation of any length is served, times and sizes
  survive encoding, and a start request becomes a recording with the name the client asked for.
  Devices: handshakes with the PL terminate exactly when one of their polls yields 0, GPIO lines
  and BRAM read back what was written, page tables are decoded as documented, the serial line is
  set up as 8N1.  Errors: overflowing requests, file names and counters, failing reads, dead
  clients, dropped index buffers, writes to closed files, stale descriptors, unreadable
  directories, the lock of the DMA engines.

  Bounds and abstractions.  An endless loop is its body, iterated under interference
  (\<open>interleave\<close>) or a given number of times (\<open>iterR\<close>, and \<open>n\<close> of process_conn_server), which the
  properties leave open.  A busy wait polls at most \<open>polls e\<close> times and is then taken as hanging; the handshake properties are exact
  for every bound.  get_file_count recurses on paths of bounded length and is a total function.
  An iteration of a thread is atomic; the one race this hides that matters, the test and set of
  gMutexDma, is modelled step by step in Udma.  Diagnostic output is left out.  The overlapping \<open>sprintf\<close> of
  chan1_recv is taken to append its slash, as the C library in use does.  Reads of flags in the
  PS half of the BRAM are reads of memory and leave no event.  A directory is read as one
  snapshot at \<open>opendir\<close>.  Values of uninitialised objects are parameters or \<open>indet\<close>.

  Not modelled.  The contents of diagnostic output, and the .bak files, which are not compiled.
\<close>

section \<open>From the client to the file\<close>

text \<open>The two decimal digits of a time field.\<close>

definition dec2 :: "u8 \<Rightarrow> string" where
  "dec2 v = [digit_char (unat v div 10), digit_char (unat v mod 10)]"

lemma digit_char_0: "digit_char 0 = CHR ''0''"
  by code_simp

lemma hex02_to_bcd:
  assumes "v < 100"
  shows "hex02 (ucast (to_bcd v)) = dec2 v"
proof -
  have v: "unat v < 100" using assms by (simp add: word_less_nat_alt)
  then have "unat v div 10 < 10" by linarith
  then have u: "unat (ucast (to_bcd v) :: u32) = 16 * (unat v div 10) + unat v mod 10"
    by (simp add: unsigned_ucast_eq unat_to_bcd take_bit_nat_eq_self)
  have h: "hex n = [digit_char n]" if "n < 10" for n
    using that by (subst hex.simps) (simp add: hex_char_def digit_char_def)
  define a b where "a = unat v div 10" and "b = unat v mod 10"
  have ab: "a < 10" "b < 10" using v by (auto simp: a_def b_def)
  have "hex (16 * a + b) = [digit_char a, digit_char b]" if "a \<noteq> 0"
    using that ab h [of a] by (subst hex.simps) (simp add: hex_char_def digit_char_def)
  then show ?thesis using ab h
    by (cases "a = 0") (auto simp: hex02_def u dec2_def digit_char_0 simp flip: a_def b_def)
qed

text \<open>The name of the first file of a recording in directory \<open>d\<close> started by request \<open>b\<close>.\<close>

definition requested_name :: "string \<Rightarrow> bytes \<Rightarrow> string" where
  "requested_name d b = ''/smbshare/'' @ d @ ''/20''
     @ concat (map (\<lambda>k. dec2 (b ! k)) [5, 7, 9, 11, 13, 15]) @ ''_0.bxsldpls''"

lemma record_name_requested:
  assumes "times_from a t" and "\<And>k. k < 6 \<Longrightarrow> a ! (4104 + k) = time_buffer (my_time b) ! k"
    and "\<forall>k \<in> time_fields. b ! k < 100"
  shows "record_name (''/smbshare/'' @ d @ ''/'') 0 t @ ''.bxsldpls'' = requested_name d b"
proof -
  have "hex02 (ucast (to_bcd (b ! k))) = dec2 (b ! k)" if "k \<in> time_fields" for k
    using assms(3) that by (simp add: hex02_to_bcd)
  then have "hex02 (time_yer t) = dec2 (b ! 5)" "hex02 (time_mon t) = dec2 (b ! 7)"
      "hex02 (time_day t) = dec2 (b ! 9)" "hex02 (time_hor t) = dec2 (b ! 11)"
      "hex02 (time_min t) = dec2 (b ! 13)" "hex02 (time_sec t) = dec2 (b ! 15)"
    using assms(1) assms(2) [of 0] assms(2) [of 1] assms(2) [of 2] assms(2) [of 3] assms(2) [of 4]
      assms(2) [of 5]
    by (simp_all add: times_from_def time_buffer_def my_time_def time_fields_def)
  then show ?thesis by (simp add: record_name_def requested_name_def sdec_def dec.simps digit_char_0)
qed

text \<open>The time the PL presents to the recorder.\<close>

lemma pl_clock_bytes:
  assumes "pl_clock e w" and "k < 6"
  shows "bram_bytes e 1 0x2000 r ! (4104 + k) = byte_at w k"
proof -
  have "(4104 + k) div 8 = 513" "(4104 + k) mod 8 = k" using assms(2) by presburger+
  with assms show ?thesis by (simp add: bram_bytes_def pl_clock_def bram_word_def del: upt_Suc)
qed

section \<open>Properties\<close>

text \<open>C4: a start request becomes a recording.  When a client asks an idle device with space on its disk
  to record into a directory, the recorder finds the request in the shared BRAM and opens an
  empty file there, named by the time the client sent, provided the PL presents the time it is
  given and the time fields are decimal.\<close>

theorem start_request_records:
  assumes "gpio_up e" and "length (buffer s) = 300" and "process_conn_server_body e sock s = Ok True t"
    and "requests sock (hist t) = requests sock (hist s) @ [(sz, q)]"
    and "b = overwrite 0 (take (nat sz) q) (buffer s)" and "b ! 3 = 3"
    and "available_size (sfs t) \<noteq> 0" and "bram_ps s 25 \<noteq> WORK_RECORD"
    and "take 256 (drop 18 b) = str_bytes d @ 0 # rest" and "CHR 0x00 \<notin> set d" and "length d \<le> 91"
    and "\<forall>k \<in> time_fields. b ! k < 100"
    and "recorder_env e'" and "ls_fresh r" and "length (file_name_sys r) = 320"
    and "bram_ps r = bram_ps t" and "pl_clock e' (bram_ps t 0)"
  shows "bram_ps r STAR_STORE = 1 \<and> (\<exists>u. ls_start e' r = Ok True u \<and> ls_is_open u \<and>
    written (ls_file u) (hist u) = [] \<and> ls_file_name (ls u) = requested_name d b)"
proof -
  have st: "started b t" by (rule start_body_started [OF assms(1-8)])
  then have dir: "dir_name_in (bram_ps r) d"
    using assms(9,10,16) by (auto simp: dir_name_in_def started_def simp del: upt_Suc)
  obtain u where u: "ls_start e' r = Ok True u" "times_from (bram_bytes e' 1 0x2000 r) u"
      "ls_file_name (ls u) = record_name (''/smbshare/'' @ d @ ''/'') 0 u @ ''.bxsldpls''" "ls_started u"
    using wp_total [OF wp_total_conj [OF wp_ls_start_names [OF assms(13,14) dir assms(11,15)]
        wp_ls_start [OF assms(13,14)]]] by auto
  have "bram_bytes e' 1 0x2000 r ! (4104 + k) = time_buffer (my_time b) ! k" if "k < 6" for k
    using pl_clock_bytes [OF assms(17) that] st that by (simp add: started_def clocked_def)
  from record_name_requested [OF u(2) this assms(12)] u st show ?thesis
    by (simp add: ls_started_def started_def assms(16) STAR_STORE_def)
qed

theorem start_request_records_witness:
  "\<exists>(t :: tcp_state) (u :: store_state). process_conn_server_body (env_msg (request 3)) 4 tcp0 = Ok True t \<and>
    ls_start (env_on\<lparr>pl_word := \<lambda>_ _ _. bram_ps t 0\<rparr>) (store0\<lparr>bram_ps := bram_ps t\<rparr>) = Ok True u \<and>
    ls_is_open u"
proof -
  obtain t :: tcp_state where t: "process_conn_server_body (env_msg (request 3)) 4 tcp0 = Ok True t"
      "requests 4 (hist t) = requests 4 (hist tcp0) @ [(274, request 3)]"
      "available_size (sfs t) = disk_size"
    using served_msg [of 3 tcp0 4] by auto
  let ?b = "(replicate 300 0)[3 := 3] :: bytes"
  let ?e = "env_on\<lparr>pl_word := \<lambda>_ _ _. bram_ps t 0\<rparr>" and ?r = "store0\<lparr>bram_ps := bram_ps t\<rparr>"
  have b: "?b = overwrite 0 (take (nat 274) (request 3)) (buffer tcp0)"
    by (rule nth_equalityI) (simp_all add: nth_overwrite length_overwrite request_def tcp0_def nth_list_update)
  have "take 256 (drop 18 ?b) = str_bytes '''' @ 0 # replicate 255 0"
    by (rule nth_equalityI) (auto simp: str_bytes_def nth_Cons' nth_list_update)
  moreover have "recorder_env ?e" using recorder_env_on
    by (simp add: recorder_env_def full_writes_def dma_blocks_def seek_ends_def record_opens_def)
  moreover have "ls_fresh ?r" using ls_begin_store0 by (simp add: ls_begin_def ls_fresh_def)
  moreover have "length (file_name_sys ?r) = 320" by (simp add: store0_def)
  moreover have "pl_clock ?e (bram_ps t 0)" by (simp add: pl_clock_def)
  moreover have "\<forall>k \<in> time_fields. ?b ! k < 100" by (simp add: time_fields_def)
  moreover have "?b ! 3 = 3" by simp
  ultimately have "\<exists>u. ls_start ?e ?r = Ok True u \<and> ls_is_open u"
    using start_request_records [OF gpio_up_msg _ t(1,2) b, of "''''" "replicate 255 0" ?e ?r]
    by (auto simp: t(3) disk_size_def work_words)
  with t(1) show ?thesis by blast
qed

text \<open>A start request for a directory with a name of 100 characters.\<close>

definition long_request :: bytes where
  "long_request = replicate 3 0 @ [3] @ replicate 14 0 @ replicate 100 97 @ replicate 156 0"

lemma long_request_simps:
  "length long_request = 274" "long_request ! 3 = 3"
  "take 256 (drop 18 (overwrite 0 long_request (replicate 300 0)))
    = str_bytes (replicate 100 (CHR ''a'')) @ 0 # replicate 155 0"
  by (simp_all add: long_request_def overwrite_def str_bytes_def nth_append char_byte_def flip: replicate_Suc)

text \<open>C38: a start request for a directory with a name of more than 91 characters, which the protocol
  allows up to 255, makes the recorder overflow the array of its file name: on an idle device with
  space on its disk the request is accepted and handed over in the BRAM, and the iteration of the
  recorder that finds it there ends in undefined behaviour.\<close>

theorem start_request_overflows:
  assumes "gpio_up e" and "length (buffer s) = 300" and "process_conn_server_body e sock s = Ok True t"
    and "requests sock (hist t) = requests sock (hist s) @ [(sz, q)]"
    and "b = overwrite 0 (take (nat sz) q) (buffer s)" and "b ! 3 = 3"
    and "available_size (sfs t) \<noteq> 0" and "bram_ps s 25 \<noteq> WORK_RECORD"
    and "take 256 (drop 18 b) = str_bytes d @ 0 # rest" and "CHR 0x00 \<notin> set d" and "91 < length d"
    and "length (file_name_sys r) = 320" and "bram_ps r = bram_ps t"
  shows "\<exists>u. chan1_recv_body e' n r = Fail Undefined u"
proof -
  have st: "started b t" by (rule start_body_started [OF assms(1-8)])
  then have "dir_name_in (bram_ps r) d"
    using assms(9,10,13) by (auto simp: dir_name_in_def started_def simp del: upt_Suc)
  from ls_start_overflow [OF this assms(11,12)] obtain u where "ls_start e' r = Fail Undefined u" ..
  moreover have "bram_ps r STAR_STORE = 1" using st by (simp add: started_def assms(13) STAR_STORE_def)
  ultimately show ?thesis by (simp add: chan1_recv_body_def bindR_def ifR_def)
qed

theorem start_request_overflows_witness:
  "\<exists>(t :: tcp_state) (u :: store_state). process_conn_server_body (env_msg long_request) 4 tcp0 = Ok True t \<and>
    chan1_recv_body env_on 1 (store0\<lparr>bram_ps := bram_ps t\<rparr>) = Fail Undefined u"
proof -
  obtain t :: tcp_state where t: "process_conn_server_body (env_msg long_request) 4 tcp0 = Ok True t"
      "requests 4 (hist t) = requests 4 (hist tcp0) @ [(274, long_request)]"
      "available_size (sfs t) = disk_size"
    using served_bytes [of long_request tcp0 4] long_request_simps(1,2) by auto
  let ?b = "overwrite 0 (take (nat 274) long_request) (buffer tcp0)" and ?d = "replicate 100 (CHR ''a'')"
  have b: "?b = overwrite 0 long_request (replicate 300 0)"
    by (simp add: long_request_simps(1) tcp0_def)
  have "?b ! 3 = 3" unfolding b by (simp add: nth_overwrite long_request_simps)
  moreover have "take 256 (drop 18 ?b) = str_bytes ?d @ 0 # replicate 155 0"
    unfolding b by (rule long_request_simps(3))
  moreover have "CHR 0x00 \<notin> set ?d" "91 < length ?d" by simp_all
  moreover have "length (file_name_sys (store0\<lparr>bram_ps := bram_ps t\<rparr>)) = 320" by (simp add: store0_def)
  ultimately have "\<exists>u. chan1_recv_body env_on 1 (store0\<lparr>bram_ps := bram_ps t\<rparr>) = Fail Undefined u"
    using start_request_overflows [OF gpio_up_msg _ t(1,2) refl, of ?d "replicate 155 0"
        "store0\<lparr>bram_ps := bram_ps t\<rparr>" env_on 1]
    by (simp add: t(3) disk_size_def work_words)
  with t(1) show ?thesis by blast
qed

end
